(* ===== verification/Prelude.thy ===== *)
theory Prelude
  imports Main
begin

text \<open>
  Shared vocabulary of the development: the collections of rewrite rules the component proofs
  draw on, and generic facts about lists, options and association lists that the standard
  library does not state in the form needed here.

  \<^item> \<open>js_simps\<close> collects the equations of the JavaScript object and string operations;
  \<^item> \<open>view_simps\<close> collects the unfolding equations of the list-view operations;
  \<^item> \<open>store_simps\<close> collects the equations of browser storage and the stores built on it.
\<close>

named_theorems js_simps
named_theorems view_simps
named_theorems store_simps

subsection \<open>Lists\<close>

lemma filter_eq_self_iff: "filter P xs = xs \<longleftrightarrow> (\<forall>x \<in> set xs. P x)"
  by (simp add: filter_id_conv)

lemma distinct_snoc [simp]: "distinct (xs @ [x]) \<longleftrightarrow> x \<notin> set xs \<and> distinct xs"
  by auto

lemma find_Some_set: "find P xs = Some x \<Longrightarrow> x \<in> set xs \<and> P x"
  by (induction xs) (auto split: if_splits)

lemma find_Some_iff_ex: "(\<exists>x. find P xs = Some x) \<longleftrightarrow> (\<exists>x \<in> set xs. P x)"
  by (induction xs) auto

lemma find_None_all: "find P xs = None \<longleftrightarrow> (\<forall>x \<in> set xs. \<not> P x)"
  by (induction xs) auto

lemma takeWhile_all: "(\<And>x. x \<in> set xs \<Longrightarrow> P x) \<Longrightarrow> takeWhile P xs = xs"
  by (simp add: takeWhile_eq_all_conv)

lemma dropWhile_all: "(\<And>x. x \<in> set xs \<Longrightarrow> P x) \<Longrightarrow> dropWhile P xs = []"
  by (simp add: dropWhile_eq_Nil_conv)

lemma dropWhile_Cons_length: "dropWhile P xs = y # ys \<Longrightarrow> length ys < length xs"
  using length_dropWhile_le [of P xs] by simp

subsection \<open>The first occurrence of an element removed or changed\<close>

text \<open>
  \<open>update_first P f xs\<close> changes the first element that satisfies \<open>P\<close>; \<open>remove_first P xs\<close>
  drops it. They are what \<open>xs.find(P)\<close> followed by an assignment, and
  \<open>xs.splice(xs.findIndex(P), 1)\<close>, do to an array.
\<close>

fun update_first :: "('a \<Rightarrow> bool) \<Rightarrow> ('a \<Rightarrow> 'a) \<Rightarrow> 'a list \<Rightarrow> 'a list" where
  "update_first P f [] = []"
| "update_first P f (x # xs) = (if P x then f x # xs else x # update_first P f xs)"

fun remove_first :: "('a \<Rightarrow> bool) \<Rightarrow> 'a list \<Rightarrow> 'a list" where
  "remove_first P [] = []"
| "remove_first P (x # xs) = (if P x then xs else x # remove_first P xs)"

lemma length_update_first [simp]: "length (update_first P f xs) = length xs"
  by (induction xs) auto

lemma map_update_first: "(\<And>x. g (f x) = g x) \<Longrightarrow> map g (update_first P f xs) = map g xs"
  by (induction xs) auto

lemma set_remove_first_subset: "set (remove_first P xs) \<subseteq> set xs"
  by (induction xs) auto

lemma remove_first_none: "(\<And>x. x \<in> set xs \<Longrightarrow> \<not> P x) \<Longrightarrow> remove_first P xs = xs"
  by (induction xs) auto

lemma map_remove_first:
  "map g (remove_first (\<lambda>x. g x = k) xs) = remove1 k (map g xs)"
  by (induction xs) auto

lemma distinct_map_remove_first:
  "distinct (map g xs) \<Longrightarrow> distinct (map g (remove_first P xs))"
proof (induction xs)
  case (Cons x xs)
  then show ?case using set_remove_first_subset [of P xs] by auto
qed simp

lemma filter_remove_first_not:
  "(\<And>x. P x \<Longrightarrow> \<not> Q x) \<Longrightarrow> filter Q (remove_first P xs) = filter Q xs"
  by (induction xs) auto

lemma filter_remove_first_le:
  "length (filter Q (remove_first P xs)) \<le> length (filter Q xs)"
  by (induction xs) auto

lemma remove1_in_distinct: "distinct xs \<Longrightarrow> k \<in> set (remove1 j xs) \<longleftrightarrow> k \<in> set xs \<and> k \<noteq> j"
  by (induction xs) auto

subsection \<open>Counting\<close>

lemma length_filter_zero_iff: "length (filter P xs) = 0 \<longleftrightarrow> (\<forall>x \<in> set xs. \<not> P x)"
  by (induction xs) auto

lemma length_filter_all_iff: "length (filter P xs) = length xs \<longleftrightarrow> (\<forall>x \<in> set xs. P x)"
proof (induction xs)
  case (Cons x xs)
  have "length (filter P xs) \<noteq> Suc (length xs)"
    by (metis Suc_n_not_le_n length_filter_le)
  with Cons show ?case by auto
qed simp

end
