(* ===== verification/JsValue.thy ===== *)
theory JsValue
  imports Prelude
begin

text \<open>
  The part of the JavaScript language the sources rely on: values, truthiness, property access,
  object update and spread. An object is an association list in insertion order, as
  \<open>Object.keys\<close> enumerates it; reading an absent property gives \<open>undefined\<close>.
  (A key that is an array index would be enumerated first, in numeric order; the modelled code
  enumerates such keys only where the order has no influence on the result.)

  Numbers are integers: every number that the modelled code stores in an object (identifiers,
  totals, page numbers, Unix times, status codes) is an integer below \<open>2^53\<close>, where a double is
  exact. A \<open>char\<close> is a code unit below 256.
\<close>

datatype jsval =
    JUndef
  | JNull
  | JBool bool
  | JNum int
  | JStr string
  | JArr "jsval list"
  | JObj "(string \<times> jsval) list"

type_synonym obj = "(string \<times> jsval) list"

fun truthy :: "jsval \<Rightarrow> bool" where
  "truthy JUndef = False"
| "truthy JNull = False"
| "truthy (JBool b) = b"
| "truthy (JNum n) = (n \<noteq> 0)"
| "truthy (JStr s) = (s \<noteq> [])"
| "truthy (JArr xs) = True"
| "truthy (JObj o') = True"

text \<open>\<open>a || b\<close>, and \<open>v == null\<close>, which holds of \<open>null\<close> and \<open>undefined\<close> only.\<close>

definition js_or :: "jsval \<Rightarrow> jsval \<Rightarrow> jsval" where
  "js_or a b = (if truthy a then a else b)"

fun nullish :: "jsval \<Rightarrow> bool" where
  "nullish JUndef = True"
| "nullish JNull = True"
| "nullish _ = False"

definition get :: "obj \<Rightarrow> string \<Rightarrow> jsval" where
  "get o' k = (case map_of o' k of None \<Rightarrow> JUndef | Some v \<Rightarrow> v)"

fun put :: "obj \<Rightarrow> string \<Rightarrow> jsval \<Rightarrow> obj" where
  "put [] k v = [(k, v)]"
| "put (p # o') k v = (if fst p = k then (k, v) # o' else p # put o' k v)"

definition keys :: "obj \<Rightarrow> string list" where
  "keys o' = map fst o'"

text \<open>\<open>{ ...a, ...b }\<close>: the entries of \<open>b\<close> written over \<open>a\<close> in order.\<close>

fun spread :: "obj \<Rightarrow> obj \<Rightarrow> obj" where
  "spread a [] = a"
| "spread a (p # b) = spread (put a (fst p) (snd p)) b"

text \<open>Optional chaining \<open>v?.k\<close>: \<open>undefined\<close> unless \<open>v\<close> is an object with that property.\<close>

fun opt_prop :: "jsval \<Rightarrow> string \<Rightarrow> jsval" where
  "opt_prop (JObj o') k = get o' k"
| "opt_prop _ k = JUndef"

text \<open>A value that the program only uses as an object.\<close>

fun as_obj :: "jsval \<Rightarrow> obj" where
  "as_obj (JObj o') = o'"
| "as_obj _ = []"

text \<open>\<open>Object.keys(form).forEach(key => { form[key] = row[key] })\<close>.\<close>

definition copy_keys :: "obj \<Rightarrow> obj \<Rightarrow> obj" where
  "copy_keys form row = map (\<lambda>p. (fst p, get row (fst p))) form"

definition obj_wf :: "obj \<Rightarrow> bool" where
  "obj_wf o' = distinct (keys o')"

subsection \<open>Laws of objects\<close>

lemma get_Nil [simp]: "get [] k = JUndef"
  by (simp add: get_def)

lemma get_Cons [simp]: "get ((k', v) # o') k = (if k = k' then v else get o' k)"
  by (simp add: get_def)

lemma get_put [simp]: "get (put o' k v) j = (if j = k then v else get o' j)"
  by (induction o') (auto simp: get_def)

lemma keys_put: "keys (put o' k v) = (if k \<in> set (keys o') then keys o' else keys o' @ [k])"
  by (induction o') (auto simp: keys_def)

lemma keys_put_mem [simp]: "k \<in> set (keys o') \<Longrightarrow> keys (put o' k v) = keys o'"
  by (simp add: keys_put)

lemma set_keys_put: "set (keys (put o' k v)) = insert k (set (keys o'))"
  by (auto simp: keys_put)

lemma put_wf [intro]: "obj_wf o' \<Longrightarrow> obj_wf (put o' k v)"
  by (simp add: obj_wf_def keys_put)

lemma put_comm_get: "j \<noteq> k \<Longrightarrow> get (put (put o' k v) j w) = get (put (put o' j w) k v)"
  by (rule ext) simp

lemma get_notin_keys: "k \<notin> set (keys o') \<Longrightarrow> get o' k = JUndef"
proof -
  assume "k \<notin> set (keys o')"
  then have "map_of o' k = None" by (simp add: keys_def map_of_eq_None_iff)
  then show ?thesis by (simp add: get_def)
qed

lemma get_spread:
  "obj_wf b \<Longrightarrow> get (spread a b) k = (if k \<in> set (keys b) then get b k else get a k)"
proof (induction b arbitrary: a)
  case (Cons p b)
  obtain k' v where p: "p = (k', v)" by (cases p)
  have wf: "obj_wf b" and nin: "k' \<notin> set (keys b)"
    using Cons.prems p by (auto simp: obj_wf_def keys_def)
  have "get (spread a (p # b)) k =
      (if k \<in> set (keys b) then get b k else get (put a k' v) k)"
    using Cons.IH [OF wf] p by simp
  then show ?case using nin p by (auto simp: keys_def)
qed (simp add: keys_def)

lemma spread_wf: "obj_wf a \<Longrightarrow> obj_wf (spread a b)"
  by (induction b arbitrary: a) auto

lemma keys_copy_keys [simp]: "keys (copy_keys form row) = keys form"
  by (simp add: keys_def copy_keys_def)

lemma get_copy_keys:
  "get (copy_keys form row) k = (if k \<in> set (keys form) then get row k else JUndef)"
  unfolding copy_keys_def keys_def by (induction form) auto

lemmas obj_laws = get_put keys_put set_keys_put get_copy_keys

declare get_put [js_simps] get_Cons [js_simps] get_Nil [js_simps] get_copy_keys [js_simps]

end
