(* ===== verification/JsString.thy ===== *)
theory JsString
  imports JsValue "HOL-Library.Sublist"
begin

text \<open>
  The string operations of the JavaScript library that the sources call: \<open>trim\<close>, \<open>split\<close>,
  \<open>join\<close>, \<open>includes\<close>, \<open>indexOf\<close>, \<open>lastIndexOf\<close>, \<open>replace\<close>, \<open>replaceAll\<close>, \<open>toLowerCase\<close>,
  the decimal rendering of integers, \<open>parseInt\<close> and \<open>String(v)\<close>. The facts at the end are the
  round trip between rendering and \<open>parseInt\<close> and the laws of \<open>split\<close> and \<open>join\<close>.
\<close>

subsection \<open>Characters\<close>

definition chr :: "nat \<Rightarrow> char" where
  "chr n = char_of n"

definition char_code :: "char \<Rightarrow> nat" where
  "char_code c = of_char c"

definition quote :: char where "quote = CHR 0x22"
definition comma :: char where "comma = CHR 0x2C"
definition lf :: char where "lf = CHR 0x0A"
definition cr :: char where "cr = CHR 0x0D"

definition is_ws :: "char \<Rightarrow> bool" where
  "is_ws c = (char_code c \<in> {9, 10, 11, 12, 13, 32, 160})"

definition is_digit :: "char \<Rightarrow> bool" where
  "is_digit c = (48 \<le> char_code c \<and> char_code c \<le> 57)"

text \<open>\<open>\w\<close> of a regular expression: letters, digits and the underscore.\<close>

definition is_word_char :: "char \<Rightarrow> bool" where
  "is_word_char c =
     (is_digit c \<or> (65 \<le> char_code c \<and> char_code c \<le> 90) \<or> (97 \<le> char_code c \<and> char_code c \<le> 122) \<or> char_code c = 95)"

definition lower_char :: "char \<Rightarrow> char" where
  "lower_char c =
     (if (65 \<le> char_code c \<and> char_code c \<le> 90) \<or> (192 \<le> char_code c \<and> char_code c \<le> 222 \<and> char_code c \<noteq> 215)
      then chr (char_code c + 32) else c)"

subsection \<open>Strings\<close>

definition trim :: "string \<Rightarrow> string" where
  "trim s = rev (dropWhile is_ws (rev (dropWhile is_ws s)))"

definition toLowerCase :: "string \<Rightarrow> string" where
  "toLowerCase s = map lower_char s"

definition startsWith :: "string \<Rightarrow> string \<Rightarrow> bool" where
  "startsWith s p = (take (length p) s = p)"

fun str_includes :: "string \<Rightarrow> string \<Rightarrow> bool" where
  "str_includes [] p = (p = [])"
| "str_includes (c # s) p = (startsWith (c # s) p \<or> str_includes s p)"

text \<open>\<open>s.indexOf(p)\<close>, with \<open>None\<close> for -1.\<close>

fun indexOf :: "string \<Rightarrow> string \<Rightarrow> nat option" where
  "indexOf [] p = (if p = [] then Some 0 else None)"
| "indexOf (c # s) p =
     (if startsWith (c # s) p then Some 0 else map_option Suc (indexOf s p))"

text \<open>\<open>s.lastIndexOf(c)\<close> for a single character, with \<open>None\<close> for -1.\<close>

fun lastIndexOf :: "string \<Rightarrow> char \<Rightarrow> nat option" where
  "lastIndexOf [] c = None"
| "lastIndexOf (x # s) c =
     (case lastIndexOf s c of Some i \<Rightarrow> Some (Suc i) | None \<Rightarrow> if x = c then Some 0 else None)"

text \<open>\<open>s.replaceAll(c, r)\<close> for a one-character pattern.\<close>

definition replaceAll_char :: "string \<Rightarrow> char \<Rightarrow> string \<Rightarrow> string" where
  "replaceAll_char s c r = concat (map (\<lambda>x. if x = c then r else [x]) s)"

text \<open>
  \<open>s.replace(p, r)\<close> for a non-empty string pattern: the first occurrence only. The replacement
  texts of the modelled calls contain no \<open>$\<close>.
\<close>

fun replace :: "string \<Rightarrow> string \<Rightarrow> string \<Rightarrow> string" where
  "replace [] p r = (if p = [] then r else [])"
| "replace (c # s) p r =
     (if startsWith (c # s) p then r @ drop (length p) (c # s) else c # replace s p r)"

fun join :: "string \<Rightarrow> string list \<Rightarrow> string" where
  "join sep [] = []"
| "join sep [x] = x"
| "join sep (x # y # xs) = x @ sep @ join sep (y # xs)"

text \<open>\<open>s.split(c)\<close> for a one-character separator: never empty.\<close>

fun split_on :: "char \<Rightarrow> string \<Rightarrow> string list" where
  "split_on c [] = [[]]"
| "split_on c (x # s) =
     (if x = c then [] # split_on c s
      else (case split_on c s of [] \<Rightarrow> [[x]] | w # ws \<Rightarrow> (x # w) # ws))"

subsection \<open>Numbers in strings\<close>

definition digit :: "nat \<Rightarrow> char" where
  "digit n = chr (48 + n)"

fun show_nat :: "nat \<Rightarrow> string" where
  "show_nat n = (if n < 10 then [digit n] else show_nat (n div 10) @ [digit (n mod 10)])"

declare show_nat.simps [simp del]

definition show_int :: "int \<Rightarrow> string" where
  "show_int i = (if i < 0 then CHR ''-'' # show_nat (nat (- i)) else show_nat (nat i))"

fun read_digits :: "nat \<Rightarrow> string \<Rightarrow> nat" where
  "read_digits acc [] = acc"
| "read_digits acc (c # s) =
     (if is_digit c then read_digits (10 * acc + (char_code c - 48)) s else acc)"

text \<open>
  \<open>parseInt(s)\<close> in base ten: leading white space and one sign are skipped and the longest run of
  digits is read; \<open>None\<close> is \<open>NaN\<close>. The \<open>0x\<close> prefix is outside the model.
\<close>

definition parseNat :: "string \<Rightarrow> nat option" where
  "parseNat s = (case s of [] \<Rightarrow> None | c # _ \<Rightarrow> if is_digit c then Some (read_digits 0 s) else None)"

definition parseInt :: "string \<Rightarrow> int option" where
  "parseInt s =
     (case dropWhile is_ws s of
        [] \<Rightarrow> None
      | c # r \<Rightarrow>
          if c = CHR ''-'' then map_option (\<lambda>n. - int n) (parseNat r)
          else if c = CHR ''+'' then map_option int (parseNat r)
          else map_option int (parseNat (c # r)))"

text \<open>\<open>String(v)\<close>.\<close>

fun toStr :: "jsval \<Rightarrow> string" where
  "toStr JUndef = ''undefined''"
| "toStr JNull = ''null''"
| "toStr (JBool b) = (if b then ''true'' else ''false'')"
| "toStr (JNum n) = show_int n"
| "toStr (JStr s) = s"
| "toStr (JArr xs) = join '','' (map (\<lambda>x. if nullish x then [] else toStr x) xs)"
| "toStr (JObj o') = ''[object Object]''"

subsection \<open>Facts\<close>

lemma code_digit: "n < 10 \<Longrightarrow> char_code (digit n) = 48 + n"
  by (simp add: char_code_def digit_def chr_def)

lemma is_digit_digit [simp]: "n < 10 \<Longrightarrow> is_digit (digit n)"
  by (simp add: is_digit_def code_digit)

lemma digit_not_ws: "is_digit c \<Longrightarrow> \<not> is_ws c"
  by (auto simp: is_digit_def is_ws_def)

lemma digit_not_sign: "is_digit c \<Longrightarrow> c \<noteq> CHR ''-'' \<and> c \<noteq> CHR ''+''"
  by (auto simp: is_digit_def char_code_def)

lemma show_nat_digits: "c \<in> set (show_nat n) \<Longrightarrow> is_digit c"
proof (induction n arbitrary: c rule: show_nat.induct)
  case (1 n)
  then show ?case
    by (cases "n < 10") (auto simp: show_nat.simps [of n])
qed

lemma show_nat_nonempty [simp]: "show_nat n \<noteq> []"
  by (subst show_nat.simps) simp

lemma read_digits_snoc:
  "(\<And>c. c \<in> set s \<Longrightarrow> is_digit c) \<Longrightarrow> is_digit d \<Longrightarrow>
   read_digits acc (s @ [d]) = 10 * read_digits acc s + (char_code d - 48)"
  by (induction s arbitrary: acc) auto

lemma read_show_nat: "read_digits 0 (show_nat n) = n"
proof (induction n rule: show_nat.induct)
  case (1 n)
  show ?case
  proof (cases "n < 10")
    case True
    then show ?thesis by (simp add: show_nat.simps [of n] code_digit)
  next
    case False
    have "read_digits 0 (show_nat (n div 10) @ [digit (n mod 10)]) =
        10 * read_digits 0 (show_nat (n div 10)) + (char_code (digit (n mod 10)) - 48)"
      by (rule read_digits_snoc) (auto dest: show_nat_digits)
    then show ?thesis using False 1 by (simp add: show_nat.simps [of n] code_digit)
  qed
qed

lemma parseNat_show_nat: "parseNat (show_nat n) = Some n"
proof -
  obtain c r where cr: "show_nat n = c # r" by (cases "show_nat n") auto
  have "is_digit c" using show_nat_digits [of c n] cr by simp
  with cr read_show_nat [of n] show ?thesis by (simp add: parseNat_def)
qed

lemma parseInt_show_nat: "parseInt (show_nat n) = Some (int n)"
proof -
  obtain c r where cr: "show_nat n = c # r" by (cases "show_nat n") auto
  have d: "is_digit c" using show_nat_digits [of c n] cr by simp
  then have "dropWhile is_ws (show_nat n) = c # r" using cr digit_not_ws by simp
  then show ?thesis using d digit_not_sign [OF d] parseNat_show_nat [of n] cr
    by (simp add: parseInt_def)
qed

lemma parseInt_show_int: "parseInt (show_int i) = Some i"
proof (cases "i < 0")
  case True
  then have "dropWhile is_ws (show_int i) = CHR ''-'' # show_nat (nat (- i))"
    by (simp add: show_int_def is_ws_def char_code_def)
  with True show ?thesis by (simp add: parseInt_def parseNat_show_nat)
next
  case False
  then show ?thesis by (simp add: show_int_def parseInt_show_nat)
qed

lemma show_nat_inj: "show_nat m = show_nat n \<longleftrightarrow> m = n"
  by (metis read_show_nat)

lemma show_int_nonempty [simp]: "show_int i \<noteq> []"
  by (simp add: show_int_def)

lemma split_on_nonempty [simp]: "split_on c s \<noteq> []"
  by (induction s) (auto split: list.splits)

lemma split_on_notin: "c \<notin> set s \<Longrightarrow> split_on c s = [s]"
  by (induction s) auto

lemma split_on_append: "c \<notin> set w \<Longrightarrow> split_on c (w @ c # s) = w # split_on c s"
  by (induction w) auto

lemma split_on_join:
  "ws \<noteq> [] \<Longrightarrow> (\<And>w. w \<in> set ws \<Longrightarrow> c \<notin> set w) \<Longrightarrow> split_on c (join [c] ws) = ws"
proof (induction ws)
  case (Cons w ws)
  then show ?case by (cases ws) (auto simp: split_on_notin split_on_append)
qed simp

lemma join_split_on: "join [c] (split_on c s) = s"
proof (induction s)
  case (Cons x s)
  obtain w ws where ws: "split_on c s = w # ws" by (cases "split_on c s") auto
  show ?case
  proof (cases ws)
    case Nil
    then show ?thesis using Cons ws by auto
  next
    case (Cons v vs)
    then show ?thesis using Cons.IH ws by auto
  qed
qed simp

lemma trim_id: "s \<noteq> [] \<Longrightarrow> \<not> is_ws (hd s) \<Longrightarrow> \<not> is_ws (last s) \<Longrightarrow> trim s = s"
proof -
  assume a: "s \<noteq> []" "\<not> is_ws (hd s)" "\<not> is_ws (last s)"
  have "dropWhile is_ws s = s" using a by (cases s) auto
  moreover have "dropWhile is_ws (rev s) = rev s"
    using a by (cases s rule: rev_cases) auto
  ultimately show ?thesis by (simp add: trim_def)
qed

lemma trim_Nil [simp]: "trim [] = []"
  by (simp add: trim_def)

lemma startsWith_append [simp]: "startsWith (p @ s) p"
  by (simp add: startsWith_def)

lemma startsWith_iff: "startsWith s p \<longleftrightarrow> prefix p s"
  by (metis append_eq_conv_conj append_take_drop_id prefix_def startsWith_def)

lemma str_includes_iff: "str_includes s p \<longleftrightarrow> sublist p s"
  by (induction s) (auto simp: startsWith_iff sublist_Cons_right)

lemma replace_absent: "p \<noteq> [] \<Longrightarrow> \<not> str_includes s p \<Longrightarrow> replace s p r = s"
  by (induction s) auto

lemma lastIndexOf_None: "lastIndexOf s c = None \<longleftrightarrow> c \<notin> set s"
  by (induction s) (auto split: option.splits)

lemma lastIndexOf_Some:
  "lastIndexOf s c = Some i \<Longrightarrow> i < length s \<and> s ! i = c \<and> c \<notin> set (drop (Suc i) s)"
  by (induction s arbitrary: i) (auto simp: lastIndexOf_None split: option.splits if_splits)

lemma lastIndexOf_append:
  "c \<notin> set p \<Longrightarrow> lastIndexOf (p @ s) c = map_option (\<lambda>i. i + length p) (lastIndexOf s c)"
  by (induction p) (auto simp: option.map_comp o_def option.map_ident split: option.splits)

end
