(* ===== verification/JsJson.thy ===== *)
theory JsJson
  imports JsString
begin

text \<open>
  \<open>JSON.stringify\<close> on the values of the model: \<open>undefined\<close> has no JSON text, is written as
  \<open>null\<close> inside an array and left out of an object; strings are quoted with the short escapes
  and \<open>\u00XX\<close> for the other control characters.
\<close>

definition hex_digit :: "nat \<Rightarrow> char" where
  "hex_digit n = (if n < 10 then chr (48 + n) else chr (87 + n))"

definition json_escape :: "char \<Rightarrow> string" where
  "json_escape c =
     (let n = char_code c in
      if n = 34 then [chr 92, chr 34]
      else if n = 92 then [chr 92, chr 92]
      else if n = 8 then [chr 92, CHR ''b'']
      else if n = 12 then [chr 92, CHR ''f'']
      else if n = 10 then [chr 92, CHR ''n'']
      else if n = 13 then [chr 92, CHR ''r'']
      else if n = 9 then [chr 92, CHR ''t'']
      else if n < 32 then [chr 92, CHR ''u'', CHR ''0'', CHR ''0'', hex_digit (n div 16), hex_digit (n mod 16)]
      else [c])"

definition json_string :: "string \<Rightarrow> string" where
  "json_string s = quote # concat (map json_escape s) @ [quote]"

fun json_text :: "jsval \<Rightarrow> string" where
  "json_text JUndef = ''null''"
| "json_text JNull = ''null''"
| "json_text (JBool b) = (if b then ''true'' else ''false'')"
| "json_text (JNum n) = show_int n"
| "json_text (JStr s) = json_string s"
| "json_text (JArr xs) = ''['' @ join '','' (map json_text xs) @ '']''"
| "json_text (JObj o') =
     ''{'' @ join '','' (map (\<lambda>p. json_string (fst p) @ '':'' @ json_text (snd p))
                           (filter (\<lambda>p. snd p \<noteq> JUndef) o')) @ ''}''"

text \<open>\<open>JSON.stringify(v)\<close>: \<open>undefined\<close> itself has no text.\<close>

definition stringify :: "jsval \<Rightarrow> string option" where
  "stringify v = (if v = JUndef then None else Some (json_text v))"

subsection \<open>Parsing\<close>

text \<open>
  \<open>JSON.parse\<close>. \<open>Syntax\<close> is the exception the library raises; \<open>Beyond\<close> marks a text whose value
  is outside the model (a fraction, an exponent, a character above 255); \<open>NoFuel\<close> never
  happens with the fuel \<open>JSON_parse\<close> supplies, as \<open>JSON_parse_fuel\<close> below shows. \<open>JSON_round_trip\<close>
  at the end shows that parsing undoes writing.
\<close>

datatype 'a json_result = Parsed 'a | Syntax | Beyond | NoFuel

definition json_ws :: "char \<Rightarrow> bool" where
  "json_ws c = (char_code c \<in> {9, 10, 13, 32})"

abbreviation skip_ws :: "string \<Rightarrow> string" where
  "skip_ws \<equiv> dropWhile json_ws"

definition hex_value :: "char \<Rightarrow> nat option" where
  "hex_value c =
     (let n = char_code c in
      if 48 \<le> n \<and> n \<le> 57 then Some (n - 48)
      else if 97 \<le> n \<and> n \<le> 102 then Some (n - 87)
      else if 65 \<le> n \<and> n \<le> 70 then Some (n - 55)
      else None)"

definition simple_escape :: "char \<Rightarrow> char option" where
  "simple_escape c =
     (let n = char_code c in
      if n = 34 \<or> n = 92 \<or> n = 47 then Some c
      else if c = CHR ''b'' then Some (chr 8)
      else if c = CHR ''f'' then Some (chr 12)
      else if c = CHR ''n'' then Some (chr 10)
      else if c = CHR ''r'' then Some (chr 13)
      else if c = CHR ''t'' then Some (chr 9)
      else None)"

text \<open>The escape sequence after a backslash.\<close>

definition json_unescape :: "string \<Rightarrow> (char \<times> string) json_result" where
  "json_unescape s =
     (case s of
        [] \<Rightarrow> Syntax
      | e # s1 \<Rightarrow>
          (case simple_escape e of
             Some x \<Rightarrow> Parsed (x, s1)
           | None \<Rightarrow>
               if e \<noteq> CHR ''u'' then Syntax
               else
                 (case s1 of
                    a # b # h # l # s2 \<Rightarrow>
                      (case (hex_value a, hex_value b, hex_value h, hex_value l) of
                         (Some va, Some vb, Some vh, Some vl) \<Rightarrow>
                           if va \<noteq> 0 \<or> vb \<noteq> 0 then Beyond else Parsed (chr (16 * vh + vl), s2)
                       | _ \<Rightarrow> Syntax)
                  | _ \<Rightarrow> Syntax)))"

lemma json_unescape_shape:
  "json_unescape s = Parsed (x, r) \<Longrightarrow> length r < length s" "json_unescape s \<noteq> NoFuel"
  by (auto simp: json_unescape_def split: list.splits option.splits if_splits)

text \<open>\<open>jbind\<close> passes the value and the rest of the text on and keeps every failure.\<close>

fun jbind :: "'a json_result \<Rightarrow> ('a \<Rightarrow> 'b json_result) \<Rightarrow> 'b json_result" where
  "jbind (Parsed a) f = f a"
| "jbind Syntax f = Syntax"
| "jbind Beyond f = Beyond"
| "jbind NoFuel f = NoFuel"

lemma jbind_Parsed_iff: "jbind m f = Parsed b \<longleftrightarrow> (\<exists>a. m = Parsed a \<and> f a = Parsed b)"
  by (cases m) auto

lemma jbind_NoFuel_iff: "jbind m f = NoFuel \<longleftrightarrow> m = NoFuel \<or> (\<exists>a. m = Parsed a \<and> f a = NoFuel)"
  by (cases m) auto

function json_chars :: "string \<Rightarrow> (string \<times> string) json_result" where
  "json_chars [] = Syntax"
| "json_chars (c # s) =
     (if c = quote then Parsed ([], s)
      else if char_code c < 32 then Syntax
      else if char_code c \<noteq> 92 then jbind (json_chars s) (\<lambda>(t, r). Parsed (c # t, r))
      else
        (case json_unescape s of
           Parsed (x, s1) \<Rightarrow> jbind (json_chars s1) (\<lambda>(t, r). Parsed (x # t, r))
         | Syntax \<Rightarrow> Syntax
         | Beyond \<Rightarrow> Beyond
         | NoFuel \<Rightarrow> NoFuel))"
  by pat_completeness auto
termination
  by (relation "measure length") (auto dest!: json_unescape_shape(1))

definition json_digits :: "string \<Rightarrow> (nat \<times> string) json_result" where
  "json_digits s =
     (case s of
        [] \<Rightarrow> Syntax
      | c # r \<Rightarrow>
          if \<not> is_digit c then Syntax
          else
            (let rest = (if c = CHR ''0'' then r else dropWhile is_digit s);
                 n = (if c = CHR ''0'' then 0 else read_digits 0 s)
             in case rest of
                  d # _ \<Rightarrow> if d = CHR ''.'' \<or> d = CHR ''e'' \<or> d = CHR ''E'' then Beyond else Parsed (n, rest)
                | [] \<Rightarrow> Parsed (n, rest)))"

definition json_number :: "string \<Rightarrow> (jsval \<times> string) json_result" where
  "json_number s =
     (case s of
        c # r \<Rightarrow>
          if c = CHR ''-'' then
            (case json_digits r of Parsed (n, t) \<Rightarrow> Parsed (JNum (- int n), t) | Syntax \<Rightarrow> Syntax
               | Beyond \<Rightarrow> Beyond | NoFuel \<Rightarrow> NoFuel)
          else
            (case json_digits s of Parsed (n, t) \<Rightarrow> Parsed (JNum (int n), t) | Syntax \<Rightarrow> Syntax
               | Beyond \<Rightarrow> Beyond | NoFuel \<Rightarrow> NoFuel)
      | [] \<Rightarrow> Syntax)"

fun json_value :: "nat \<Rightarrow> string \<Rightarrow> (jsval \<times> string) json_result"
  and json_elems :: "nat \<Rightarrow> string \<Rightarrow> (jsval list \<times> string) json_result"
  and json_members :: "nat \<Rightarrow> obj \<Rightarrow> string \<Rightarrow> (obj \<times> string) json_result" where
  "json_value 0 s = NoFuel"
| "json_value (Suc f) s =
     (case s of
        [] \<Rightarrow> Syntax
      | c # r \<Rightarrow>
          if c = quote then jbind (json_chars r) (\<lambda>(t, u). Parsed (JStr t, u))
          else if c = CHR ''['' then
            (case skip_ws r of
               d # u \<Rightarrow> if d = CHR '']'' then Parsed (JArr [], u)
                       else jbind (json_elems f (d # u)) (\<lambda>(xs, u). Parsed (JArr xs, u))
             | [] \<Rightarrow> Syntax)
          else if c = CHR ''{'' then
            (case skip_ws r of
               d # u \<Rightarrow> if d = CHR ''}'' then Parsed (JObj [], u)
                       else jbind (json_members f [] (d # u)) (\<lambda>(o', u). Parsed (JObj o', u))
             | [] \<Rightarrow> Syntax)
          else if startsWith s ''null'' then Parsed (JNull, drop 4 s)
          else if startsWith s ''true'' then Parsed (JBool True, drop 4 s)
          else if startsWith s ''false'' then Parsed (JBool False, drop 5 s)
          else json_number s)"
| "json_elems 0 s = NoFuel"
| "json_elems (Suc f) s =
     jbind (json_value f s) (\<lambda>(v, r).
       case skip_ws r of
         d # u \<Rightarrow> if d = CHR '']'' then Parsed ([v], u)
                 else if d = comma then jbind (json_elems f (skip_ws u)) (\<lambda>(vs, w). Parsed (v # vs, w))
                 else Syntax
       | [] \<Rightarrow> Syntax)"
| "json_members 0 o' s = NoFuel"
| "json_members (Suc f) o' s =
     (case s of
        q # r \<Rightarrow>
          if q \<noteq> quote then Syntax
          else jbind (json_chars r) (\<lambda>(k, u).
            case skip_ws u of
              d # w \<Rightarrow>
                if d \<noteq> CHR '':'' then Syntax
                else jbind (json_value f (skip_ws w)) (\<lambda>(v, x).
                  case skip_ws x of
                    e # y \<Rightarrow> if e = CHR ''}'' then Parsed (put o' k v, y)
                            else if e = comma then json_members f (put o' k v) (skip_ws y)
                            else Syntax
                  | [] \<Rightarrow> Syntax)
            | [] \<Rightarrow> Syntax)
      | [] \<Rightarrow> Syntax)"

definition JSON_parse :: "string \<Rightarrow> jsval json_result" where
  "JSON_parse s =
     jbind (json_value (2 * length s + 1) (skip_ws s))
       (\<lambda>(v, r). if skip_ws r = [] then Parsed v else Syntax)"

subsection \<open>The fuel is enough\<close>

lemma skip_ws_length: "length (skip_ws s) \<le> length s"
  by (rule length_dropWhile_le)

lemma skip_ws_Cons_length: "skip_ws s = d # u \<Longrightarrow> length u < length s"
  using skip_ws_length [of s] by simp

lemma json_chars_shape:
  "json_chars s \<noteq> NoFuel" "json_chars s = Parsed (t, r) \<Longrightarrow> length r < length s"
proof (induction s arbitrary: t r rule: json_chars.induct)
  case (2 c s)
  { case 1
    then show ?case using 2(1,3) json_unescape_shape(2) [of s]
      by (auto simp: jbind_NoFuel_iff split: json_result.splits)
  next
    case 2
    show ?case
    proof (cases "char_code c = 92")
      case True
      then show ?thesis using "2" "2.IH"(4) json_unescape_shape(1) [of s]
        by (fastforce simp: jbind_Parsed_iff split: json_result.splits if_splits)
    next
      case False
      then show ?thesis using "2" "2.IH"(2)
        by (fastforce simp: jbind_Parsed_iff split: if_splits)
    qed
  }
qed simp_all

lemmas dropWhile_shorter = length_dropWhile_le [THEN le_imp_less_Suc]

text \<open>A parser result is good for a text if it is not out of fuel and leaves less text over.\<close>

definition good :: "('a \<times> string) json_result \<Rightarrow> string \<Rightarrow> bool" where
  "good m s = (m \<noteq> NoFuel \<and> (\<forall>a r. m = Parsed (a, r) \<longrightarrow> length r < length s))"

lemma good_simps [simp]:
  "good Syntax s" "good Beyond s" "good (Parsed (a, r)) s \<longleftrightarrow> length r < length s"
  by (auto simp: good_def)

lemma good_if: "good x s \<Longrightarrow> good y s \<Longrightarrow> good (if b then x else y) s"
  by simp

lemma good_bind:
  assumes "good m t" and "\<And>a r. length r < length t \<Longrightarrow> good (f (a, r)) s"
  shows "good (jbind m f) s"
  using assms by (cases m) (auto simp: good_def)

lemma good_chars: "good (json_chars s) s"
  using json_chars_shape [of s] by (auto simp: good_def)

lemma good_number: "good (json_number s) s"
proof -
  have d: "good (json_digits s) s" for s
    by (auto simp: good_def json_digits_def Let_def dropWhile_shorter split: list.splits if_splits)
  show ?thesis using d [of s] d [of "tl s"]
    by (auto simp: json_number_def good_def split: list.splits json_result.splits)
qed

lemma good_after_ws:
  assumes "\<And>d u. skip_ws r = d # u \<Longrightarrow> length u < length r \<Longrightarrow> good (f d u) s"
  shows "good (case skip_ws r of d # u \<Rightarrow> f d u | [] \<Rightarrow> Syntax) s"
proof (cases "skip_ws r")
  case Nil
  then show ?thesis by (simp only: list.case good_simps)
next
  case (Cons d u)
  then show ?thesis using assms [OF Cons skip_ws_Cons_length [OF Cons]] by simp
qed

lemma good_keywords:
  "s \<noteq> [] \<Longrightarrow> good (if startsWith s ''null'' then Parsed (JNull, drop 4 s)
          else if startsWith s ''true'' then Parsed (JBool True, drop 4 s)
          else if startsWith s ''false'' then Parsed (JBool False, drop 5 s)
          else json_number s) s"
  by (simp add: good_number)

lemma good_array:
  assumes "\<And>d u. length u < length r \<Longrightarrow> good (json_elems f (d # u)) (d # u)"
  shows "good (case skip_ws r of
               d # u \<Rightarrow> if d = CHR '']'' then Parsed (JArr [], u)
                       else jbind (json_elems f (d # u)) (\<lambda>(xs, u). Parsed (JArr xs, u))
             | [] \<Rightarrow> Syntax) (c # r)"
  by (rule good_after_ws) (auto intro!: good_bind [OF assms])

lemma good_object:
  assumes "\<And>d u. length u < length r \<Longrightarrow> good (json_members f [] (d # u)) (d # u)"
  shows "good (case skip_ws r of
               d # u \<Rightarrow> if d = CHR ''}'' then Parsed (JObj [], u)
                       else jbind (json_members f [] (d # u)) (\<lambda>(o', u). Parsed (JObj o', u))
             | [] \<Rightarrow> Syntax) (c # r)"
  by (rule good_after_ws) (auto intro!: good_bind [OF assms])

lemma json_fuel:
  "(\<forall>s. 2 * length s < f \<longrightarrow> good (json_value f s) s)
   \<and> (\<forall>t. 2 * length t + 1 < f \<longrightarrow> good (json_elems f t) t)
   \<and> (\<forall>o' u. 2 * length u + 1 < f \<longrightarrow> good (json_members f o' u) u)"
proof (induction f)
  case (Suc f)
  have V: "good (json_value f s) s" if "2 * length s < f" for s using Suc that by blast
  have E: "good (json_elems f s) s" if "2 * length s + 1 < f" for s using Suc that by blast
  have M: "good (json_members f o' s) s" if "2 * length s + 1 < f" for o' s using Suc that by blast
  have "good (json_value (Suc f) s) s" if len: "2 * length s < Suc f" for s
  proof (cases s)
    case (Cons c r)
    have str: "good (jbind (json_chars r) (\<lambda>(t, u). Parsed (JStr t, u))) (c # r)"
      by (rule good_bind [OF good_chars]) simp
    have "good (json_elems f (d # u)) (d # u)" "good (json_members f [] (d # u)) (d # u)"
      if "length u < length r" for d u
      using that len Cons by (auto intro!: E M)
    note arr = good_array [of r f, OF this(1)] and obj = good_object [of r f, OF this(2)]
    show ?thesis unfolding Cons json_value.simps list.case
      by (rule good_if, rule str, rule good_if, rule arr, assumption, rule good_if, rule obj, assumption,
          rule good_keywords, simp)
  qed simp
  moreover have "good (json_elems (Suc f) s) s" if len: "2 * length s + 1 < Suc f" for s
    unfolding json_elems.simps
  proof (rule good_bind [OF V], goal_cases)
    case (2 v r)
    show ?case unfolding prod.case
    proof (rule good_after_ws, goal_cases)
      case (1 d u)
      have "good (jbind (json_elems f (skip_ws u)) (\<lambda>(vs, w). Parsed (v # vs, w))) s"
        using 1 2 len skip_ws_length [of u] by (intro good_bind [OF E]) auto
      then show ?case using 1 2 by simp
    qed
  qed (use len in simp)
  moreover have "good (json_members (Suc f) o' s) s" if len: "2 * length s + 1 < Suc f" for o' s
  proof (cases s)
    case (Cons q r)
    have "good (jbind (json_chars r) (\<lambda>(k, u).
            case skip_ws u of
              d # w \<Rightarrow>
                if d \<noteq> CHR '':'' then Syntax
                else jbind (json_value f (skip_ws w)) (\<lambda>(v, x).
                  case skip_ws x of
                    e # y \<Rightarrow> if e = CHR ''}'' then Parsed (put o' k v, y)
                            else if e = comma then json_members f (put o' k v) (skip_ws y)
                            else Syntax
                  | [] \<Rightarrow> Syntax)
            | [] \<Rightarrow> Syntax)) s"
    proof (rule good_bind [OF good_chars], unfold prod.case, rule good_after_ws, goal_cases)
      case (1 k u d w)
      have lw: "length (skip_ws w) < length s" using 1 Cons skip_ws_length [of w] by simp
      have "good (jbind (json_value f (skip_ws w)) (\<lambda>(v, x).
          case skip_ws x of
            e # y \<Rightarrow> if e = CHR ''}'' then Parsed (put o' k v, y)
                    else if e = comma then json_members f (put o' k v) (skip_ws y) else Syntax
          | [] \<Rightarrow> Syntax)) s"
      proof (rule good_bind [OF V], goal_cases)
        case (2 v x)
        show ?case unfolding prod.case
        proof (rule good_after_ws, goal_cases)
          case (1 e y)
          have ly: "length (skip_ws y) < length s" using 1 2 lw skip_ws_length [of y] by simp
          have "good (json_members f (put o' k v) (skip_ws y)) s"
            using M [of "skip_ws y" "put o' k v"] ly len by (auto simp: good_def)
          then show ?case using 1 2 lw by simp
        qed
      qed (use lw len in simp)
      then show ?case by simp
    qed
    then show ?thesis using Cons by (cases "q = quote") simp_all
  qed simp
  ultimately show ?case by blast
qed simp

lemma JSON_parse_fuel: "JSON_parse s \<noteq> NoFuel"
proof -
  have "good (json_value (2 * length s + 1) (skip_ws s)) (skip_ws s)"
    using json_fuel [of "2 * length s + 1"] skip_ws_length [of s] by simp
  then show ?thesis by (auto simp: JSON_parse_def good_def jbind_NoFuel_iff)
qed

subsection \<open>Parsing what was written\<close>

text \<open>A value that JSON can carry: no \<open>undefined\<close> inside, and the keys of every object distinct.\<close>

fun json_ok :: "jsval \<Rightarrow> bool" where
  "json_ok JUndef = False"
| "json_ok (JArr xs) = list_all json_ok xs"
| "json_ok (JObj o') = (distinct (map fst o') \<and> list_all (\<lambda>p. json_ok (snd p)) o')"
| "json_ok v = True"

text \<open>The number of parser calls a value takes.\<close>

fun json_steps :: "jsval \<Rightarrow> nat" where
  "json_steps (JArr xs) = Suc (sum_list (map (\<lambda>x. Suc (json_steps x)) xs))"
| "json_steps (JObj o') = Suc (sum_list (map (\<lambda>p. Suc (json_steps (snd p))) o'))"
| "json_steps v = 1"

text \<open>What may follow a number: no digit, point or exponent.\<close>

definition stops :: "string \<Rightarrow> bool" where
  "stops r = (case r of [] \<Rightarrow> True | c # _ \<Rightarrow> \<not> is_digit c \<and> c \<noteq> CHR ''.'' \<and> c \<noteq> CHR ''e'' \<and> c \<noteq> CHR ''E'')"

lemma stops_simps [simp]:
  "stops []" "stops (CHR '','' # r)" "stops (comma # r)" "stops (CHR '']'' # r)" "stops (CHR ''}'' # r)"
  by (simp_all add: comma_def stops_def is_digit_def char_code_def)

lemma char_of_code: "chr (char_code c) = c"
  by (simp add: chr_def char_code_def)

lemma code_lt: "char_code c < 256"
  by (simp add: char_code_def)

lemma hex_value_digit: "n < 16 \<Longrightarrow> hex_value (hex_digit n) = Some n"
  by (simp add: hex_value_def hex_digit_def char_code_def chr_def Let_def)

lemma code_eq_iff: "char_code c = char_code d \<longleftrightarrow> c = d"
  by (simp add: char_code_def)

lemma chr_code: "n < 256 \<Longrightarrow> char_code (chr n) = n"
  by (simp add: char_code_def chr_def)

lemma unescape_short:
  "json_unescape (chr 34 # t) = Parsed (chr 34, t)" "json_unescape (chr 92 # t) = Parsed (chr 92, t)"
  "json_unescape (CHR ''b'' # t) = Parsed (chr 8, t)" "json_unescape (CHR ''f'' # t) = Parsed (chr 12, t)"
  "json_unescape (CHR ''n'' # t) = Parsed (chr 10, t)" "json_unescape (CHR ''r'' # t) = Parsed (chr 13, t)"
  "json_unescape (CHR ''t'' # t) = Parsed (chr 9, t)"
  by (simp_all add: json_unescape_def simple_escape_def char_code_def chr_def Let_def)

lemma unescape_control:
  assumes "n < 32"
  shows "json_unescape (CHR ''u'' # CHR ''0'' # CHR ''0'' # hex_digit (n div 16) # hex_digit (n mod 16) # t) = Parsed (chr n, t)"
proof -
  have "hex_value (CHR ''0'') = Some 0" "simple_escape (CHR ''u'') = None"
    by (simp_all add: hex_value_def simple_escape_def char_code_def Let_def)
  moreover have "hex_value (hex_digit (n div 16)) = Some (n div 16)" "hex_value (hex_digit (n mod 16)) = Some (n mod 16)"
    using assms by (simp_all add: hex_value_digit)
  ultimately show ?thesis by (simp add: json_unescape_def)
qed

lemma json_chars_backslash:
  "json_unescape s = Parsed (x, t) \<Longrightarrow>
   json_chars (chr 92 # s) = jbind (json_chars t) (\<lambda>(u, r). Parsed (x # u, r))"
proof -
  have "chr 92 \<noteq> quote" by code_simp
  moreover have "char_code (chr 92) = 92" by (simp add: chr_code)
  ultimately show "json_unescape s = Parsed (x, t) \<Longrightarrow> ?thesis" by simp
qed

lemma json_chars_escape:
  "json_chars (json_escape c @ t) = jbind (json_chars t) (\<lambda>(u, r). Parsed (c # u, r))"
proof -
  have c: "c = chr (char_code c)" by (simp add: char_of_code)
  consider (short) "char_code c \<in> {34, 92, 8, 12, 10, 13, 9}"
    | (control) "char_code c \<notin> {34, 92, 8, 12, 10, 13, 9}" "char_code c < 32"
    | (plain) "char_code c \<notin> {34, 92}" "32 \<le> char_code c" by fastforce
  then show ?thesis
  proof cases
    case short
    then show ?thesis
      by (subst (2) c) (auto simp: json_escape_def Let_def json_chars_backslash unescape_short simp del: json_chars.simps)
  next
    case control
    then have "json_escape c = [chr 92, CHR ''u'', CHR ''0'', CHR ''0'', hex_digit (char_code c div 16), hex_digit (char_code c mod 16)]"
      by (simp add: json_escape_def Let_def)
    then show ?thesis
      using json_chars_backslash [OF unescape_control [OF control(2)]]
      by (simp add: char_of_code del: json_chars.simps)
  next
    case plain
    have q: "c \<noteq> quote" using plain by (auto simp: quote_def char_code_def)
    have "json_escape c = [c]" using plain by (simp add: json_escape_def Let_def)
    then show ?thesis using plain q by simp
  qed
qed

lemma json_chars_string: "json_chars (concat (map json_escape s) @ quote # r) = Parsed (s, r)"
  by (induction s) (simp_all add: json_chars_escape)

lemma show_nat_head: "n \<noteq> 0 \<Longrightarrow> show_nat n = c # t \<Longrightarrow> c \<noteq> CHR ''0''"
proof (induction n arbitrary: t rule: show_nat.induct)
  case (1 n)
  show ?case
  proof (cases "n < 10")
    case True
    then have "char_code c = 48 + n" using 1(3) code_digit [of n] by (subst (asm) show_nat.simps) simp
    then show ?thesis using 1(2) by (auto simp: char_code_def)
  next
    case False
    then have "show_nat n = show_nat (n div 10) @ [digit (n mod 10)]" by (subst show_nat.simps) simp
    moreover obtain c' t' where "show_nat (n div 10) = c' # t'" by (cases "show_nat (n div 10)") auto
    ultimately show ?thesis using 1 False by auto
  qed
qed

lemma read_digits_stop:
  "\<forall>x \<in> set s. is_digit x \<Longrightarrow> r = [] \<or> \<not> is_digit (hd r) \<Longrightarrow> read_digits a (s @ r) = read_digits a s"
proof (induction s arbitrary: a)
  case Nil
  then show ?case by (cases r) auto
qed simp

lemma json_digits_show:
  assumes "stops r"
  shows "json_digits (show_nat n @ r) = Parsed (n, r)"
proof (cases "n = 0")
  case True
  have z: "show_nat 0 = ''0''" by code_simp
  show ?thesis using assms True
    by (cases r) (simp_all add: z json_digits_def Let_def is_digit_def char_code_def stops_def)
next
  case False
  obtain c t where ct: "show_nat n = c # t" by (cases "show_nat n") auto
  have d: "\<forall>x \<in> set (show_nat n). is_digit x" using show_nat_digits by blast
  have nz: "c \<noteq> CHR ''0''" using show_nat_head [OF False ct] .
  have dw: "dropWhile is_digit (show_nat n @ r) = r"
    using d assms by (cases r) (simp_all add: dropWhile_append stops_def)
  have rd: "read_digits 0 (show_nat n @ r) = n"
    using assms read_digits_stop [of "show_nat n" r 0] d read_show_nat [of n] by (auto simp: stops_def split: list.splits)
  show ?thesis using assms d dw rd nz ct
    by (cases r) (simp_all add: json_digits_def Let_def stops_def dropWhile_all)
qed

lemma json_number_show:
  assumes "stops r"
  shows "json_number (show_int i @ r) = Parsed (JNum i, r)"
proof (cases "i < 0")
  case True
  then show ?thesis using json_digits_show [OF assms, of "nat (- i)"] by (simp add: json_number_def show_int_def)
next
  case False
  obtain c t where ct: "show_nat (nat i) = c # t" by (cases "show_nat (nat i)") auto
  then have "is_digit c" using show_nat_digits [of c "nat i"] by simp
  then have "c \<noteq> CHR ''-''" using digit_not_sign by blast
  then show ?thesis using False ct json_digits_show [OF assms, of "nat i"] by (simp add: json_number_def show_int_def)
qed

text \<open>How the text of a value begins.\<close>

definition plain_start :: "string \<Rightarrow> bool" where
  "plain_start s = (case s of [] \<Rightarrow> False | c # _ \<Rightarrow> \<not> json_ws c \<and> c \<noteq> CHR '']'' \<and> c \<noteq> CHR ''}'')"

lemma number_start:
  obtains c t where "show_int i = c # t" "c = CHR ''-'' \<or> is_digit c"
proof (cases "i < 0")
  case True
  then show thesis by (intro that) (auto simp: show_int_def)
next
  case False
  obtain c t where ct: "show_nat (nat i) = c # t" by (cases "show_nat (nat i)") auto
  then have "is_digit c" using show_nat_digits [of c "nat i"] by simp
  then show thesis using False ct by (intro that) (auto simp: show_int_def)
qed

lemma plain_start_text: "v \<noteq> JUndef \<Longrightarrow> plain_start (json_text v @ r)"
proof -
  assume "v \<noteq> JUndef"
  have q: "\<not> json_ws quote" "quote \<noteq> CHR '']''" "quote \<noteq> CHR ''}''"
    by (simp_all add: json_ws_def quote_def char_code_def)
  show ?thesis
  proof (cases v)
    case (JNum i)
    obtain c t where "show_int i = c # t" "c = CHR ''-'' \<or> is_digit c" by (rule number_start)
    then show ?thesis using JNum by (auto simp: plain_start_def json_ws_def is_digit_def char_code_def)
  qed (auto simp: plain_start_def json_string_def q, auto simp: json_ws_def char_code_def)
qed

lemma skip_plain: "plain_start s \<Longrightarrow> skip_ws s = s"
  by (auto simp: plain_start_def split: list.splits)

lemma json_value_number:
  assumes "stops r"
  shows "json_value (Suc f) (show_int i @ r) = Parsed (JNum i, r)"
proof -
  obtain c t where ct: "show_int i = c # t" "c = CHR ''-'' \<or> is_digit c" by (rule number_start)
  have k: "c \<noteq> quote" "c \<noteq> CHR ''[''" "c \<noteq> CHR ''{''" "c \<noteq> CHR ''n''" "c \<noteq> CHR ''t''" "c \<noteq> CHR ''f''"
    using ct(2) by (auto simp: is_digit_def char_code_def quote_def)
  show ?thesis using json_number_show [OF assms, of i] k ct(1) by (simp add: startsWith_def)
qed

lemma json_value_atoms:
  "json_value (Suc f) (''null'' @ r) = Parsed (JNull, r)"
  "json_value (Suc f) (''true'' @ r) = Parsed (JBool True, r)"
  "json_value (Suc f) (''false'' @ r) = Parsed (JBool False, r)"
  by (simp_all add: startsWith_def quote_def)

lemma json_value_string: "json_value (Suc f) (json_string s @ r) = Parsed (JStr s, r)"
  by (simp add: json_string_def json_chars_string)


lemma put_new: "k \<notin> fst ` set o' \<Longrightarrow> put o' k v = o' @ [(k, v)]"
  by (induction o') auto

text \<open>The elements of an array and the members of an object, given the values inside.\<close>

definition parses :: "jsval \<Rightarrow> bool" where
  "parses v = (\<forall>f r. json_steps v \<le> f \<longrightarrow> stops r \<longrightarrow> json_value f (json_text v @ r) = Parsed (v, r))"

lemma elems_text:
  assumes "xs \<noteq> []" "list_all (\<lambda>v. parses v \<and> v \<noteq> JUndef) xs" "sum_list (map (\<lambda>x. Suc (json_steps x)) xs) \<le> f"
  shows "json_elems f (join '','' (map json_text xs) @ '']'' @ r) = Parsed (xs, r)"
  using assms
proof (induction xs arbitrary: f)
  case (Cons v vs)
  then obtain g where g: "f = Suc g" "json_steps v \<le> g" by (cases f) auto
  have w: "\<not> json_ws (CHR '']'')" "\<not> json_ws comma" "CHR '','' = comma" "comma \<noteq> CHR '']''"
    by (simp_all add: json_ws_def char_code_def comma_def)
  have p: "json_value g (json_text v @ t) = Parsed (v, t)" if "stops t" for t
    using Cons.prems(2) g(2) that by (simp add: parses_def)
  show ?case
  proof (cases vs)
    case Nil
    then show ?thesis using p [of "'']'' @ r"] w by (simp add: g)
  next
    case (Cons v' vs')
    have "sum_list (map (\<lambda>x. Suc (json_steps x)) vs) \<le> g" using Cons.prems(3) g by simp
    then have "json_elems g (join '','' (map json_text vs) @ '']'' @ r) = Parsed (vs, r)"
      using Cons.IH Cons.prems(2) \<open>vs = v' # vs'\<close> by simp
    moreover have "plain_start (join '','' (map json_text vs) @ '']'' @ r)"
      using Cons.prems(2) \<open>vs = v' # vs'\<close> plain_start_text by (cases vs') auto
    ultimately show ?thesis
      using p [of "'','' @ join '','' (map json_text vs) @ '']'' @ r"] w \<open>vs = v' # vs'\<close>
      by (simp add: g skip_plain)
  qed
qed simp

definition member_text :: "string \<times> jsval \<Rightarrow> string" where
  "member_text p = json_string (fst p) @ '':'' @ json_text (snd p)"

lemma members_text:
  assumes "ps \<noteq> []" "list_all (\<lambda>p. parses (snd p) \<and> snd p \<noteq> JUndef) ps"
    and "sum_list (map (\<lambda>p. Suc (json_steps (snd p))) ps) \<le> f" "distinct (map fst (o' @ ps))"
  shows "json_members f o' (join '','' (map member_text ps) @ ''}'' @ r) = Parsed (o' @ ps, r)"
  using assms
proof (induction ps arbitrary: f o')
  case (Cons p ps)
  obtain k v where kv: "p = (k, v)" by (cases p)
  obtain g where g: "f = Suc g" "json_steps v \<le> g" using Cons.prems(3) kv by (cases f) auto
  have w: "\<not> json_ws (CHR ''}'')" "\<not> json_ws (CHR '':'')" "\<not> json_ws comma" "CHR '','' = comma" "comma \<noteq> CHR ''}''"
    by (simp_all add: json_ws_def char_code_def comma_def)
  have pv: "json_value g (json_text v @ t) = Parsed (v, t)" if "stops t" for t
    using Cons.prems(2) g(2) that kv by (simp add: parses_def)
  have st: "skip_ws (json_text v @ t) = json_text v @ t" for t
    using Cons.prems(2) kv by (intro skip_plain plain_start_text) simp
  have pt: "put o' k v = o' @ [(k, v)]" using Cons.prems(4) kv by (intro put_new) force
  have sk: "json_chars (concat (map json_escape k) @ quote # t) = Parsed (k, t)" for t
    by (rule json_chars_string)
  have mt: "member_text (k, v) @ t = quote # concat (map json_escape k) @ quote # CHR '':'' # json_text v @ t" for t
    by (simp add: member_text_def json_string_def)
  show ?case
  proof (cases ps)
    case Nil
    then show ?thesis using pv [of "''}'' @ r"] w st sk by (simp add: g kv mt pt)
  next
    case (Cons p' ps')
    let ?rest = "join '','' (map member_text ps) @ ''}'' @ r"
    have "sum_list (map (\<lambda>p. Suc (json_steps (snd p))) ps) \<le> g" using Cons.prems(3) g by simp
    moreover have "distinct (map fst ((o' @ [(k, v)]) @ ps))" using Cons.prems(4) kv by auto
    ultimately have ih: "json_members g (o' @ [(k, v)]) ?rest = Parsed (o' @ p # ps, r)"
      using Cons.IH [of g "o' @ [(k, v)]"] Cons.prems(2) \<open>ps = p' # ps'\<close> kv by simp
    have "skip_ws ?rest = ?rest"
      using \<open>ps = p' # ps'\<close> by (cases ps') (simp_all add: member_text_def json_string_def json_ws_def quote_def char_code_def)
    then show ?thesis
      using pv [of "comma # ?rest"] w st sk ih \<open>ps = p' # ps'\<close>
      by (simp add: g kv mt pt)
  qed
qed simp

lemma parsesI:
  "(\<And>f r. stops r \<Longrightarrow> json_value (Suc f) (json_text v @ r) = Parsed (v, r)) \<Longrightarrow> json_steps v = Suc n \<Longrightarrow> parses v"
  unfolding parses_def by (metis Suc_le_D)

lemma json_text_parses: "json_ok v \<Longrightarrow> parses v"
proof (induction v)
  case (JArr xs)
  show ?case unfolding parses_def
  proof (intro allI impI)
    fix f r assume f: "json_steps (JArr xs) \<le> f" and st: "stops r"
    then obtain g where g: "f = Suc g" "sum_list (map (\<lambda>x. Suc (json_steps x)) xs) \<le> g" by (cases f) auto
    have q: "CHR ''['' \<noteq> quote" "\<not> json_ws (CHR '']'')" by (simp_all add: quote_def json_ws_def char_code_def)
    show "json_value f (json_text (JArr xs) @ r) = Parsed (JArr xs, r)"
    proof (cases "xs = []")
      case True
      then show ?thesis using q by (simp add: g)
    next
      case False
      have ok: "list_all (\<lambda>v. parses v \<and> v \<noteq> JUndef) xs" using JArr by (auto simp: list_all_iff)
      have e: "json_elems g (join '','' (map json_text xs) @ '']'' @ r) = Parsed (xs, r)"
        by (rule elems_text [OF False ok g(2)])
      have "plain_start (join '','' (map json_text xs) @ '']'' @ r)"
        using False ok plain_start_text by (cases xs; cases "tl xs") auto
      then obtain d u where d: "join '','' (map json_text xs) @ '']'' @ r = d # u" "d \<noteq> CHR '']''" "\<not> json_ws d"
        by (auto simp: plain_start_def split: list.splits)
      then show ?thesis using e q by (simp add: g)
    qed
  qed
next
  case (JObj o')
  show ?case unfolding parses_def
  proof (intro allI impI)
    fix f r assume f: "json_steps (JObj o') \<le> f" and st: "stops r"
    then obtain g where g: "f = Suc g" "sum_list (map (\<lambda>p. Suc (json_steps (snd p))) o') \<le> g" by (cases f) auto
    have q: "CHR ''{'' \<noteq> quote" "\<not> json_ws (CHR ''}'')" "CHR ''{'' \<noteq> CHR ''[''"
      by (simp_all add: quote_def json_ws_def char_code_def)
    have ok: "list_all (\<lambda>p. parses (snd p) \<and> snd p \<noteq> JUndef) o'" using JObj by (auto simp: list_all_iff)
    then have fl: "filter (\<lambda>p. snd p \<noteq> JUndef) o' = o'" by (auto simp: list_all_iff)
    have tx: "json_text (JObj o') = ''{'' @ join '','' (map member_text o') @ ''}''"
      by (simp only: json_text.simps fl member_text_def [abs_def])
    show "json_value f (json_text (JObj o') @ r) = Parsed (JObj o', r)"
    proof (cases "o' = []")
      case True
      then show ?thesis using q by (simp add: g)
    next
      case False
      have e: "json_members g [] (join '','' (map member_text o') @ ''}'' @ r) = Parsed (o', r)"
        using members_text [OF False ok g(2), of "[]" r] JObj.prems by simp
      obtain u where "join '','' (map member_text o') @ ''}'' @ r = quote # u"
        using False by (cases o'; cases "tl o'") (auto simp: member_text_def json_string_def)
      moreover have "\<not> json_ws quote" "quote \<noteq> CHR ''}''" by (simp_all add: quote_def json_ws_def char_code_def)
      ultimately show ?thesis using e q unfolding tx by (simp add: g)
    qed
  qed
next
  case JNull
  show ?case by (rule parsesI) (simp_all only: json_text.simps json_value_atoms json_steps.simps One_nat_def)
next
  case (JBool b)
  show ?case
    by (rule parsesI, cases b) (simp_all only: json_text.simps json_value_atoms json_steps.simps One_nat_def if_True if_False)
next
  case (JNum i)
  show ?case by (rule parsesI) (simp_all only: json_text.simps json_value_number json_steps.simps One_nat_def)
next
  case (JStr s)
  show ?case by (rule parsesI) (simp_all only: json_text.simps json_value_string json_steps.simps One_nat_def)
qed simp

lemma join_length: "sum_list (map length ws) + length ws \<le> Suc (length (join '','' ws))"
  by (induction "'',''" ws rule: join.induct) auto

lemma json_steps_length: "json_ok v \<Longrightarrow> json_steps v \<le> length (json_text v)"
proof (induction v)
  case (JArr xs)
  then have "\<forall>x \<in> set xs. json_steps x \<le> length (json_text x)" by (auto simp: list_all_iff)
  then have "sum_list (map (\<lambda>x. Suc (json_steps x)) xs) \<le> sum_list (map (\<lambda>x. Suc (length (json_text x))) xs)"
    by (intro sum_list_mono) auto
  also have "\<dots> = sum_list (map length (map json_text xs)) + length (map json_text xs)"
    by (simp add: sum_list_Suc o_def)
  also have "\<dots> \<le> Suc (length (join '','' (map json_text xs)))" by (rule join_length)
  finally show ?case by simp
next
  case (JObj o')
  have fl: "filter (\<lambda>p. snd p \<noteq> JUndef) o' = o'" using JObj.prems by (auto simp: list_all_iff filter_id_conv)
  have tx: "json_text (JObj o') = ''{'' @ join '','' (map member_text o') @ ''}''"
    by (simp only: json_text.simps fl member_text_def [abs_def])
  have "\<forall>p \<in> set o'. json_steps (snd p) \<le> length (member_text p)"
    using JObj by (fastforce simp: list_all_iff member_text_def)
  then have "sum_list (map (\<lambda>p. Suc (json_steps (snd p))) o') \<le> sum_list (map (\<lambda>p. Suc (length (member_text p))) o')"
    by (intro sum_list_mono) auto
  also have "\<dots> = sum_list (map length (map member_text o')) + length (map member_text o')"
    by (simp add: sum_list_Suc o_def)
  also have "\<dots> \<le> Suc (length (join '','' (map member_text o')))" by (rule join_length)
  finally show ?case unfolding tx by simp
next
  case (JNum i)
  have "show_int i \<noteq> []" by simp
  then show ?case by (cases "show_int i") auto
qed (auto simp: json_string_def)

lemma JSON_round_trip: "json_ok v \<Longrightarrow> JSON_parse (json_text v) = Parsed v"
proof -
  assume ok: "json_ok v"
  then have nu: "v \<noteq> JUndef" by auto
  have "skip_ws (json_text v) = json_text v" using skip_plain [OF plain_start_text [OF nu, of "[]"]] by simp
  moreover have "json_steps v \<le> 2 * length (json_text v) + 1" using json_steps_length [OF ok] by simp
  then have "json_value (2 * length (json_text v) + 1) (json_text v @ []) = Parsed (v, [])"
    using json_text_parses [OF ok] stops_simps(1) unfolding parses_def by blast
  ultimately show ?thesis by (simp add: JSON_parse_def del: json_value.simps)
qed

end
