(* ===== verification/JsDouble.thy ===== *)
theory JsDouble
  imports Complex_Main JsString
begin

text \<open>
  Non-negative JavaScript numbers as far as the colour conversions of the tag view use them. The
  pair \<open>(m, s)\<close> stands for the double \<open>m / 2 ^ s\<close> with a mantissa of 53 bits; \<open>dround n d\<close> is the
  double nearest to the fraction \<open>n / d\<close>, ties to even, which is how division, multiplication and
  the reading of a decimal literal round. Exponents are unbounded: neither underflow nor overflow
  can arise from the numbers the sources compute with. \<open>unit_text\<close> is the shortest decimal that
  reads back as the given double below one, as \<open>Number.prototype.toString\<close> prints it.
\<close>

type_synonym dbl = "int \<times> int"

function bitlen :: "int \<Rightarrow> int" where
  "bitlen n = (if n \<le> 0 then 0 else 1 + bitlen (n div 2))"
  by auto
termination by (relation "measure nat") auto

declare bitlen.simps [simp del]

definition round_half_even :: "int \<Rightarrow> int \<Rightarrow> int" where
  "round_half_even a b =
     (let q = a div b; r = a mod b
      in if 2 * r < b then q else if 2 * r > b then q + 1 else if even q then q else q + 1)"

definition scale :: "int \<Rightarrow> int \<Rightarrow> int \<Rightarrow> int \<times> int" where
  "scale n d s = (if 0 \<le> s then (n * 2 ^ nat s, d) else (n, d * 2 ^ nat (- s)))"

definition dround :: "int \<Rightarrow> int \<Rightarrow> dbl" where
  "dround n d =
     (if n = 0 then (0, 0)
      else
        (let s = 53 - (bitlen n - bitlen d);
             (a, b) = scale n d s;
             s = (if a div b < 2 ^ 53 then s else s - 1);
             (a, b) = scale n d s
         in (round_half_even a b, s)))"

definition ddiv :: "int \<Rightarrow> int \<Rightarrow> dbl" where
  "ddiv a b = dround a b"

definition dmul_int :: "dbl \<Rightarrow> int \<Rightarrow> dbl" where
  "dmul_int x k = (case x of (m, s) \<Rightarrow> (case scale 1 1 s of (p, q) \<Rightarrow> dround (m * k * q) p))"

text \<open>\<open>Math.round\<close>: the nearest integer, ties upwards.\<close>

definition dround_int :: "dbl \<Rightarrow> int" where
  "dround_int x = (case x of (m, s) \<Rightarrow> (case scale 1 1 s of (p, q) \<Rightarrow> (2 * m * q + p) div (2 * p)))"

text \<open>\<open>n\<close> decimals \<open>c / 10 ^ n\<close> read back as the double \<open>m / 2 ^ s\<close>: they are within half a unit in the last place.\<close>

definition reads_as :: "dbl \<Rightarrow> int \<Rightarrow> int \<Rightarrow> bool" where
  "reads_as x c p =
     (case x of (m, s) \<Rightarrow>
        (let err = 2 * \<bar>c * 2 ^ nat s - m * p\<bar> in err < p \<or> err = p \<and> even m))"

text \<open>The decimals of a double below one: the shortest that read back, at most \<open>fuel\<close> more than given.\<close>

fun decimals :: "nat \<Rightarrow> dbl \<Rightarrow> nat \<Rightarrow> int \<Rightarrow> (nat \<times> int) option" where
  "decimals 0 x n p = None"
| "decimals (Suc fuel) x n p =
     (let c = (2 * fst x * p + 2 ^ nat (snd x)) div (2 * 2 ^ nat (snd x))
      in if reads_as x c p then Some (n, c) else decimals fuel x (Suc n) (10 * p))"

text \<open>The last \<open>n\<close> decimal digits of \<open>c\<close>, with leading zeros.\<close>

fun fixed_digits :: "nat \<Rightarrow> int \<Rightarrow> string" where
  "fixed_digits 0 c = []"
| "fixed_digits (Suc n) c = fixed_digits n (c div 10) @ [digit (nat (c mod 10))]"

definition unit_text :: "dbl \<Rightarrow> string" where
  "unit_text x =
     (case decimals 25 x 1 10 of None \<Rightarrow> [] | Some (n, c) \<Rightarrow> ''0.'' @ fixed_digits n c)"

text \<open>\<open>parseFloat\<close> of \<open>ip\<close> or \<open>ip.fp\<close>, both runs of digits.\<close>

fun read_dec :: "int \<Rightarrow> string \<Rightarrow> int" where
  "read_dec acc [] = acc"
| "read_dec acc (c # s) = read_dec (10 * acc + int (char_code c - 48)) s"

definition parseDecimal :: "string \<Rightarrow> string \<Rightarrow> dbl" where
  "parseDecimal ip fp = dround (read_dec 0 (ip @ fp)) (10 ^ length fp)"

text \<open>Hexadecimal digits, \<open>toString(16)\<close> and \<open>parseInt(s, 16)\<close>.\<close>

definition hexdigit :: "nat \<Rightarrow> char" where
  "hexdigit n = (if n < 10 then chr (48 + n) else chr (87 + n))"

fun show_hex :: "nat \<Rightarrow> string" where
  "show_hex n = (if n < 16 then [hexdigit n] else show_hex (n div 16) @ [hexdigit (n mod 16)])"

declare show_hex.simps [simp del]

definition hexval :: "char \<Rightarrow> nat" where
  "hexval c =
     (let k = char_code c
      in if 48 \<le> k \<and> k \<le> 57 then k - 48 else if 97 \<le> k \<and> k \<le> 102 then k - 87 else k - 55)"

definition read_hex :: "string \<Rightarrow> nat" where
  "read_hex s = foldl (\<lambda>a c. 16 * a + hexval c) 0 s"

subsection \<open>Bit lengths\<close>

lemma bitlen_nonneg [simp]: "0 \<le> bitlen n"
  by (induction n rule: bitlen.induct) (subst bitlen.simps, simp)

lemma bitlen_pos: "0 < n \<Longrightarrow> 1 \<le> bitlen n"
  by (subst bitlen.simps) simp

lemma bitlen_mono: "a \<le> b \<Longrightarrow> bitlen a \<le> bitlen b"
proof (induction a arbitrary: b rule: bitlen.induct)
  case (1 a)
  show ?case
  proof (cases "a \<le> 0")
    case True
    then show ?thesis by (subst bitlen.simps) simp
  next
    case False
    then have "bitlen (a div 2) \<le> bitlen (b div 2)" using 1 by (simp add: zdiv_mono1)
    then show ?thesis using False 1(2) by (subst (1 2) bitlen.simps) simp
  qed
qed

lemma bitlen_double: "0 < a \<Longrightarrow> bitlen (a * 2) = bitlen a + 1"
  by (subst bitlen.simps) simp

lemma bitlen_shift: "0 < a \<Longrightarrow> bitlen (a * 2 ^ k) = bitlen a + int k"
proof (induction k)
  case (Suc k)
  then show ?case using bitlen_double [of "a * 2 ^ k"] by (simp add: ac_simps)
qed simp

subsection \<open>The rounding error\<close>

lemma round_half_even_error: "0 < b \<Longrightarrow> 2 * \<bar>round_half_even a b * b - a\<bar> \<le> b"
proof -
  assume b: "0 < b"
  define q r where qr: "q = a div b" "r = a mod b"
  have a: "q * b = a - r" unfolding qr by (simp add: minus_mod_eq_div_mult)
  have r: "0 \<le> r" "r < b" using b by (simp_all add: qr)
  have "round_half_even a b = q \<and> 2 * r \<le> b \<or> round_half_even a b = q + 1 \<and> b \<le> 2 * r"
    by (auto simp: round_half_even_def Let_def qr)
  then show ?thesis
  proof
    assume "round_half_even a b = q \<and> 2 * r \<le> b"
    then show ?thesis using a r by simp
  next
    assume h: "round_half_even a b = q + 1 \<and> b \<le> 2 * r"
    have "(q + 1) * b - a = b - r" using a by (simp add: distrib_right)
    then show ?thesis using h r by simp
  qed
qed

lemma dround_error:
  assumes "0 < n" "0 < d" "bitlen n - bitlen d \<le> B" "B \<le> 52" "dround n d = (m, s)"
  shows "52 - B \<le> s" and "s \<le> 53 - (bitlen n - bitlen d)" and "2 * \<bar>m * d - n * 2 ^ nat s\<bar> \<le> d"
proof -
  have s: "s = 53 - (bitlen n - bitlen d) \<or> s = 53 - (bitlen n - bitlen d) - 1"
    and m: "m = round_half_even (fst (scale n d s)) (snd (scale n d s))"
    using assms(1,5) by (auto simp: dround_def Let_def split: prod.splits if_splits)
  from s show b: "52 - B \<le> s" and "s \<le> 53 - (bitlen n - bitlen d)" using assms(3) by auto
  have "0 \<le> s" using b assms(4) by simp
  then have "m = round_half_even (n * 2 ^ nat s) d" using m by (simp add: scale_def)
  then show "2 * \<bar>m * d - n * 2 ^ nat s\<bar> \<le> d" using round_half_even_error [OF assms(2)] by simp
qed

lemma dround_near:
  assumes "0 < n" "0 < d" "bitlen n - bitlen d \<le> B" "B \<le> 52" "dround n d = (m, s)"
  shows "\<bar>of_int m / 2 ^ nat s - of_int n / (of_int d :: real)\<bar> \<le> 1 / 2 ^ nat s / 2"
proof -
  have d: "0 < (of_int d :: real)" using assms(2) by simp
  have "of_int (2 * \<bar>m * d - n * 2 ^ nat s\<bar>) \<le> (of_int d :: real)"
    using dround_error(3) [OF assms] by (simp only: of_int_le_iff)
  then have e: "2 * \<bar>of_int m * of_int d - of_int n * 2 ^ nat s\<bar> \<le> (of_int d :: real)" by simp
  have "of_int m / 2 ^ nat s - of_int n / (of_int d :: real) = (of_int m * of_int d - of_int n * 2 ^ nat s) / (2 ^ nat s * of_int d)"
    using d by (simp add: field_simps)
  then have "\<bar>of_int m / 2 ^ nat s - of_int n / (of_int d :: real)\<bar> = \<bar>of_int m * of_int d - of_int n * 2 ^ nat s\<bar> / (2 ^ nat s * of_int d)"
    using d by (simp add: abs_mult abs_divide)
  also have "\<dots> \<le> (of_int d / 2) / (2 ^ nat s * of_int d)"
    using e d by (intro divide_right_mono) simp_all
  also have "\<dots> = 1 / 2 ^ nat s / 2" using d by simp
  finally show ?thesis .
qed

subsection \<open>The shortest decimal\<close>

lemma decimals_sound:
  "decimals fuel x n p = Some (k, c) \<Longrightarrow> n \<le> k \<and> reads_as x c (p * 10 ^ (k - n))"
proof (induction fuel arbitrary: n p)
  case (Suc fuel)
  let ?c = "(2 * fst x * p + 2 ^ nat (snd x)) div (2 * 2 ^ nat (snd x))"
  show ?case
  proof (cases "reads_as x ?c p")
    case True
    then show ?thesis using Suc.prems by (auto simp: Let_def)
  next
    case False
    then have "decimals fuel x (Suc n) (10 * p) = Some (k, c)" using Suc.prems by (simp add: Let_def)
    from Suc.IH [OF this] have "Suc n \<le> k" "reads_as x c (10 * p * 10 ^ (k - Suc n))" by auto
    moreover have "k - n = Suc (k - Suc n)" using \<open>Suc n \<le> k\<close> by simp
    ultimately show ?thesis by (simp add: ac_simps)
  qed
qed simp

lemma nearest_error:
  "0 < (q :: int) \<Longrightarrow> 2 * \<bar>(2 * a + q) div (2 * q) * q - a\<bar> \<le> q"
proof -
  assume q: "0 < q"
  define t r where tr: "t = (2 * a + q) div (2 * q)" "r = (2 * a + q) mod (2 * q)"
  have "t * (2 * q) = 2 * a + q - r" unfolding tr by (simp add: minus_mod_eq_div_mult)
  then have "2 * (t * q - a) = q - r" by (simp add: algebra_simps)
  moreover have "0 \<le> r" "r < 2 * q" using q by (simp_all add: tr)
  ultimately show ?thesis unfolding tr(1) [symmetric] by linarith
qed

lemma decimals_complete:
  "2 ^ nat s < p * 10 ^ fuel \<Longrightarrow> 0 < p \<Longrightarrow> \<exists>k c. decimals (Suc fuel) (m, s) n p = Some (k, c)"
proof (induction fuel arbitrary: n p)
  case 0
  let ?c = "(2 * (m * p) + 2 ^ nat s) div (2 * 2 ^ nat s) :: int"
  have "2 * \<bar>?c * 2 ^ nat s - m * p\<bar> \<le> 2 ^ nat s" by (rule nearest_error) simp
  also have "\<dots> < p" using 0 by simp
  finally show ?case by (simp add: reads_as_def Let_def mult.assoc)
next
  case (Suc fuel)
  let ?c = "(2 * m * p + 2 ^ nat s) div (2 * 2 ^ nat s)"
  have "2 ^ nat s < 10 * p * 10 ^ fuel" using Suc.prems by (simp add: ac_simps)
  then have "\<exists>k c. decimals (Suc fuel) (m, s) (Suc n) (10 * p) = Some (k, c)"
    using Suc.IH [of "10 * p" "Suc n"] Suc.prems by simp
  then show ?case by (subst decimals.simps) (auto simp only: Let_def fst_conv snd_conv split: if_split)
qed

lemma reads_as_near:
  assumes "reads_as (m, s) c p" "0 < p"
  shows "\<bar>of_int c / of_int p - of_int m / (2 ^ nat s :: real)\<bar> \<le> 1 / 2 ^ nat s / 2"
proof -
  have p: "0 < (of_int p :: real)" using assms(2) by simp
  have "2 * \<bar>c * 2 ^ nat s - m * p\<bar> \<le> p" using assms(1) by (auto simp: reads_as_def Let_def)
  then have "of_int (2 * \<bar>c * 2 ^ nat s - m * p\<bar>) \<le> (of_int p :: real)" by (simp only: of_int_le_iff)
  then have e: "2 * \<bar>of_int c * 2 ^ nat s - of_int m * of_int p\<bar> \<le> (of_int p :: real)" by simp
  have "of_int c / of_int p - of_int m / (2 ^ nat s :: real) = (of_int c * 2 ^ nat s - of_int m * of_int p) / (2 ^ nat s * of_int p)"
    using p by (simp add: field_simps)
  then have "\<bar>of_int c / of_int p - of_int m / (2 ^ nat s :: real)\<bar> = \<bar>of_int c * 2 ^ nat s - of_int m * of_int p\<bar> / (2 ^ nat s * of_int p)"
    using p by (simp add: abs_mult abs_divide)
  also have "\<dots> \<le> (of_int p / 2) / (2 ^ nat s * of_int p)"
    using e p by (intro divide_right_mono) simp_all
  also have "\<dots> = 1 / 2 ^ nat s / 2" using p by simp
  finally show ?thesis .
qed

lemma fixed_digits_digits: "c' \<in> set (fixed_digits n c) \<Longrightarrow> is_digit c'"
  by (induction n arbitrary: c) (auto simp: nat_less_iff)

lemma length_fixed_digits [simp]: "length (fixed_digits n c) = n"
  by (induction n arbitrary: c) auto

lemma read_dec_append: "read_dec a (s @ t) = read_dec (read_dec a s) t"
  by (induction s arbitrary: a) auto

lemma read_dec_fixed: "0 \<le> c \<Longrightarrow> c < 10 ^ n \<Longrightarrow> read_dec 0 (fixed_digits n c) = c"
proof (induction n arbitrary: c)
  case (Suc n)
  then have "read_dec 0 (fixed_digits n (c div 10)) = c div 10"
    by (simp add: Suc.IH pos_imp_zdiv_nonneg_iff div_less_iff_less_mult mult.commute)
  moreover have "nat (c mod 10) < 10" by (simp add: nat_less_iff)
  ultimately show ?case by (simp add: read_dec_append code_digit)
qed simp

lemma round_int_near:
  assumes "0 \<le> s" "\<bar>of_int m / (2 ^ nat s :: real) - of_int k\<bar> < 1 / 2"
  shows "dround_int (m, s) = k"
proof -
  let ?q = "2 ^ nat s :: int"
  have q: "0 < (2 ^ nat s :: real)" by simp
  from assms(2) have "\<bar>of_int m - of_int k * (2 ^ nat s :: real)\<bar> < 2 ^ nat s / 2"
    using q by (simp add: abs_if field_simps split: if_splits)
  then have "\<bar>of_int (2 * (m - k * ?q)) :: real\<bar> < of_int ?q" by (simp add: abs_if field_simps split: if_splits)
  then have "\<bar>2 * (m - k * ?q)\<bar> < ?q" by linarith
  then have "0 \<le> (2 * m + ?q) - k * (2 * ?q)" "(2 * m + ?q) - k * (2 * ?q) < 2 * ?q"
    by (simp_all add: abs_if algebra_simps split: if_splits)
  then have "(2 * m + ?q) div (2 * ?q) = k"
    by (intro int_div_pos_eq [where r = "(2 * m + ?q) - k * (2 * ?q)"]) (simp_all add: algebra_simps)
  then show ?thesis using assms(1) by (simp add: dround_int_def scale_def)
qed

subsection \<open>A byte as a fraction of 255, printed, read and scaled back\<close>

lemma bitlen_255: "bitlen 255 = 8"
  by (simp add: bitlen.simps)

lemma ddiv_255:
  assumes "1 \<le> k" "k \<le> 254" "ddiv k 255 = (m, s)"
  shows "52 \<le> s" "s \<le> 60" "\<bar>of_int m / 2 ^ nat s - of_int k / (255 :: real)\<bar> \<le> 1 / 2 ^ nat s / 2"
proof -
  have L: "bitlen k - bitlen 255 \<le> 0" using bitlen_mono [of k 255] assms by simp
  have P: "1 \<le> bitlen k" using bitlen_pos [of k] assms by simp
  have d: "dround k 255 = (m, s)" using assms(3) by (simp add: ddiv_def)
  show "52 \<le> s" using dround_error(1) [OF _ _ L _ d] assms by simp
  show "s \<le> 60" using dround_error(2) [OF _ _ L _ d] assms P by (simp add: bitlen_255)
  show "\<bar>of_int m / 2 ^ nat s - of_int k / (255 :: real)\<bar> \<le> 1 / 2 ^ nat s / 2"
    using dround_near [OF _ _ L _ d] assms by simp
qed

lemma half_ulp_bound: "20 \<le> s \<Longrightarrow> 1 / 2 ^ nat s / 2 \<le> (1 / 1000000 :: real)"
proof -
  assume "20 \<le> s"
  then have "(2 :: real) ^ 20 \<le> 2 ^ nat s" by (intro power_increasing) auto
  then have "1 / 2 ^ nat s \<le> (1 / 2 ^ 20 :: real)" by (intro divide_left_mono) auto
  then show ?thesis by simp
qed

lemma unit_text_255:
  assumes "1 \<le> k" "k \<le> 254"
  obtains n c where "unit_text (ddiv k 255) = ''0.'' @ fixed_digits n c" "1 \<le> n" "0 < c" "c < 10 ^ n"
    "\<bar>of_int c / 10 ^ n - of_int k / (255 :: real)\<bar> \<le> 1 / 500000"
proof -
  obtain m s where ms: "ddiv k 255 = (m, s)" by fastforce
  note b = ddiv_255 [OF assms ms]
  have "(2 :: int) ^ nat s \<le> 2 ^ 60" using b by (intro power_increasing) auto
  also have "(2 :: int) ^ 60 < 10 * 10 ^ 24" by simp
  finally obtain n c where nc: "decimals 25 (m, s) 1 10 = Some (n, c)"
    using decimals_complete [of s 10 24 m 1] by (auto simp: eval_nat_numeral)
  then have n: "1 \<le> n" and r: "reads_as (m, s) c (10 ^ n)"
    using decimals_sound [OF nc] by (auto simp flip: power_Suc)
  have "\<bar>of_int c / 10 ^ n - of_int m / (2 ^ nat s :: real)\<bar> \<le> 1 / 2 ^ nat s / 2"
    using reads_as_near [OF r] by simp
  then have near: "\<bar>of_int c / 10 ^ n - of_int k / (255 :: real)\<bar> \<le> 1 / 500000"
    using b(1,3) half_ulp_bound [of s] by linarith
  have k: "(1 :: real) \<le> of_int k" "of_int k \<le> (254 :: real)" using assms by simp_all
  have "0 < of_int c / (10 ^ n :: real)" "of_int c / (10 ^ n :: real) < 1" using near k by linarith+
  then have "0 < c" "(of_int c :: real) < of_int (10 ^ n)" by (simp_all add: zero_less_divide_iff)
  then have "0 < c" "c < 10 ^ n" by (simp_all only: of_int_less_iff)
  moreover have "unit_text (ddiv k 255) = ''0.'' @ fixed_digits n c" by (simp only: unit_text_def ms nc option.case prod.case)
  ultimately show thesis using n near that by blast
qed

lemma scaled_back:
  assumes "1 \<le> k" "0 < c" "c < 10 ^ n" "\<bar>of_int c / 10 ^ n - of_int k / (255 :: real)\<bar> \<le> 1 / 500000"
  shows "dround_int (dmul_int (dround c (10 ^ n)) 255) = k"
proof -
  obtain m s where ms: "dround c (10 ^ n) = (m, s)" by fastforce
  let ?q = "2 ^ nat s :: int"
  have L: "bitlen c - bitlen (10 ^ n) \<le> 0" using bitlen_mono [of c "10 ^ n"] assms by simp
  have s: "52 \<le> s" using dround_error(1) [OF assms(2) _ L _ ms] by simp
  have "\<bar>of_int m / 2 ^ nat s - of_int c / 10 ^ n\<bar> \<le> (1 / 2 ^ nat s / 2 :: real)"
    using dround_near [OF assms(2) _ L _ ms] by simp
  then have near: "\<bar>of_int m / 2 ^ nat s - of_int c / 10 ^ n\<bar> \<le> (1 / 1000000 :: real)"
    using half_ulp_bound [of s] s by linarith
  have "(of_int c :: real) < of_int (10 ^ n)" using assms(3) by (simp only: of_int_less_iff)
  then have cp: "of_int c / (10 ^ n :: real) < 1" by simp
  have k: "(1 :: real) \<le> of_int k" using assms(1) by simp
  have v: "0 < of_int m / (2 ^ nat s :: real)" "of_int m / (2 ^ nat s :: real) < 256 / 255"
    using near cp k assms(4) by linarith+
  have m: "0 < m" using v(1) by (simp add: zero_less_divide_iff)
  have "of_int (m * 255) \<le> (of_int (?q * 2 ^ 8) :: real)" using v(2) by (simp add: divide_less_eq)
  then have "m * 255 \<le> ?q * 2 ^ 8" by (simp only: of_int_le_iff)
  then have L2: "bitlen (m * 255) - bitlen ?q \<le> 8"
    using bitlen_mono [of "m * 255" "?q * 2 ^ 8"] bitlen_shift [of ?q 8] by simp
  obtain m2 s2 where ms2: "dround (m * 255) ?q = (m2, s2)" by fastforce
  have s2: "44 \<le> s2" using dround_error(1) [OF _ _ L2 _ ms2] m by simp
  have "\<bar>of_int m2 / 2 ^ nat s2 - 255 * (of_int m / 2 ^ nat s)\<bar> \<le> (1 / 2 ^ nat s2 / 2 :: real)"
    using dround_near [OF _ _ L2 _ ms2] m by (simp add: mult.commute)
  then have "\<bar>of_int m2 / 2 ^ nat s2 - of_int k\<bar> < (1 / 2 :: real)"
    using near assms(4) half_ulp_bound [of s2] s2 by linarith
  then have "dround_int (m2, s2) = k" using s2 by (intro round_int_near) simp_all
  moreover have "dmul_int (m, s) 255 = (m2, s2)" using s ms2 by (simp add: dmul_int_def scale_def)
  ultimately show ?thesis by (simp add: ms)
qed

subsection \<open>Hexadecimal digits\<close>

fun fixed_hex :: "nat \<Rightarrow> nat \<Rightarrow> string" where
  "fixed_hex 0 c = []"
| "fixed_hex (Suc n) c = fixed_hex n (c div 16) @ [hexdigit (c mod 16)]"

lemma hexval_hexdigit: "n < 16 \<Longrightarrow> hexval (hexdigit n) = n"
  by (simp add: hexval_def hexdigit_def char_code_def chr_def Let_def)

lemma length_fixed_hex [simp]: "length (fixed_hex n c) = n"
  by (induction n arbitrary: c) auto

lemma fixed_hex_add: "fixed_hex (m + n) c = fixed_hex m (c div 16 ^ n) @ fixed_hex n c"
proof (induction n arbitrary: c)
  case (Suc n)
  then show ?case by (simp add: div_mult2_eq)
qed simp

lemma fixed_hex_zero: "fixed_hex n 0 = replicate n (CHR ''0'')"
proof (induction n)
  case (Suc n)
  have "hexdigit 0 = CHR ''0''" by code_simp
  then show ?case using Suc by (simp add: replicate_append_same)
qed simp

lemma read_hex_append: "read_hex (s @ [c]) = 16 * read_hex s + hexval c"
  by (simp add: read_hex_def)

lemma read_fixed_hex: "read_hex (fixed_hex n c) = c mod 16 ^ n"
proof (induction n arbitrary: c)
  case (Suc n)
  then show ?case
    by (simp add: read_hex_append hexval_hexdigit mod_mult2_eq)
qed (simp add: read_hex_def)

lemma show_hex_fixed: "c < 16 ^ Suc n \<Longrightarrow> replicate (Suc n - length (show_hex c)) (CHR ''0'') @ show_hex c = fixed_hex (Suc n) c"
proof (induction n arbitrary: c)
  case 0
  then show ?case by (subst (1 2) show_hex.simps) simp
next
  case (Suc n)
  show ?case
  proof (cases "c < 16")
    case True
    then have "show_hex c = [hexdigit c]" by (subst show_hex.simps) simp
    then show ?thesis using True by (simp add: fixed_hex_zero replicate_append_same)
  next
    case False
    then have "show_hex c = show_hex (c div 16) @ [hexdigit (c mod 16)]" by (subst show_hex.simps) simp
    moreover have "c div 16 < 16 ^ Suc n" using Suc.prems by (simp add: div_less_iff_less_mult mult.commute)
    ultimately show ?thesis using Suc.IH [of "c div 16"] by simp
  qed
qed

end
