(* ===== verification/File.thy ===== *)
theory File
  imports JsJson Complex_Main
begin

text \<open>
  \<open>admin-ui/src/utils/file.js\<close>: file-name helpers, the CSV writer and reader behind the export
  and import buttons, and the human-readable size. \<open>parse_csv_text\<close> and its lemmas give the
  round trip between \<open>jsonToCsv\<close> and \<open>parseCsvRows\<close>.
\<close>

subsection \<open>File names\<close>

definition get_suffix :: "string \<Rightarrow> string" where
  "get_suffix filename =
     (case lastIndexOf filename (CHR ''.'') of None \<Rightarrow> [] | Some pos \<Rightarrow> drop pos filename)"

definition random_chars :: string where
  "random_chars = ''ABCDEFGHJKMNPQRSTWXYZabcdefhijkmnprstwxyz2345678''"

text \<open>
  \<open>Math.random()\<close> is a parameter: \<open>rnd i\<close> is the draw of the \<open>i\<close>-th iteration. \<open>charAt\<close>
  outside the string gives the empty string.
\<close>

definition charAt :: "string \<Rightarrow> int \<Rightarrow> string" where
  "charAt s i = (if 0 \<le> i \<and> i < int (length s) then [s ! nat i] else [])"

definition random_string :: "(nat \<Rightarrow> rat) \<Rightarrow> nat \<Rightarrow> string" where
  "random_string rnd len =
     (let len = (if len = 0 then 32 else len)
      in concat (map (\<lambda>i. charAt random_chars \<lfloor>rnd i * of_nat (length random_chars)\<rfloor>) [0..<len]))"

text \<open>
  \<open>now\<close> and \<open>epoch\<close> are the millisecond times of \<open>new Date()\<close> and of
  \<open>new Date('2020/01/01')\<close>; \<open>Math.ceil\<close> of the quotient is written with \<open>div\<close>.
\<close>

definition random_filename :: "(nat \<Rightarrow> rat) \<Rightarrow> int \<Rightarrow> int \<Rightarrow> string \<Rightarrow> string" where
  "random_filename rnd now epoch filename =
     show_int (- ((- (now - epoch)) div 1000)) @ ''_'' @ random_string rnd 10 @ get_suffix filename"

subsection \<open>CSV\<close>

datatype file_error = TypeError

text \<open>The text of one cell: null and undefined are empty, objects are JSON, the rest \<open>String(v)\<close>.\<close>

definition cell_text :: "jsval \<Rightarrow> string" where
  "cell_text val =
     (if nullish val then []
      else (case val of JArr _ \<Rightarrow> json_text val | JObj _ \<Rightarrow> json_text val | _ \<Rightarrow> toStr val))"

definition csv_cell :: "jsval \<Rightarrow> string" where
  "csv_cell val =
     (if nullish val then [quote, quote]
      else [quote] @ replaceAll_char (cell_text val) quote [quote, quote] @ [quote])"

definition csv_line :: "string list \<Rightarrow> obj \<Rightarrow> string" where
  "csv_line ks row = join [comma] (map (\<lambda>key. csv_cell (get row key)) ks) @ [lf]"

text \<open>
  \<open>jsonToCsv(data)\<close> up to the final \<open>new Blob\<close>: \<open>Object.keys(data[0])\<close> raises on an empty
  array.
\<close>

fun jsonToCsv :: "obj list \<Rightarrow> file_error + string" where
  "jsonToCsv [] = Inl TypeError"
| "jsonToCsv (r # data) =
     Inr (join [comma] (keys r) @ [lf] @ concat (map (csv_line (keys r)) (r # data)))"

text \<open>
  The reader. The loop variables are \<open>rows\<close>, \<open>row\<close>, \<open>field\<close>, \<open>inQuotes\<close> and \<open>quoted\<close>; the
  remaining text replaces the index.
\<close>

definition endField :: "string list \<Rightarrow> string \<Rightarrow> bool \<Rightarrow> string list" where
  "endField row field quoted = row @ [if quoted then field else trim field]"

definition endRow :: "string list list \<Rightarrow> string list \<Rightarrow> string \<Rightarrow> bool \<Rightarrow> string list list" where
  "endRow rows row field quoted =
     (let row = endField row field quoted
      in if \<exists>v \<in> set row. v \<noteq> [] then rows @ [row] else rows)"

fun csv_loop ::
    "string \<Rightarrow> string list list \<Rightarrow> string list \<Rightarrow> string \<Rightarrow> bool \<Rightarrow> bool \<Rightarrow>
     string list list \<times> string list \<times> string \<times> bool" where
  "csv_loop [] rows row field inQuotes quoted = (rows, row, field, quoted)"
| "csv_loop (c # text) rows row field inQuotes quoted =
     (if inQuotes then
        (if c = quote then
           (case text of
              d # text' \<Rightarrow>
                if d = quote then csv_loop text' rows row (field @ [quote]) True quoted
                else csv_loop text rows row field False quoted
            | [] \<Rightarrow> csv_loop text rows row field False quoted)
         else csv_loop text rows row (field @ [c]) True quoted)
      else if c = quote then csv_loop text rows row field True True
      else if c = comma then csv_loop text rows (endField row field quoted) [] False False
      else if c = lf then csv_loop text (endRow rows row field quoted) [] [] False False
      else if c = cr then
        (case text of
           d # text' \<Rightarrow>
             if d = lf then csv_loop text' (endRow rows row field quoted) [] [] False False
             else csv_loop text (endRow rows row field quoted) [] [] False False
         | [] \<Rightarrow> csv_loop text (endRow rows row field quoted) [] [] False False)
      else csv_loop text rows row (field @ [c]) False quoted)"

definition parseCsvRows :: "string \<Rightarrow> string list list" where
  "parseCsvRows text =
     (case csv_loop text [] [] [] False False of (rows, row, field, quoted) \<Rightarrow>
        if field \<noteq> [] \<or> row \<noteq> [] then endRow rows row field quoted else rows)"

subsection \<open>Sizes\<close>

text \<open>
  \<open>(size / unit).toFixed(2)\<close> for a unit that is a power of 1024: the quotient is exact in a
  double, and \<open>toFixed\<close> takes the nearest hundredth, the larger one on a tie.
\<close>

definition hundredths :: "int \<Rightarrow> int \<Rightarrow> int" where
  "hundredths sz unit' = (200 * sz + unit') div (2 * unit')"

definition toFixed2 :: "int \<Rightarrow> string" where
  "toFixed2 h = show_int (h div 100) @ ''.'' @ [digit (nat (h mod 100 div 10)), digit (nat (h mod 10))]"

definition sizeFormat :: "int \<Rightarrow> string" where
  "sizeFormat sz =
     (if sz < 1024 then show_int sz @ ''B''
      else if sz < 1024 * 1024 then toFixed2 (hundredths sz 1024) @ ''KB''
      else if sz < 1024 * 1024 * 1024 then toFixed2 (hundredths sz (1024 * 1024)) @ ''MB''
      else toFixed2 (hundredths sz (1024 * 1024 * 1024)) @ ''GB'')"

subsection \<open>Lemmas: file names\<close>

lemma show_int_no_dot: "CHR ''.'' \<notin> set (show_int i)"
proof
  assume "CHR ''.'' \<in> set (show_int i)"
  then have "is_digit (CHR ''.'')"
    by (auto simp: show_int_def split: if_splits dest: show_nat_digits)
  then show False by (simp add: is_digit_def char_code_def)
qed

lemma get_suffix_none: "CHR ''.'' \<notin> set s \<Longrightarrow> get_suffix s = []"
  using lastIndexOf_None [of s "CHR ''.''"] by (simp add: get_suffix_def)

lemma charAt_subset: "set (charAt s i) \<subseteq> set s"
  by (auto simp: charAt_def)

lemma random_string_chars: "set (random_string rnd len) \<subseteq> set random_chars"
  using charAt_subset by (auto simp: random_string_def Let_def)

lemma length_charAt_draw:
  assumes "0 \<le> r" "r < (1 :: rat)" "s \<noteq> []"
  shows "length (charAt s \<lfloor>r * of_nat (length s)\<rfloor>) = 1"
proof -
  have "r * of_nat (length s) < 1 * of_nat (length s)"
    using assms by (intro mult_strict_right_mono) auto
  then have "\<lfloor>r * of_nat (length s)\<rfloor> < int (length s)"
    by (simp add: floor_less_iff)
  moreover have "0 \<le> \<lfloor>r * of_nat (length s)\<rfloor>" using assms by simp
  ultimately show ?thesis by (simp add: charAt_def)
qed

lemma length_concat_singletons:
  "(\<And>x. x \<in> set xs \<Longrightarrow> length (f x) = 1) \<Longrightarrow> length (concat (map f xs)) = length xs"
  by (induction xs) auto

lemma random_prefix_no_dot:
  "CHR ''.'' \<notin> set (show_int i @ ''_'' @ random_string rnd n)"
  using random_string_chars [of rnd n] show_int_no_dot [of i]
  by (auto simp: random_chars_def)

subsection \<open>Lemmas: the CSV round trip\<close>

definition needs_no_quotes :: "string \<Rightarrow> bool" where
  "needs_no_quotes s = (quote \<notin> set s \<and> comma \<notin> set s \<and> lf \<notin> set s \<and> cr \<notin> set s \<and> trim s = s)"

lemma csv_chars_distinct [simp]:
  "quote \<noteq> comma" "comma \<noteq> quote" "quote \<noteq> lf" "lf \<noteq> quote" "comma \<noteq> lf" "lf \<noteq> comma"
  "cr \<noteq> lf" "lf \<noteq> cr" "cr \<noteq> comma" "comma \<noteq> cr" "cr \<noteq> quote" "quote \<noteq> cr"
  by (simp_all add: quote_def comma_def lf_def cr_def)

abbreviation escaped :: "string \<Rightarrow> string" where
  "escaped s \<equiv> replaceAll_char s quote [quote, quote]"

lemma escaped_simps [simp]:
  "escaped [] = []"
  "escaped (c # s) = (if c = quote then [quote, quote] else [c]) @ escaped s"
  by (simp_all add: replaceAll_char_def)

lemma loop_in_quotes:
  assumes "rest \<noteq> []" "hd rest \<noteq> quote"
  shows "csv_loop (escaped s @ quote # rest) rows row field True quoted =
         csv_loop rest rows row (field @ s) False quoted"
proof (induction s arbitrary: field)
  case Nil
  then show ?case using assms by (cases rest) auto
next
  case (Cons c s)
  then show ?case by simp
qed

lemma loop_plain:
  assumes "quote \<notin> set s" "comma \<notin> set s" "lf \<notin> set s" "cr \<notin> set s"
  shows "csv_loop (s @ rest) rows row field False quoted =
         csv_loop rest rows row (field @ s) False quoted"
  using assms by (induction s arbitrary: field) auto

lemma csv_cell_escaped: "csv_cell v = [quote] @ escaped (cell_text v) @ [quote]"
  by (simp add: csv_cell_def cell_text_def replaceAll_char_def)

lemma loop_cell:
  assumes "rest \<noteq> []" "hd rest \<noteq> quote"
  shows "csv_loop (csv_cell v @ rest) rows row [] False False =
         csv_loop rest rows row (cell_text v) False True"
  using loop_in_quotes [OF assms, of "cell_text v" rows row "[]" True]
  by (simp add: csv_cell_escaped)

lemma loop_cells:
  "vs \<noteq> [] \<Longrightarrow>
   csv_loop (join [comma] (map csv_cell vs) @ lf # rest) rows row [] False False =
   csv_loop rest (endRow rows (row @ map cell_text (butlast vs)) (cell_text (last vs)) True) [] [] False False"
proof (induction vs arbitrary: row)
  case (Cons v vs)
  show ?case
  proof (cases vs)
    case Nil
    then show ?thesis using loop_cell [of "lf # rest" v] by simp
  next
    case (Cons w ws)
    then have "csv_loop (join [comma] (map csv_cell (v # vs)) @ lf # rest) rows row [] False False =
        csv_loop (comma # join [comma] (map csv_cell vs) @ lf # rest) rows row (cell_text v) False True"
      using loop_cell [of "comma # join [comma] (map csv_cell vs) @ lf # rest" v] by simp
    also have "\<dots> = csv_loop (join [comma] (map csv_cell vs) @ lf # rest) rows (row @ [cell_text v]) [] False False"
      by (simp add: endField_def)
    finally show ?thesis using Cons.IH [of "row @ [cell_text v]"] Cons by simp
  qed
qed simp

lemma loop_names:
  "ks \<noteq> [] \<Longrightarrow> (\<And>k. k \<in> set ks \<Longrightarrow> needs_no_quotes k) \<Longrightarrow>
   csv_loop (join [comma] ks @ lf # rest) rows row [] False False =
   csv_loop rest (endRow rows (row @ butlast ks) (last ks) True) [] [] False False"
proof (induction ks arbitrary: row)
  case (Cons k ks)
  have k: "needs_no_quotes k" using Cons.prems by simp
  note plain = loop_plain [of k, where field = "[]" and quoted = False]
  show ?case
  proof (cases ks)
    case Nil
    then show ?thesis using k plain by (simp add: needs_no_quotes_def endRow_def endField_def)
  next
    case (Cons w ws)
    then show ?thesis
      using k plain Cons.IH [of "row @ [k]"] Cons.prems
      by (simp add: needs_no_quotes_def endField_def)
  qed
qed simp

definition nonblank :: "string list \<Rightarrow> bool" where
  "nonblank row = (\<exists>v \<in> set row. v \<noteq> [])"

lemma endRow_quoted:
  "vs \<noteq> [] \<Longrightarrow> endRow rows (butlast vs) (last vs) True = rows @ filter nonblank [vs]"
  by (simp add: endRow_def endField_def nonblank_def)

lemma blank_line: "csv_loop (lf # rest) rows [] [] False False = csv_loop rest rows [] [] False False"
  by (simp add: endRow_def endField_def)

lemma loop_line:
  "csv_loop (csv_line ks row @ rest) rows [] [] False False =
   csv_loop rest (rows @ filter nonblank [map (\<lambda>k. cell_text (get row k)) ks]) [] [] False False"
proof (cases "ks = []")
  case True
  then show ?thesis using blank_line by (simp add: csv_line_def nonblank_def)
next
  case False
  let ?vs = "map (get row) ks"
  have "csv_loop (join [comma] (map csv_cell ?vs) @ lf # rest) rows [] [] False False =
      csv_loop rest (endRow rows (butlast (map cell_text ?vs)) (last (map cell_text ?vs)) True) [] [] False False"
    using loop_cells [of ?vs rest rows "[]"] False by (simp add: map_butlast last_map)
  then show ?thesis using False endRow_quoted [of "map cell_text ?vs" rows]
    by (simp add: csv_line_def o_def)
qed

lemma loop_lines:
  "csv_loop (concat (map (csv_line ks) data)) rows [] [] False False =
   (rows @ filter nonblank (map (\<lambda>row. map (\<lambda>k. cell_text (get row k)) ks) data), [], [], False)"
proof (induction data arbitrary: rows)
  case (Cons r data)
  then show ?case
    by (cases "nonblank (map (\<lambda>k. cell_text (get r k)) ks)") (simp_all add: loop_line)
qed simp

lemma loop_header:
  assumes "\<And>k. k \<in> set ks \<Longrightarrow> needs_no_quotes k"
  shows "csv_loop (join [comma] ks @ lf # rest) [] [] [] False False =
         csv_loop rest (filter nonblank [ks]) [] [] False False"
proof (cases "ks = []")
  case True
  then show ?thesis using blank_line by (simp add: nonblank_def)
next
  case False
  then show ?thesis
    using loop_names [OF False assms, where rows = "[]" and row = "[]" and rest = rest]
      endRow_quoted [OF False, of "[]"] by simp
qed

subsection \<open>Lemmas: sizes\<close>

lemma hundredths_close:
  assumes "0 < u"
  shows "200 * sz - u < 2 * u * hundredths sz u" "2 * u * hundredths sz u \<le> 200 * sz + u"
proof -
  let ?a = "200 * sz + u"
  have d: "?a = 2 * u * hundredths sz u + ?a mod (2 * u)"
    by (simp add: hundredths_def)
  have m: "0 \<le> ?a mod (2 * u)" "?a mod (2 * u) < 2 * u" using assms by auto
  show "200 * sz - u < 2 * u * hundredths sz u" using d m by linarith
  show "2 * u * hundredths sz u \<le> 200 * sz + u" using d m by linarith
qed

subsection \<open>Properties\<close>

lemma csv_round_trip:
  assumes "data \<noteq> []" and "\<forall>k \<in> set (keys (hd data)). needs_no_quotes k"
  shows "\<exists>csv. jsonToCsv data = Inr csv \<and>
    parseCsvRows csv =
      filter nonblank (keys (hd data) #
        map (\<lambda>row. map (\<lambda>k. cell_text (get row k)) (keys (hd data))) data)"
proof -
  obtain r rs where data: "data = r # rs" using assms(1) by (cases data) auto
  let ?csv = "join [comma] (keys r) @ lf # concat (map (csv_line (keys r)) data)"
  have "csv_loop ?csv [] [] [] False False =
      csv_loop (concat (map (csv_line (keys r)) data)) (filter nonblank [keys r]) [] [] False False"
    using loop_header [of "keys r"] assms(2) data by simp
  then have "parseCsvRows ?csv =
      filter nonblank [keys r] @
      filter nonblank (map (\<lambda>row. map (\<lambda>k. cell_text (get row k)) (keys r)) data)"
    by (simp add: parseCsvRows_def loop_lines)
  moreover have "jsonToCsv data = Inr ?csv" using data by simp
  ultimately show ?thesis using data by (simp split: if_splits)
qed

text \<open>
  C27: reading back an exported CSV file gives the header row followed by the rows of the data,
  cell by cell (an object cell as its JSON text, a null cell as the empty string), with the rows
  that are blank in every cell left out. The column names must be plain: no quote, comma or line
  break and no surrounding white space, since the header is written unquoted.
\<close>

theorem parse_csv_round_trip:
  assumes "data \<noteq> []" and "\<forall>k \<in> set (keys (hd data)). needs_no_quotes k"
  shows "\<exists>csv. jsonToCsv data = Inr csv \<and>
    parseCsvRows csv =
      filter nonblank (keys (hd data) #
        map (\<lambda>row. map (\<lambda>k. cell_text (get row k)) (keys (hd data))) data)"
  by (rule csv_round_trip [OF assms])

theorem parse_csv_round_trip_witness:
  "\<exists>csv. jsonToCsv [[(''id'', JNum 7), (''name'', JStr [quote, comma])]] = Inr csv \<and>
     parseCsvRows csv = [[''id'', ''name''], [''7'', [quote, comma]]]"
proof -
  let ?r = "[(''id'', JNum 7), (''name'', JStr [quote, comma])]"
  have k: "\<forall>k \<in> set (keys (hd [?r])). needs_no_quotes k"
    by (simp add: keys_def needs_no_quotes_def quote_def comma_def lf_def cr_def trim_def is_ws_def char_code_def)
  have "show_nat 7 = ''7''" by code_simp
  then show ?thesis
    using parse_csv_round_trip [OF _ k]
    by (simp add: keys_def nonblank_def cell_text_def show_int_def)
qed

text \<open>
  A generated upload name keeps the suffix of the original file name, and a suffix starts at
  the last dot of the name.
\<close>

lemma random_filename_suffix:
  "get_suffix (random_filename rnd now epoch filename) = get_suffix filename"
proof -
  let ?p = "show_int (- ((- (now - epoch)) div 1000)) @ ''_'' @ random_string rnd 10"
  have np: "CHR ''.'' \<notin> set ?p" by (rule random_prefix_no_dot)
  have eq: "random_filename rnd now epoch filename = ?p @ get_suffix filename"
    by (simp add: random_filename_def)
  show ?thesis
  proof (cases "lastIndexOf filename (CHR ''.'')")
    case None
    then have "get_suffix filename = []" by (simp add: get_suffix_def)
    moreover have "get_suffix ?p = []" by (rule get_suffix_none [OF np])
    ultimately show ?thesis using eq by simp
  next
    case (Some pos)
    note i = lastIndexOf_Some [OF Some]
    then have dot: "get_suffix filename = CHR ''.'' # drop (Suc pos) filename"
      using Some by (simp add: get_suffix_def Cons_nth_drop_Suc [symmetric])
    have "lastIndexOf (drop (Suc pos) filename) (CHR ''.'') = None"
      using i by (simp add: lastIndexOf_None)
    then have "lastIndexOf (?p @ get_suffix filename) (CHR ''.'') = Some (length ?p)"
      using lastIndexOf_append [OF np, of "get_suffix filename"] dot by simp
    then show ?thesis unfolding eq by (simp add: get_suffix_def)
  qed
qed

text \<open>
  With draws in the unit interval a random string has exactly the requested length (32 for a
  length of zero) and only characters of the unambiguous alphabet.
\<close>

lemma random_string_shape:
  assumes "\<forall>i. 0 \<le> rnd i \<and> rnd i < 1"
  shows "length (random_string rnd len) = (if len = 0 then 32 else len)
    \<and> set (random_string rnd len) \<subseteq> set random_chars"
proof -
  have "length (charAt random_chars \<lfloor>rnd i * of_nat (length random_chars)\<rfloor>) = 1" for i
    using assms by (intro length_charAt_draw) (auto simp: random_chars_def)
  then have "length (random_string rnd len) = (if len = 0 then 32 else len)"
    unfolding random_string_def Let_def by (subst length_concat_singletons) auto
  then show ?thesis using random_string_chars by blast
qed

text \<open>
  The size shown in the KB, MB and GB ranges is the true size rounded to a hundredth of the
  unit: twice the difference is at most one hundredth.
\<close>

lemma sizeFormat_rounds:
  assumes "1024 \<le> sz"
  shows "\<exists>u h suffix. (u, suffix) \<in> {(1024, ''KB''), (1024 * 1024, ''MB''), (1024 * 1024 * 1024, ''GB'')}
    \<and> sizeFormat sz = toFixed2 h @ suffix \<and> \<bar>2 * (100 * sz - h * u)\<bar> \<le> u"
proof -
  let ?u = "if sz < 1024 * 1024 then 1024 else if sz < 1024 * 1024 * 1024 then 1024 * 1024 else (1024 * 1024 * 1024 :: int)"
  let ?s = "if sz < 1024 * 1024 then ''KB'' else if sz < 1024 * 1024 * 1024 then ''MB'' else ''GB''"
  have pos: "0 < ?u" by simp
  have "\<bar>2 * (100 * sz - hundredths sz ?u * ?u)\<bar> \<le> ?u"
    using hundredths_close [OF pos, of sz] by (simp add: algebra_simps abs_le_iff)
  moreover have "sizeFormat sz = toFixed2 (hundredths sz ?u) @ ?s"
    using assms by (simp add: sizeFormat_def)
  moreover have "(?u, ?s) \<in> {(1024, ''KB''), (1024 * 1024, ''MB''), (1024 * 1024 * 1024, ''GB'')}"
    by simp
  ultimately show ?thesis by blast
qed

end
