(* ===== verification/Routes.thy ===== *)
theory Routes
  imports JsString
begin

text \<open>
  \<open>admin-ui/src/router/index.js\<close>, the route table, and \<open>admin-ui/src/store/router.js\<close>, the
  store that filters it by the route names the server grants and registers the result with the
  router. The table is transcribed entry by entry; \<open>addRoute\<close> of the router (a library) is
  recorded as the list of routes registered so far.
\<close>

subsection \<open>Routes\<close>

record meta =
  title :: "string option"
  icon :: "string option"
  hide :: bool
  keepAlive_flag :: bool

definition mk_meta :: "string option \<Rightarrow> string option \<Rightarrow> bool \<Rightarrow> meta" where
  "mk_meta t i h = \<lparr>title = t, icon = i, hide = h, keepAlive_flag = False\<rparr>"

text \<open>
  A missing property is \<open>None\<close>; a missing \<open>children\<close> array and an empty one are the same, as for
  the test \<open>route.children && route.children.length\<close>.
\<close>

datatype route =
  Route (rpath: string) (rname: "string option") (rredirect: "string option")
    (rmeta: "meta option") (rcomponent: "string option") (rhidden: bool) (rchildren: "route list")

subsection \<open>The route table\<close>

definition constantRoutes :: "route list" where
  "constantRoutes =
    [Route ''/login'' (Some ''Login'') None (Some (mk_meta (Some ''Login'') None False))
       (Some ''@/views/login/login.vue'') False [],
     Route ''/register'' (Some ''Register'') None (Some (mk_meta (Some ''Register'') None False))
       (Some ''@/views/register/index.vue'') False [],
     Route ''/404'' None None None
       (Some ''@/views/error-page/404.vue'') True [],
     Route ''/oauth/:code'' None None (Some (mk_meta (Some ''OauthLogin'') None False))
       (Some ''@/views/oauth/login.vue'') True [],
     Route ''/oauth/bind/:code'' None None (Some (mk_meta (Some ''OauthBind'') None False))
       (Some ''@/views/oauth/bind.vue'') True []]"

definition routeRoot :: route where
  "routeRoot =
    Route ''/'' None (Some ''/dashboard'') (Some (mk_meta None None True))
      None False []"

definition routeDashboard :: route where
  "routeDashboard =
    Route ''/dashboard'' (Some ''Dashboard'') None (Some (mk_meta (Some ''Dashboard'') (Some ''Odometer'') False))
      (Some ''@/layout/index.vue'') False
      [Route '''' (Some ''DashboardHome'') None (Some (mk_meta (Some ''Dashboard'') (Some ''Odometer'') False))
         (Some ''@/views/index/index.vue'') False []]"

definition routeAdminDevices :: route where
  "routeAdminDevices =
    Route ''/admin/devices'' (Some ''AdminDevices'') None (Some (mk_meta (Some ''Devices'') (Some ''Monitor'') False))
      (Some ''@/layout/index.vue'') False
      [Route '''' (Some ''Peer'') None (Some (mk_meta (Some ''AllDevices'') (Some ''Monitor'') False))
         (Some ''@/views/peer/index.vue'') False [],
       Route ''groups'' (Some ''DeviceGroup'') None (Some (mk_meta (Some ''DeviceGroupManage'') (Some ''ChatRound'') False))
         (Some ''@/views/group/deviceGroupList.vue'') False []]"

definition routeAdminUsers :: route where
  "routeAdminUsers =
    Route ''/admin/users'' (Some ''AdminUsers'') None (Some (mk_meta (Some ''Users'') (Some ''User'') False))
      (Some ''@/layout/index.vue'') False
      [Route '''' (Some ''UserList'') None (Some (mk_meta (Some ''Users'') (Some ''User'') False))
         (Some ''@/views/user/index.vue'') False [],
       Route ''add'' (Some ''UserAdd'') None (Some (mk_meta (Some ''UserAdd'') None True))
         (Some ''@/views/user/edit.vue'') False [],
       Route ''edit/:id'' (Some ''UserEdit'') None (Some (mk_meta (Some ''UserEdit'') None True))
         (Some ''@/views/user/edit.vue'') False []]"

definition routeAdminGroups :: route where
  "routeAdminGroups =
    Route ''/admin/groups'' (Some ''AdminGroups'') None (Some (mk_meta (Some ''Groups'') (Some ''ChatRound'') False))
      (Some ''@/layout/index.vue'') False
      [Route '''' (Some ''UserGroup'') None (Some (mk_meta (Some ''GroupManage'') (Some ''ChatRound'') False))
         (Some ''@/views/group/index.vue'') False []]"

definition routeAdminAddressBook :: route where
  "routeAdminAddressBook =
    Route ''/admin/address-book'' (Some ''AdminAddressBook'') None (Some (mk_meta (Some ''AddressBook'') (Some ''Notebook'') False))
      (Some ''@/layout/index.vue'') False
      [Route ''collections'' (Some ''UserAddressBookName'') None (Some (mk_meta (Some ''Collections'') (Some ''Collection'') False))
         (Some ''@/views/address_book/collection.vue'') False [],
       Route ''books'' (Some ''UserAddressBook'') None (Some (mk_meta (Some ''Contacts'') (Some ''Notebook'') False))
         (Some ''@/views/address_book/index.vue'') False [],
       Route ''tags'' (Some ''UserTag'') None (Some (mk_meta (Some ''TagsManage'') (Some ''CollectionTag'') False))
         (Some ''@/views/tag/index.vue'') False []]"

definition routeAdminSecurity :: route where
  "routeAdminSecurity =
    Route ''/admin/security'' (Some ''AdminSecurity'') None (Some (mk_meta (Some ''Security'') (Some ''Lock'') False))
      (Some ''@/layout/index.vue'') False
      [Route ''oauth'' (Some ''Oauth'') None (Some (mk_meta (Some ''SSOProviders'') (Some ''Link'') False))
         (Some ''@/views/oauth/index.vue'') False [],
       Route ''tokens'' (Some ''UserToken'') None (Some (mk_meta (Some ''APITokens'') (Some ''Ticket'') False))
         (Some ''@/views/user/token.vue'') False []]"

definition routeAdminMonitoring :: route where
  "routeAdminMonitoring =
    Route ''/admin/monitoring'' (Some ''AdminMonitoring'') None (Some (mk_meta (Some ''Monitoring'') (Some ''DataAnalysis'') False))
      (Some ''@/layout/index.vue'') False
      [Route ''login-logs'' (Some ''LoginLog'') None (Some (mk_meta (Some ''LoginHistory'') (Some ''List'') False))
         (Some ''@/views/login/log.vue'') False [],
       Route ''connections'' (Some ''AuditConn'') None (Some (mk_meta (Some ''ConnectionHistory'') (Some ''Tickets'') False))
         (Some ''@/views/audit/connList.vue'') False [],
       Route ''file-transfers'' (Some ''AuditFile'') None (Some (mk_meta (Some ''FileTransferHistory'') (Some ''Files'') False))
         (Some ''@/views/audit/fileList.vue'') False [],
       Route ''shares'' (Some ''ShareRecord'') None (Some (mk_meta (Some ''SharedSessions'') (Some ''Share'') False))
         (Some ''@/views/share_record/index.vue'') False []]"

definition routeAdminCustomClient :: route where
  "routeAdminCustomClient =
    Route ''/admin/custom-client'' (Some ''AdminCustomClient'') None (Some (mk_meta (Some ''ClientBuilder'') (Some ''Tools'') False))
      (Some ''@/layout/index.vue'') False
      [Route '''' (Some ''CustomClientBuilds'') None (Some (mk_meta (Some ''ClientBuilder'') (Some ''Tools'') False))
         (Some ''@/views/custom-client/index.vue'') False []]"

definition routeAdminServer :: route where
  "routeAdminServer =
    Route ''/admin/server'' (Some ''AdminServer'') None (Some (mk_meta (Some ''Server'') (Some ''Setting'') False))
      (Some ''@/layout/index.vue'') False
      [Route ''cmd'' (Some ''ServerCmd'') None (Some (mk_meta (Some ''ServerCommands'') (Some ''Tools'') False))
         (Some ''@/views/rustdesk/control.vue'') False [],
       Route ''config'' (Some ''ServerConfig'') None (Some (mk_meta (Some ''ServerConfig'') (Some ''Setting'') False))
         (Some ''@/views/server/config.vue'') False [],
       Route ''github-build'' (Some ''GithubBuildSettings'') None (Some (mk_meta (Some ''GithubBuildSettings'') (Some ''Connection'') False))
         (Some ''@/views/server/github-build.vue'') False []]"

definition routeMyProfile :: route where
  "routeMyProfile =
    Route ''/my'' (Some ''MyProfile'') (Some ''/my/info'') (Some (mk_meta (Some ''MyProfile'') (Some ''UserFilled'') False))
      (Some ''@/layout/index.vue'') False
      [Route ''/my/info'' (Some ''MyInfo'') None (Some (mk_meta (Some ''AccountInfo'') (Some ''User'') False))
         (Some ''@/views/my/info.vue'') False [],
       Route ''/my/devices'' (Some ''MyPeer'') None (Some (mk_meta (Some ''MyDevices'') (Some ''Monitor'') False))
         (Some ''@/views/my/peer/index.vue'') False [],
       Route ''/my/address-book-collections'' (Some ''MyAddressBookCollection'') None (Some (mk_meta (Some ''MyCollections'') (Some ''Collection'') False))
         (Some ''@/views/my/address_book/collection.vue'') False [],
       Route ''/my/address-books'' (Some ''MyAddressBookList'') None (Some (mk_meta (Some ''MyContacts'') (Some ''Notebook'') False))
         (Some ''@/views/my/address_book/index.vue'') False [],
       Route ''/my/tags'' (Some ''MyTagList'') None (Some (mk_meta (Some ''MyTags'') (Some ''CollectionTag'') False))
         (Some ''@/views/my/tag/index.vue'') False [],
       Route ''/my/shares'' (Some ''MyShareRecordList'') None (Some (mk_meta (Some ''MySharedSessions'') (Some ''Share'') False))
         (Some ''@/views/my/share_record/index.vue'') False [],
       Route ''/my/login-logs'' (Some ''MyLoginLog'') None (Some (mk_meta (Some ''MyLoginHistory'') (Some ''List'') False))
         (Some ''@/views/my/login_log/index.vue'') False []]"

definition asyncRoutes :: "route list" where
  "asyncRoutes =
    [routeRoot, routeDashboard, routeAdminDevices, routeAdminUsers, routeAdminGroups,
     routeAdminAddressBook, routeAdminSecurity, routeAdminMonitoring, routeAdminCustomClient, routeAdminServer, routeMyProfile]"

definition lastRoutes :: "route list" where
  "lastRoutes =
    [Route ''/:catchAll(.*)'' None (Some ''/404'') (Some (mk_meta None None True))
       None False []]"

subsection \<open>The store\<close>

text \<open>\<open>enableNames.includes(route.name)\<close>: an unnamed route is never included.\<close>

definition name_enabled :: "string list \<Rightarrow> route \<Rightarrow> bool" where
  "name_enabled names r = (case rname r of None \<Rightarrow> False | Some n \<Rightarrow> n \<in> set names)"

definition route_enabled :: "string list \<Rightarrow> route \<Rightarrow> bool" where
  "route_enabled names r =
     (if rchildren r \<noteq> [] then name_enabled names r \<or> (\<exists>c \<in> set (rchildren r). name_enabled names c)
      else name_enabled names r)"

definition with_children :: "route \<Rightarrow> route list \<Rightarrow> route" where
  "with_children r cs = Route (rpath r) (rname r) (rredirect r) (rmeta r) (rcomponent r) (rhidden r) cs"

lemma size_rchildren: "size_list size (rchildren r) < size r"
  by (cases r) simp

function filterRoute :: "route list \<Rightarrow> string list \<Rightarrow> route list" where
  "filterRoute routes enableNames =
     map (\<lambda>route. if rchildren route \<noteq> []
                  then with_children route (filterRoute (rchildren route) enableNames) else route)
       (filter (route_enabled enableNames) routes)"
  by pat_completeness auto
termination
proof (relation "measure (\<lambda>(routes, _). size_list size routes)", goal_cases)
  case (2 routes names r)
  then have "r \<in> set routes" by simp
  then have "size_list size (rchildren r) < size_list size routes"
    by (rule size_list_estimation) (rule size_rchildren)
  then show ?case by simp
qed simp

declare filterRoute.simps [simp del]

record route_store =
  routes :: "route list"
  activeRoute :: string
  loaded :: nat
  keepAlive :: "string option list"

definition init_route_store :: route_store where
  "init_route_store = \<lparr>routes = [], activeRoute = [], loaded = 0, keepAlive = []\<rparr>"

definition wants_keepAlive :: "route \<Rightarrow> bool" where
  "wants_keepAlive r = (case rmeta r of None \<Rightarrow> False | Some m \<Rightarrow> keepAlive_flag m)"

text \<open>\<open>addKeepAlive\<close> on an array of routes, threading the \<open>keepAlive\<close> list.\<close>

function addKeepAlive :: "route list \<Rightarrow> string option list \<Rightarrow> string option list" where
  "addKeepAlive [] ka = ka"
| "addKeepAlive (r # rs) ka =
     addKeepAlive rs
       (if rchildren r \<noteq> [] then addKeepAlive (rchildren r) ka
        else if wants_keepAlive r \<and> rname r \<notin> set ka then ka @ [rname r] else ka)"
  by pat_completeness auto
termination
proof (relation "measure (\<lambda>(rs, _). size_list size rs)", goal_cases)
  case (2 r rs ka)
  then show ?case using size_rchildren [of r] by simp
qed simp_all

text \<open>
  \<open>addRoutes\<close>: the second component of the result is the list of routes handed to
  \<open>router.addRoute\<close>, in order.
\<close>

definition addRoutes :: "route_store \<Rightarrow> string list \<Rightarrow> route_store \<times> route list" where
  "addRoutes s accessRouteNames =
     (let rs = (if ''*'' \<in> set accessRouteNames then asyncRoutes
                else filterRoute asyncRoutes accessRouteNames);
          s' = s\<lparr>routes := rs\<rparr>
      in (s'\<lparr>keepAlive := addKeepAlive rs (keepAlive s')\<rparr>, rs @ lastRoutes))"

text \<open>The names the server grants to an ordinary user (\<open>api/model/user.go\<close>).\<close>

definition UserRouteNames :: "string list" where
  "UserRouteNames =
     [''MyTagList'', ''MyAddressBookList'', ''MyInfo'', ''MyAddressBookCollection'', ''MyPeer'',
      ''MyShareRecordList'', ''MyLoginLog'']"

subsection \<open>Lemmas\<close>

text \<open>The leaves of a route forest: the routes whose component is a page.\<close>

function leaves :: "route list \<Rightarrow> route list" where
  "leaves [] = []"
| "leaves (r # rs) = (if rchildren r = [] then [r] else leaves (rchildren r)) @ leaves rs"
  by pat_completeness auto
termination
proof (relation "measure (size_list size)", goal_cases)
  case (2 r rs)
  then show ?case using size_rchildren [of r] by simp
qed simp_all

lemma leaves_append [simp]: "leaves (xs @ ys) = leaves xs @ leaves ys"
  by (induction xs) auto

lemma with_children_sel [simp]:
  "rchildren (with_children r cs) = cs" "rname (with_children r cs) = rname r"
  "rpath (with_children r cs) = rpath r" "rmeta (with_children r cs) = rmeta r"
  by (simp_all add: with_children_def)

lemma name_enabled_with_children [simp]:
  "name_enabled names (with_children r cs) = name_enabled names r"
  by (simp add: name_enabled_def)

lemma with_children_twice [simp]: "with_children (with_children r cs) ds = with_children r ds"
  by (simp add: with_children_def)

lemma name_enabled_route_enabled: "name_enabled names r \<Longrightarrow> route_enabled names r"
  by (simp add: route_enabled_def)

text \<open>One filtered route: its children are filtered when it has some.\<close>

definition filter_one :: "string list \<Rightarrow> route \<Rightarrow> route" where
  "filter_one names r =
     (if rchildren r \<noteq> [] then with_children r (filterRoute (rchildren r) names) else r)"

lemma filterRoute_eq: "filterRoute rs names = map (filter_one names) (filter (route_enabled names) rs)"
  by (subst filterRoute.simps) (simp add: filter_one_def)

lemma filterRoute_Nil [simp]: "filterRoute [] names = []"
  by (simp add: filterRoute_eq)

lemma filterRoute_Cons:
  "filterRoute (r # rs) names =
     (if route_enabled names r then filter_one names r # filterRoute rs names else filterRoute rs names)"
  by (simp add: filterRoute_eq)

lemma filter_one_name [simp]: "rname (filter_one names r) = rname r"
  by (simp add: filter_one_def)

lemma name_enabled_filter_one [simp]: "name_enabled names (filter_one names r) = name_enabled names r"
  by (simp add: name_enabled_def)

lemma filter_one_children:
  "rchildren (filter_one names r) = filterRoute (rchildren r) names"
  by (simp add: filter_one_def)

lemma enabled_child_kept:
  assumes "c \<in> set (rchildren r)" "name_enabled names c"
  shows "filter_one names c \<in> set (rchildren (filter_one names r))"
  using assms name_enabled_route_enabled by (auto simp: filter_one_children filterRoute_eq)

lemma enabled_child:
  assumes "route_enabled names r" "\<not> name_enabled names r"
  obtains c where "c \<in> set (rchildren r)" "name_enabled names c"
  using assms by (auto simp: route_enabled_def split: if_splits)

lemma filterRoute_empty_imp:
  assumes "route_enabled names r" "filterRoute (rchildren r) names = []"
  shows "name_enabled names r"
proof (rule ccontr)
  assume "\<not> name_enabled names r"
  with assms(1) obtain c where "c \<in> set (rchildren r)" "name_enabled names c"
    by (rule enabled_child)
  from enabled_child_kept [OF this] assms(2) show False by (simp add: filter_one_children)
qed

lemma filter_one_enabled:
  assumes "route_enabled names r"
  shows "route_enabled names (filter_one names r)"
proof (cases "name_enabled names r")
  case True
  then show ?thesis by (simp add: name_enabled_route_enabled)
next
  case False
  with assms obtain c where c: "c \<in> set (rchildren r)" "name_enabled names c"
    by (rule enabled_child)
  have "\<exists>d \<in> set (rchildren (filter_one names r)). name_enabled names d"
    using enabled_child_kept [OF c] c(2) name_enabled_filter_one by blast
  then show ?thesis by (auto simp: route_enabled_def)
qed

lemma leaves_filterRoute_enabled:
  "r \<in> set (leaves (filterRoute rs names)) \<Longrightarrow> name_enabled names r"
proof (induction rs rule: leaves.induct)
  case (2 q rs)
  show ?case
  proof (cases "route_enabled names q")
    case True
    show ?thesis
    proof (cases "filterRoute (rchildren q) names = []")
      case empty: True
      then show ?thesis
        using 2 True filterRoute_empty_imp [OF True empty]
        by (auto simp: filterRoute_Cons filter_one_children split: if_splits)
    next
      case False
      then have "rchildren q \<noteq> []" by auto
      then show ?thesis using 2 True False
        by (auto simp: filterRoute_Cons filter_one_children)
    qed
  next
    case False
    then show ?thesis using 2 by (simp add: filterRoute_Cons)
  qed
qed simp

lemma filter_one_idem:
  "filterRoute (filterRoute (rchildren r) names) names = filterRoute (rchildren r) names \<Longrightarrow>
   filter_one names (filter_one names r) = filter_one names r"
  by (simp add: filter_one_def)

lemma filterRoute_idem: "filterRoute (filterRoute rs names) names = filterRoute rs names"
proof (induction rs rule: leaves.induct)
  case (2 r rs)
  have child: "filterRoute (filterRoute (rchildren r) names) names = filterRoute (rchildren r) names"
    using 2 by (cases "rchildren r = []") auto
  then show ?case
    using 2 filter_one_enabled filter_one_idem [OF child]
    by (auto simp: filterRoute_Cons)
qed simp

lemma distinct_addKeepAlive: "distinct ka \<Longrightarrow> distinct (addKeepAlive rs ka)"
  by (induction rs ka rule: addKeepAlive.induct) auto

lemma set_addKeepAlive:
  "set (addKeepAlive rs ka) = set ka \<union> rname ` {r \<in> set (leaves rs). wants_keepAlive r}"
  by (induction rs ka rule: addKeepAlive.induct) auto

lemmas route_table_defs =
  asyncRoutes_def routeRoot_def routeDashboard_def routeAdminDevices_def routeAdminUsers_def
  routeAdminGroups_def routeAdminAddressBook_def routeAdminSecurity_def routeAdminMonitoring_def
  routeAdminCustomClient_def routeAdminServer_def routeMyProfile_def

lemmas route_filter_simps =
  filterRoute_Cons route_enabled_def name_enabled_def filter_one_def

lemma no_keepAlive_meta: "r \<in> set (leaves asyncRoutes) \<Longrightarrow> \<not> wants_keepAlive r"
  by (auto simp: route_table_defs wants_keepAlive_def mk_meta_def)

subsection \<open>Properties\<close>

text \<open>
  C25: a page the router can reach after filtering is one whose name the server granted: every
  leaf of the filtered forest is enabled, for every route table and every list of names.
\<close>

theorem filterRoute_sound:
  "r \<in> set (leaves (filterRoute rs names)) \<Longrightarrow> name_enabled names r"
  by (rule leaves_filterRoute_enabled)

theorem filterRoute_sound_witness:
  "name_enabled [''Peer''] (Route '''' (Some ''Peer'') None (Some (mk_meta (Some ''AllDevices'') (Some ''Monitor'') False))
         (Some ''@/views/peer/index.vue'') False [])"
  by (rule filterRoute_sound [of _ "[routeAdminDevices]"])
    (simp add: routeAdminDevices_def route_filter_simps)

text \<open>
  Filtering is complete one level down and stable: a granted child of a top-level route is
  registered under its parent, and filtering a filtered table again changes nothing.
\<close>

lemma filterRoute_complete_stable:
  assumes "p \<in> set rs" "c \<in> set (rchildren p)" "name_enabled names c"
  shows "(\<exists>p' \<in> set (filterRoute rs names). rpath p' = rpath p \<and>
      (\<exists>c' \<in> set (rchildren p'). rpath c' = rpath c \<and> rname c' = rname c \<and> rcomponent c' = rcomponent c))
    \<and> filterRoute (filterRoute rs names) names = filterRoute rs names"
proof -
  have "route_enabled names p" using assms by (auto simp: route_enabled_def)
  then have "filter_one names p \<in> set (filterRoute rs names)"
    using assms by (auto simp: filterRoute_eq)
  moreover have "filter_one names c \<in> set (rchildren (filter_one names p))"
    using assms by (intro enabled_child_kept)
  moreover have "rpath (filter_one names r) = rpath r \<and> rcomponent (filter_one names r) = rcomponent r" for r
    by (simp add: filter_one_def with_children_def)
  ultimately show ?thesis using filterRoute_idem filter_one_name by metis
qed

text \<open>
  With the names the server grants to an ordinary user, the only top-level route registered is
  \<open>/my\<close> with all seven of its pages, followed by the catch-all; in particular neither
  \<open>/\<close> nor \<open>/dashboard\<close>, the page the login view opens by default, is registered.
\<close>

lemma user_routes:
  "routes (fst (addRoutes s UserRouteNames)) = [routeMyProfile]
   \<and> snd (addRoutes s UserRouteNames) = routeMyProfile # lastRoutes
   \<and> ''/dashboard'' \<notin> rpath ` set (snd (addRoutes s UserRouteNames))
   \<and> ''/'' \<notin> rpath ` set (snd (addRoutes s UserRouteNames))"
proof -
  have f: "filterRoute asyncRoutes UserRouteNames = [routeMyProfile]"
    by (simp add: route_table_defs route_filter_simps UserRouteNames_def with_children_def)
  have star: "''*'' \<notin> set UserRouteNames" by (simp add: UserRouteNames_def)
  show ?thesis using f star
    by (simp add: addRoutes_def Let_def lastRoutes_def routeMyProfile_def)
qed

text \<open>
  An administrator's grant registers the whole table in order with the catch-all route last,
  and the keep-alive list stays free of duplicates and gains nothing, since no route of the table
  asks to be kept alive.
\<close>

lemma admin_routes:
  assumes "''*'' \<in> set names" and "distinct (keepAlive s)"
  shows "snd (addRoutes s names) = asyncRoutes @ lastRoutes
    \<and> rpath (last (snd (addRoutes s names))) = ''/:catchAll(.*)''
    \<and> set (keepAlive (fst (addRoutes s names))) = set (keepAlive s)
    \<and> distinct (keepAlive (fst (addRoutes s names)))"
proof -
  have "set (addKeepAlive asyncRoutes (keepAlive s)) = set (keepAlive s)"
    using no_keepAlive_meta by (auto simp: set_addKeepAlive)
  then show ?thesis
    using assms distinct_addKeepAlive
    by (simp add: addRoutes_def Let_def lastRoutes_def)
qed

end
