(* ===== verification/Tags.thy ===== *)
theory Tags
  imports Prelude
begin

text \<open>
  \<open>admin-ui/src/store/tags.js\<close>: the tab bar. A tab is named after its route; the store keeps the
  open tabs and the names of the kept-alive components. The locale \<open>tab_bar\<close> states what the
  layout relies on; it is interpreted on the store at the end of the lemmas.
\<close>

subsection \<open>State and operations\<close>

record tag =
  t_name :: "string option"
  t_path :: string
  t_title :: "string option"
  t_active :: bool
  t_closeable :: bool
  t_keepAlive :: bool

text \<open>What \<open>addTag\<close> reads of a route: an absent \<open>meta.title\<close> is \<open>None\<close>.\<close>

record tab_route =
  r_name :: "string option"
  r_fullPath :: string
  r_title :: "string option"
  r_keepAlive :: bool

record tags_store =
  tags :: "tag list"
  cached :: "string option list"

definition init_tags_store :: tags_store where
  "init_tags_store = \<lparr>tags = [], cached = []\<rparr>"

definition initTags :: "tags_store \<Rightarrow> tags_store" where
  "initTags s = s"

definition addCachedTag :: "string option \<Rightarrow> tags_store \<Rightarrow> tags_store" where
  "addCachedTag n s = (if n \<notin> set (cached s) then s\<lparr>cached := cached s @ [n]\<rparr> else s)"

definition removeCachedTag :: "string option \<Rightarrow> tags_store \<Rightarrow> tags_store" where
  "removeCachedTag n s = (if n \<in> set (cached s) then s\<lparr>cached := remove1 n (cached s)\<rparr> else s)"

definition deactivate :: "tag \<Rightarrow> tag" where
  "deactivate t = t\<lparr>t_active := False\<rparr>"

text \<open>\<open>route.meta?.title || route.name\<close>: an empty title falls back to the name.\<close>

definition tab_title :: "tab_route \<Rightarrow> string option" where
  "tab_title r = (case r_title r of None \<Rightarrow> r_name r | Some t \<Rightarrow> if t = [] then r_name r else Some t)"

definition addTag :: "tab_route \<Rightarrow> tags_store \<Rightarrow> tags_store" where
  "addTag route s =
     (if find (\<lambda>t. t_name t = r_name route) (tags s) \<noteq> None
      then s\<lparr>tags := update_first (\<lambda>t. t_name t = r_name route) (\<lambda>t. t\<lparr>t_active := True\<rparr>)
                       (map deactivate (tags s))\<rparr>
      else
        (let s = s\<lparr>tags := map deactivate (tags s)\<rparr>;
             s = (if r_keepAlive route then addCachedTag (r_name route) s else s)
         in s\<lparr>tags := tags s @
                [\<lparr>t_name = r_name route, t_path = r_fullPath route, t_title = tab_title route,
                  t_active = True, t_closeable = True, t_keepAlive = r_keepAlive route\<rparr>]\<rparr>))"

definition removeTag :: "string option \<Rightarrow> tags_store \<Rightarrow> tags_store" where
  "removeTag n s =
     (case find (\<lambda>t. t_name t = n) (tags s) of
        None \<Rightarrow> s
      | Some t \<Rightarrow>
          (let s = (if t_keepAlive t then removeCachedTag (t_name t) s else s)
           in s\<lparr>tags := remove_first (\<lambda>t. t_name t = n) (tags s)\<rparr>))"

subsection \<open>The tab bar's contract\<close>

locale tab_bar =
  fixes inv :: "'s \<Rightarrow> bool"
    and names :: "'s \<Rightarrow> 'k list"
    and active :: "'s \<Rightarrow> 'k list"
    and key :: "'r \<Rightarrow> 'k"
    and add :: "'r \<Rightarrow> 's \<Rightarrow> 's"
    and remove :: "'k \<Rightarrow> 's \<Rightarrow> 's"
  assumes inv_add: "inv s \<Longrightarrow> inv (add r s)"
    and inv_remove: "inv s \<Longrightarrow> inv (remove k s)"
    and names_add: "inv s \<Longrightarrow> names (add r s) = (if key r \<in> set (names s) then names s else names s @ [key r])"
    and names_remove: "inv s \<Longrightarrow> names (remove k s) = remove1 k (names s)"
    and active_add: "inv s \<Longrightarrow> active (add r s) = [key r]"
    and names_distinct: "inv s \<Longrightarrow> distinct (names s)"
begin

text \<open>A session is a list of visits (\<open>Inl\<close>) and closings (\<open>Inr\<close>).\<close>

fun run :: "('r + 'k) list \<Rightarrow> 's \<Rightarrow> 's" where
  "run [] s = s"
| "run (Inl r # ops) s = run ops (add r s)"
| "run (Inr k # ops) s = run ops (remove k s)"

lemma run_append: "run (xs @ ys) s = run ys (run xs s)"
  by (induction xs s rule: run.induct) auto

lemma run_inv: "inv s \<Longrightarrow> inv (run ops s)"
  by (induction ops s rule: run.induct) (auto simp: inv_add inv_remove)

lemma run_visit_last: "inv s \<Longrightarrow> active (run (ops @ [Inl r]) s) = [key r]"
  by (simp add: run_append active_add run_inv)

lemma run_close_last: "inv s \<Longrightarrow> k \<notin> set (names (run (ops @ [Inr k]) s))"
  using run_inv [of s ops] names_distinct [of "run ops s"]
  by (simp add: run_append names_remove)

lemma visit_twice: "inv s \<Longrightarrow> names (add r (add r s)) = names (add r s)"
  by (simp add: names_add inv_add)

end

subsection \<open>Lemmas\<close>

definition kept :: "tag list \<Rightarrow> string option list" where
  "kept ts = map t_name (filter t_keepAlive ts)"

definition tags_inv :: "tags_store \<Rightarrow> bool" where
  "tags_inv s \<longleftrightarrow>
     distinct (map t_name (tags s)) \<and> length (filter t_active (tags s)) \<le> 1 \<and>
     distinct (cached s) \<and> set (cached s) = set (kept (tags s))"

definition tab_names :: "tags_store \<Rightarrow> string option list" where
  "tab_names s = map t_name (tags s)"

definition active_names :: "tags_store \<Rightarrow> string option list" where
  "active_names s = map t_name (filter t_active (tags s))"

lemma deactivate_sel [simp]:
  "t_name (deactivate t) = t_name t" "t_keepAlive (deactivate t) = t_keepAlive t"
  "t_active (deactivate t) = False"
  by (simp_all add: deactivate_def)

lemma no_active_deactivate [simp]: "filter t_active (map deactivate ts) = []"
  by (induction ts) auto

lemma names_deactivate [simp]: "map t_name (map deactivate ts) = map t_name ts"
  by (simp add: comp_def)

lemma kept_append [simp]: "kept (xs @ ys) = kept xs @ kept ys"
  by (simp add: kept_def)

lemma kept_deactivate [simp]: "kept (map deactivate ts) = kept ts"
  by (induction ts) (auto simp: kept_def)

abbreviation activate_first :: "string option \<Rightarrow> tag list \<Rightarrow> tag list" where
  "activate_first n \<equiv> update_first (\<lambda>t. t_name t = n) (\<lambda>t. t\<lparr>t_active := True\<rparr>)"

lemma names_activate [simp]: "map t_name (activate_first n ts) = map t_name ts"
  by (rule map_update_first) simp

lemma kept_activate [simp]: "kept (activate_first n ts) = kept ts"
  by (induction ts) (auto simp: kept_def)

lemma active_activate:
  assumes "filter t_active ts = []" "n \<in> set (map t_name ts)"
  shows "map t_name (filter t_active (activate_first n ts)) = [n]"
  using assms by (induction ts) (auto split: if_splits)

lemma mem_names_find: "(find (\<lambda>t. t_name t = n) ts \<noteq> None) \<longleftrightarrow> n \<in> set (map t_name ts)"
  by (induction ts) auto

lemma addTag_open:
  assumes "r_name r \<in> set (tab_names s)"
  shows "addTag r s = s\<lparr>tags := activate_first (r_name r) (map deactivate (tags s))\<rparr>"
  using assms mem_names_find [of "r_name r" "tags s"] by (simp add: addTag_def tab_names_def)

lemma addTag_fresh:
  assumes "r_name r \<notin> set (tab_names s)"
  shows "tags (addTag r s) = map deactivate (tags s) @
           [\<lparr>t_name = r_name r, t_path = r_fullPath r, t_title = tab_title r,
             t_active = True, t_closeable = True, t_keepAlive = r_keepAlive r\<rparr>]"
    and "cached (addTag r s) =
           (if r_keepAlive r \<and> r_name r \<notin> set (cached s) then cached s @ [r_name r] else cached s)"
  using assms mem_names_find [of "r_name r" "tags s"]
  by (simp_all add: addTag_def tab_names_def addCachedTag_def Let_def)

lemma addTag_names:
  "tab_names (addTag r s) =
     (if r_name r \<in> set (tab_names s) then tab_names s else tab_names s @ [r_name r])"
proof (cases "r_name r \<in> set (tab_names s)")
  case True
  then show ?thesis by (simp add: addTag_open) (simp add: tab_names_def)
next
  case False
  then show ?thesis using addTag_fresh(1) [OF False] by (simp add: tab_names_def)
qed

lemma addTag_active: "active_names (addTag r s) = [r_name r]"
proof (cases "r_name r \<in> set (tab_names s)")
  case True
  then have "r_name r \<in> set (map t_name (map deactivate (tags s)))"
    by (simp only: names_deactivate) (simp add: tab_names_def)
  from active_activate [OF no_active_deactivate this] True show ?thesis
    by (simp add: addTag_open active_names_def)
next
  case False
  then show ?thesis by (simp add: active_names_def addTag_fresh)
qed

lemma active_count: "length (filter t_active (tags s)) = length (active_names s)"
  by (simp add: active_names_def)

lemma addTag_inv: "tags_inv s \<Longrightarrow> tags_inv (addTag r s)"
proof -
  assume inv: "tags_inv s"
  have d: "distinct (map t_name (tags (addTag r s)))"
    using inv addTag_names [of r s] by (auto simp: tags_inv_def tab_names_def)
  have a: "length (filter t_active (tags (addTag r s))) \<le> 1"
    using active_count [of "addTag r s"] addTag_active [of r s] by simp
  have c: "distinct (cached (addTag r s)) \<and> set (cached (addTag r s)) = set (kept (tags (addTag r s)))"
  proof (cases "r_name r \<in> set (tab_names s)")
    case True
    then show ?thesis using inv by (simp add: addTag_open tags_inv_def)
  next
    case False
    have "r_name r \<notin> set (cached s)"
      using False inv by (auto simp: tags_inv_def tab_names_def kept_def)
    moreover have "kept (tags (addTag r s)) = kept (tags s) @ (if r_keepAlive r then [r_name r] else [])"
      unfolding addTag_fresh(1) [OF False] by (simp add: kept_def [of "[_]"])
    ultimately show ?thesis using inv addTag_fresh(2) [OF False] by (simp add: tags_inv_def)
  qed
  show ?thesis using d a c by (simp add: tags_inv_def)
qed

lemma removeTag_names: "tab_names (removeTag n s) = remove1 n (tab_names s)"
proof (cases "find (\<lambda>t. t_name t = n) (tags s)")
  case None
  then have "n \<notin> set (tab_names s)" by (auto simp: find_None_all tab_names_def)
  then show ?thesis using None by (simp add: removeTag_def remove1_idem)
next
  case (Some t)
  then show ?thesis
    by (simp add: removeTag_def removeCachedTag_def tab_names_def Let_def map_remove_first)
qed

lemma kept_remove_first:
  "distinct (map t_name ts) \<Longrightarrow>
   set (kept (remove_first (\<lambda>t. t_name t = n) ts)) = set (kept ts) - {n}"
  by (induction ts) (auto simp: kept_def, metis image_eqI)

lemma removeTag_inv: "tags_inv s \<Longrightarrow> tags_inv (removeTag n s)"
proof (cases "find (\<lambda>t. t_name t = n) (tags s)")
  case None
  then show "tags_inv s \<Longrightarrow> ?thesis" by (simp add: removeTag_def)
next
  case (Some t)
  assume inv: "tags_inv s"
  have t: "t \<in> set (tags s)" "t_name t = n" using find_Some_set [OF Some] by auto
  have ts: "tags (removeTag n s) = remove_first (\<lambda>t. t_name t = n) (tags s)"
    using Some by (simp add: removeTag_def removeCachedTag_def Let_def)
  have keep: "n \<in> set (cached s) \<longleftrightarrow> t_keepAlive t"
    using inv t by (auto simp: tags_inv_def kept_def distinct_map inj_on_def)
  have cs: "distinct (cached (removeTag n s)) \<and> set (cached (removeTag n s)) = set (cached s) - {n}"
    using Some t keep inv
    by (auto simp: removeTag_def removeCachedTag_def Let_def tags_inv_def)
  have le: "length (filter t_active (tags (removeTag n s))) \<le> 1"
    using inv filter_remove_first_le [of t_active "\<lambda>t. t_name t = n" "tags s"]
    unfolding ts tags_inv_def by linarith
  show ?thesis
    using cs le inv kept_remove_first [of "tags s" n] distinct_map_remove_first [of t_name "tags s"]
    by (simp add: tags_inv_def ts)
qed

lemma init_tags_inv: "tags_inv init_tags_store"
  by (simp add: tags_inv_def init_tags_store_def kept_def)

interpretation tabs: tab_bar tags_inv tab_names active_names r_name addTag removeTag
proof (unfold_locales, goal_cases)
  case 1 then show ?case by (rule addTag_inv)
next
  case 2 then show ?case by (rule removeTag_inv)
next
  case 3 then show ?case by (simp add: addTag_names)
next
  case 4 then show ?case by (simp add: removeTag_names)
next
  case 5 then show ?case by (simp add: addTag_active)
next
  case 6 then show ?case by (simp add: tags_inv_def tab_names_def)
qed

text \<open>The session of the store itself, as the layout drives it.\<close>

fun tab_session :: "(tab_route + string option) list \<Rightarrow> tags_store \<Rightarrow> tags_store" where
  "tab_session [] s = s"
| "tab_session (Inl r # ops) s = tab_session ops (addTag r s)"
| "tab_session (Inr n # ops) s = tab_session ops (removeTag n s)"

lemma tab_session_run: "tab_session ops s = tabs.run ops s"
  by (induction ops s rule: tab_session.induct) auto

subsection \<open>Properties\<close>

text \<open>
  After any sequence of visits and closings of tabs, no two tabs have the same name, at most
  one tab is active, and the kept-alive components are exactly those of the open tabs that ask
  for it, each listed once.
\<close>

lemma tab_session_invariant: "tags_inv (tab_session ops init_tags_store)"
  unfolding tab_session_run by (rule tabs.run_inv) (rule init_tags_inv)

text \<open>
  In a session that ends with a visit the visited route is the one active tab, and in a
  session that ends with closing a tab that tab is gone.
\<close>

lemma tab_session_last:
  "active_names (tab_session (ops @ [Inl r]) init_tags_store) = [r_name r]
   \<and> n \<notin> set (tab_names (tab_session (ops @ [Inr n]) init_tags_store))"
  unfolding tab_session_run
  using tabs.run_visit_last [OF init_tags_inv] tabs.run_close_last [OF init_tags_inv] by blast

end
