(* ===== verification/Auth.thy ===== *)
theory Auth
  imports JsString
begin

text \<open>
  \<open>localStorage\<close> and \<open>admin-ui/src/utils/auth.js\<close>: the session token, stored a second time for
  the web client, and the OIDC code, which expires after sixty seconds. The locale
  \<open>credential\<close> is the contract the stores rely on; the token and, at a fixed time, the OIDC
  code satisfy it.
\<close>

subsection \<open>Storage\<close>

type_synonym storage = "string \<rightharpoonup> string"

definition getItem :: "storage \<Rightarrow> string \<Rightarrow> string option" where
  "getItem st k = st k"

definition setItem :: "string \<Rightarrow> string \<Rightarrow> storage \<Rightarrow> storage" where
  "setItem k v st = st(k \<mapsto> v)"

definition removeItem :: "string \<Rightarrow> storage \<Rightarrow> storage" where
  "removeItem k st = st(k := None)"

lemma getItem_setItem [simp, store_simps]:
  "getItem (setItem k v st) j = (if j = k then Some v else getItem st j)"
  by (simp add: getItem_def setItem_def)

lemma getItem_removeItem [simp, store_simps]:
  "getItem (removeItem k st) j = (if j = k then None else getItem st j)"
  by (simp add: getItem_def removeItem_def)

subsection \<open>Tokens and codes\<close>

definition TokenKey :: string where "TokenKey = ''access_token''"
definition OidcCode :: string where "OidcCode = ''oidc_code''"
definition OidcCodeExpiry :: string where "OidcCodeExpiry = ''oidc_code_expiry''"
definition WcTokenKey :: string where "WcTokenKey = ''wc-option:local:access_token''"

definition getToken :: "storage \<Rightarrow> string option" where
  "getToken st = getItem st TokenKey"

definition setToken :: "string \<Rightarrow> storage \<Rightarrow> storage" where
  "setToken token st = setItem TokenKey token (setItem WcTokenKey token st)"

definition removeToken :: "storage \<Rightarrow> storage" where
  "removeToken st = removeItem WcTokenKey (removeItem TokenKey st)"

text \<open>\<open>now\<close> is \<open>Date.now()\<close>; the expiry is stored as its decimal text.\<close>

definition setCode :: "int \<Rightarrow> string \<Rightarrow> storage \<Rightarrow> storage" where
  "setCode now code st =
     (let expiry = now + 60 * 1000
      in setItem OidcCodeExpiry (show_int expiry) (setItem OidcCode code st))"

definition removeCode :: "storage \<Rightarrow> storage" where
  "removeCode st = removeItem OidcCodeExpiry (removeItem OidcCode st)"

text \<open>
  \<open>expiry && now > parseInt(expiry)\<close>: a missing or empty expiry is false, and so is a comparison
  with \<open>NaN\<close>.
\<close>

definition code_expired :: "storage \<Rightarrow> int \<Rightarrow> bool" where
  "code_expired st now =
     (case getItem st OidcCodeExpiry of
        None \<Rightarrow> False
      | Some e \<Rightarrow> e \<noteq> [] \<and> (case parseInt e of None \<Rightarrow> False | Some t \<Rightarrow> now > t))"

definition getCode :: "int \<Rightarrow> storage \<Rightarrow> string option \<times> storage" where
  "getCode now st =
     (if code_expired st now then (None, removeCode st) else (getItem st OidcCode, st))"

subsection \<open>The credential contract\<close>

locale credential =
  fixes read :: "'s \<Rightarrow> 'v option"
    and store :: "'v \<Rightarrow> 's \<Rightarrow> 's"
    and clear :: "'s \<Rightarrow> 's"
  assumes read_store: "read (store v s) = Some v"
    and read_clear: "read (clear s) = None"
begin

text \<open>A history is a list of writes (\<open>Some v\<close>) and clearings (\<open>None\<close>).\<close>

fun history :: "'v option list \<Rightarrow> 's \<Rightarrow> 's" where
  "history [] s = s"
| "history (None # h) s = history h (clear s)"
| "history (Some v # h) s = history h (store v s)"

lemma history_append: "history (g @ h) s = history h (history g s)"
  by (induction g s rule: history.induct) auto

lemma last_write_wins: "read (history (h @ [w]) s) = w"
  by (cases w) (simp_all add: history_append read_store read_clear)

end

lemma keys_distinct [simp]:
  "TokenKey \<noteq> WcTokenKey" "WcTokenKey \<noteq> TokenKey" "OidcCode \<noteq> OidcCodeExpiry"
  "OidcCodeExpiry \<noteq> OidcCode" "TokenKey \<noteq> OidcCode" "OidcCode \<noteq> TokenKey"
  "TokenKey \<noteq> OidcCodeExpiry" "OidcCodeExpiry \<noteq> TokenKey" "WcTokenKey \<noteq> OidcCode"
  "OidcCode \<noteq> WcTokenKey" "WcTokenKey \<noteq> OidcCodeExpiry" "OidcCodeExpiry \<noteq> WcTokenKey"
  by (simp_all add: TokenKey_def WcTokenKey_def OidcCode_def OidcCodeExpiry_def)

lemma getToken_setToken [simp, store_simps]: "getToken (setToken t st) = Some t"
  by (simp add: getToken_def setToken_def)

lemma getToken_removeToken [simp, store_simps]: "getToken (removeToken st) = None"
  by (simp add: getToken_def removeToken_def)

lemma removeToken_frame:
  "k \<noteq> TokenKey \<Longrightarrow> k \<noteq> WcTokenKey \<Longrightarrow> getItem (removeToken st) k = getItem st k"
  by (simp add: removeToken_def)

lemma getToken_frame [simp]:
  "getToken (removeCode st) = getToken st" "getToken (setCode now c st) = getToken st"
  by (simp_all add: getToken_def removeCode_def setCode_def Let_def)

lemma code_expired_setCode: "code_expired (setCode now c st) t \<longleftrightarrow> now + 60000 < t"
  by (simp add: code_expired_def setCode_def Let_def parseInt_show_int)

lemma code_expired_removeCode [simp]: "\<not> code_expired (removeCode st) t"
  by (simp add: code_expired_def removeCode_def)

lemma getItem_setCode: "getItem (setCode now c st) OidcCode = Some c"
  by (simp add: setCode_def Let_def)

lemma getItem_removeCode [simp]:
  "getItem (removeCode st) OidcCode = None" "getItem (removeCode st) OidcCodeExpiry = None"
  by (simp_all add: removeCode_def)

interpretation token: credential getToken setToken removeToken
  by unfold_locales simp_all

interpretation oidc: credential "\<lambda>st. fst (getCode now st)" "setCode now" removeCode for now
  by unfold_locales (simp_all add: getCode_def code_expired_setCode getItem_setCode)

subsection \<open>Properties\<close>

text \<open>
  An OIDC code can be read back until sixty seconds after it was stored; later reads give
  null and delete both the code and its expiry, leaving the session token alone.
\<close>

lemma oidc_code_lifetime:
  "(t \<le> now + 60000 \<longrightarrow> getCode t (setCode now c st) = (Some c, setCode now c st))
   \<and> (now + 60000 < t \<longrightarrow>
        fst (getCode t (setCode now c st)) = None
        \<and> getItem (snd (getCode t (setCode now c st))) OidcCode = None
        \<and> getItem (snd (getCode t (setCode now c st))) OidcCodeExpiry = None
        \<and> getToken (snd (getCode t (setCode now c st))) = getToken st)"
  by (simp add: getCode_def code_expired_setCode getItem_setCode)

definition token_event :: "string option \<Rightarrow> storage \<Rightarrow> storage" where
  "token_event e = (case e of None \<Rightarrow> removeToken | Some t \<Rightarrow> setToken t)"

lemma token_history: "fold token_event h st = token.history h st"
  by (induction h st rule: token.history.induct) (simp_all add: token_event_def)

text \<open>
  After any history of logins and logouts the token read back is the one of the last event,
  and a logout removes exactly the two token entries of the storage.
\<close>

lemma token_last_event:
  "getToken (fold token_event (h @ [e]) st) = e
   \<and> (\<forall>k. getItem (removeToken st) k = (if k = TokenKey \<or> k = WcTokenKey then None else getItem st k))"
proof -
  have "getToken (fold token_event (h @ [e]) st) = e"
    unfolding token_history by (rule token.last_write_wins)
  then show ?thesis by (simp add: removeToken_def)
qed

end
