(* ===== verification/Request.thy ===== *)
theory Request
  imports JsJson Auth
begin

text \<open>
  \<open>admin-ui/src/utils/request.js\<close>: the axios instance every API call goes through. The request
  interceptor adds the headers; the response interceptor unwraps the \<open>{code, message, data}\<close>
  envelope; the error interceptor reports HTTP failures. Axios itself is a library: it hands the
  interceptors a configuration, a response or an error, which are the arguments here. The side
  effects (toast, token removal, page reload) are returned as a list in the order they happen.
\<close>

subsection \<open>Configurations, responses and errors\<close>

record config =
  url :: string
  cmethod :: "string option"
  params :: jsval
  cdata :: jsval
  headers :: "string \<rightharpoonup> string"
  responseType :: "string option"
  timeout :: "nat option"
  skipErrorMessage :: bool
  skipAuthRedirect :: bool
  useServerErrorMessage :: bool

text \<open>A body is a parsed JSON value or, for \<open>responseType: 'blob'\<close>, a blob with its text.\<close>

datatype body = Json jsval | Blob string

record response =
  rconfig :: config
  contentType :: "string option"
  rdata :: body

record http_error =
  ecode :: "string option"
  emessage :: string
  econfig :: "config option"
  estatus :: "nat option"
  edata :: "body option"

datatype effect = ElMessage jsval | RemoveToken | Reload

datatype outcome =
    ResolveResponse
  | ResolveData jsval
  | RejectData jsval
  | RejectMalformed bool \<comment> \<open>the flag is \<open>interceptorHandled\<close>\<close>
  | RejectTypeError
  | RejectHttp http_error

definition default_config :: config where
  "default_config =
     \<lparr>url = [], cmethod = None, params = JUndef, cdata = JUndef, headers = Map.empty,
      responseType = None, timeout = None, skipErrorMessage = False, skipAuthRedirect = False,
      useServerErrorMessage = False\<rparr>"

subsection \<open>Helpers\<close>

definition usable_message :: "jsval \<Rightarrow> bool" where
  "usable_message m = (case m of JStr s \<Rightarrow> trim s \<noteq> [] | _ \<Rightarrow> False)"

definition getEnvelopeErrorMessage :: "jsval \<Rightarrow> jsval" where
  "getEnvelopeErrorMessage d =
     (case find usable_message [opt_prop d ''message'', opt_prop (opt_prop d ''data'') ''message''] of
        Some m \<Rightarrow> m
      | None \<Rightarrow> JStr [])"

definition redirectToLogin :: "config option \<Rightarrow> effect list" where
  "redirectToLogin c =
     (case c of
        Some c \<Rightarrow> if skipAuthRedirect c then [] else [RemoveToken, Reload]
      | None \<Rightarrow> [RemoveToken, Reload])"

definition redirectOnEnvelopeAuthFailure :: "config \<Rightarrow> jsval \<Rightarrow> effect list" where
  "redirectOnEnvelopeAuthFailure c code = (if code = JNum 403 then redirectToLogin (Some c) else [])"

definition redirectOnHttpAuthFailure :: "config option \<Rightarrow> nat option \<Rightarrow> effect list" where
  "redirectOnHttpAuthFailure c status =
     (case c of
        Some c' \<Rightarrow>
          if useServerErrorMessage c' \<and> (status = Some 401 \<or> status = Some 403)
          then redirectToLogin c else []
      | None \<Rightarrow> [])"

definition GENERIC_RESPONSE_ERROR :: jsval where
  "GENERIC_RESPONSE_ERROR = JStr ''Unable to process server response''"

text \<open>
  \<open>JSON.parse\<close> of a blob text that is outside the model (\<open>Beyond\<close>) is treated like a malformed
  text, the more defensive of the two branches.
\<close>

definition parse_blob :: "string \<Rightarrow> jsval option" where
  "parse_blob t = (case JSON_parse t of Parsed v \<Rightarrow> Some v | _ \<Rightarrow> None)"

definition getResponseErrorMessage :: "http_error \<Rightarrow> jsval" where
  "getResponseErrorMessage e =
     (case econfig e of
        None \<Rightarrow> JStr []
      | Some c \<Rightarrow>
          if \<not> useServerErrorMessage c then JStr []
          else
            (case edata e of
               None \<Rightarrow> getEnvelopeErrorMessage JUndef
             | Some (Json v) \<Rightarrow> getEnvelopeErrorMessage v
             | Some (Blob t) \<Rightarrow>
                 if responseType c = Some ''blob'' then
                   (case parse_blob t of None \<Rightarrow> JStr [] | Some v \<Rightarrow> getEnvelopeErrorMessage v)
                 else getEnvelopeErrorMessage (JObj [])))"

subsection \<open>Request interceptor\<close>

text \<open>\<open>userStore.token || getToken()\<close>, where an empty string is no token.\<close>

definition effective_token :: "string \<Rightarrow> storage \<Rightarrow> string option" where
  "effective_token store_token st =
     (if store_token \<noteq> [] then Some store_token
      else (case getToken st of Some t \<Rightarrow> if t \<noteq> [] then Some t else None | None \<Rightarrow> None))"

definition is_get :: "config \<Rightarrow> bool" where
  "is_get c = (toLowerCase (case cmethod c of Some m \<Rightarrow> if m = [] then ''get'' else m | None \<Rightarrow> ''get'') = ''get'')"

definition request_interceptor :: "string \<Rightarrow> storage \<Rightarrow> string \<Rightarrow> config \<Rightarrow> config" where
  "request_interceptor store_token st lang c =
     (let h = headers c;
          h = (case effective_token store_token st of Some t \<Rightarrow> h(''api-token'' \<mapsto> t) | None \<Rightarrow> h);
          h = (if lang \<noteq> [] then h(''Accept-Language'' \<mapsto> lang) else h);
          h = (if is_get c then h(''Cache-Control'' \<mapsto> ''no-cache'', ''Pragma'' \<mapsto> ''no-cache'') else h)
      in c\<lparr>headers := h\<rparr>)"

subsection \<open>Response interceptor\<close>

definition is_blob :: "config \<Rightarrow> bool" where
  "is_blob c = (responseType c = Some ''blob'')"

text \<open>
  The value of \<open>res.code\<close>. On \<open>null\<close> and \<open>undefined\<close> the access raises (\<open>None\<close>); on other
  values without the property it is \<open>undefined\<close>.
\<close>

definition envelope_code :: "jsval \<Rightarrow> jsval option" where
  "envelope_code res = (if nullish res then None else Some (opt_prop res ''code''))"

definition blob_response :: "config \<Rightarrow> string \<Rightarrow> outcome \<times> effect list" where
  "blob_response c text' =
     (case parse_blob text' of
        None \<Rightarrow>
          if useServerErrorMessage c \<and> \<not> skipErrorMessage c
          then (RejectMalformed True, [ElMessage GENERIC_RESPONSE_ERROR])
          else (RejectMalformed False, [])
      | Some res \<Rightarrow>
          (case envelope_code res of
             None \<Rightarrow> (RejectTypeError, [])
           | Some code \<Rightarrow>
               if code \<noteq> JNum 0 then
                 (RejectData res,
                  (if \<not> skipErrorMessage c then
                     [ElMessage (if useServerErrorMessage c
                                 then js_or (getEnvelopeErrorMessage res) GENERIC_RESPONSE_ERROR
                                 else js_or (opt_prop res ''message'') (JStr ''error''))]
                   else []) @ redirectOnEnvelopeAuthFailure c code)
               else (ResolveResponse, [])))"

definition json_response :: "config \<Rightarrow> jsval \<Rightarrow> outcome \<times> effect list" where
  "json_response c res =
     (case res of
        JArr _ \<Rightarrow> (ResolveData res, [])
      | _ \<Rightarrow>
          (case envelope_code res of
             None \<Rightarrow> (RejectTypeError, [])
           | Some code \<Rightarrow>
               if code \<noteq> JNum 0 then
                 (RejectData res,
                  (if \<not> skipErrorMessage c
                   then [ElMessage (js_or (opt_prop res ''message'') (JStr ''error''))] else [])
                  @ redirectOnEnvelopeAuthFailure c code)
               else (ResolveData res, [])))"

text \<open>
  Axios delivers a \<open>Blob\<close> exactly for \<open>responseType: 'blob'\<close>; \<open>data.text()\<close> of a parsed JSON
  value does not exist and raises, and a blob outside the blob branch has no \<open>code\<close>.
\<close>

definition response_interceptor :: "response \<Rightarrow> outcome \<times> effect list" where
  "response_interceptor r =
     (if is_blob (rconfig r) then
        (if \<not> str_includes (case contentType r of Some t \<Rightarrow> t | None \<Rightarrow> []) ''application/json''
         then (ResolveResponse, [])
         else (case rdata r of Blob t \<Rightarrow> blob_response (rconfig r) t | Json _ \<Rightarrow> (RejectTypeError, [])))
      else (case rdata r of Json v \<Rightarrow> json_response (rconfig r) v | Blob _ \<Rightarrow> json_response (rconfig r) (JObj [])))"

subsection \<open>Error interceptor\<close>

definition timeout_message :: "http_error \<Rightarrow> http_error" where
  "timeout_message e =
     (if ecode e = Some ''ECONNABORTED'' \<and> indexOf (emessage e) ''timeout'' \<noteq> None
      then e\<lparr>emessage := ''Connection Time Out!''\<rparr> else e)"

definition error_interceptor :: "http_error \<Rightarrow> outcome \<times> effect list" where
  "error_interceptor e0 =
     (let e = timeout_message e0;
          skip = (case econfig e of Some c \<Rightarrow> skipErrorMessage c | None \<Rightarrow> False);
          server = (case econfig e of Some c \<Rightarrow> useServerErrorMessage c | None \<Rightarrow> False)
      in (RejectHttp e,
          (if \<not> skip
           then [ElMessage (if server then js_or (getResponseErrorMessage e) GENERIC_RESPONSE_ERROR
                            else JStr (emessage e))]
           else []) @ redirectOnHttpAuthFailure (econfig e) (estatus e)))"

subsection \<open>The contract of an interceptor\<close>

definition toasts :: "effect list \<Rightarrow> nat" where
  "toasts es = length (filter (\<lambda>e. case e of ElMessage _ \<Rightarrow> True | _ \<Rightarrow> False) es)"

text \<open>The effect list ends a session exactly when it removes the token and then reloads.\<close>

definition ends_session :: "effect list \<Rightarrow> bool" where
  "ends_session es = (\<exists>p. es = p @ [RemoveToken, Reload])"

locale interceptor =
  fixes handle :: "'i \<Rightarrow> outcome \<times> effect list"
    and quiet :: "'i \<Rightarrow> bool"
    and keeps_session :: "'i \<Rightarrow> bool"
  assumes one_toast: "toasts (snd (handle i)) \<le> 1"
    and quiet_silent: "quiet i \<Longrightarrow> toasts (snd (handle i)) = 0"
    and no_session_end: "keeps_session i \<Longrightarrow> RemoveToken \<notin> set (snd (handle i)) \<and> Reload \<notin> set (snd (handle i))"
    and reload_clean: "Reload \<in> set (snd (handle i)) \<Longrightarrow> ends_session (snd (handle i))"
begin

definition batch :: "'i list \<Rightarrow> effect list" where
  "batch is = concat (map (\<lambda>i. snd (handle i)) is)"

lemma toasts_append: "toasts (xs @ ys) = toasts xs + toasts ys"
  by (simp add: toasts_def)

lemma batch_toasts: "toasts (batch is) \<le> length (filter (\<lambda>i. \<not> quiet i) is)"
proof (induction "is")
  case Nil
  then show ?case by (simp add: batch_def toasts_def)
next
  case (Cons i "is")
  have "toasts (snd (handle i)) \<le> (if quiet i then 0 else 1)"
    using one_toast [of i] quiet_silent [of i] by simp
  then show ?case using Cons by (auto simp: batch_def toasts_append)
qed

lemma batch_keeps_session:
  "(\<And>i. i \<in> set is \<Longrightarrow> keeps_session i) \<Longrightarrow> Reload \<notin> set (batch is) \<and> RemoveToken \<notin> set (batch is)"
  using no_session_end by (auto simp: batch_def)

end

subsection \<open>Lemmas\<close>

lemma toasts_simps [simp]:
  "toasts [] = 0" "toasts (ElMessage m # es) = Suc (toasts es)"
  "toasts (RemoveToken # es) = toasts es" "toasts (Reload # es) = toasts es"
  by (simp_all add: toasts_def)

lemma ends_session_simps [simp]:
  "ends_session [RemoveToken, Reload]" "ends_session [m, RemoveToken, Reload]"
  by (simp_all add: ends_session_def)

lemmas redirect_defs =
  redirectToLogin_def redirectOnEnvelopeAuthFailure_def redirectOnHttpAuthFailure_def

lemma timeout_message_sel [simp]:
  "econfig (timeout_message e) = econfig e" "estatus (timeout_message e) = estatus e"
  "edata (timeout_message e) = edata e" "ecode (timeout_message e) = ecode e"
  by (simp_all add: timeout_message_def)

text \<open>The effects of a response: at most a toast, then at most a redirect.\<close>

definition effects_shape :: "bool \<Rightarrow> bool \<Rightarrow> effect list \<Rightarrow> bool" where
  "effects_shape skip keep es =
     (\<exists>t r. es = t @ r \<and> (t = [] \<or> (\<not> skip \<and> (\<exists>m. t = [ElMessage m])))
        \<and> (r = [] \<or> (\<not> keep \<and> r = [RemoveToken, Reload])))"

lemma effects_shapeI:
  "es = t @ r \<Longrightarrow> t = [] \<or> (\<not> skip \<and> (\<exists>m. t = [ElMessage m])) \<Longrightarrow>
   r = [] \<or> (\<not> keep \<and> r = [RemoveToken, Reload]) \<Longrightarrow> effects_shape skip keep es"
  by (auto simp: effects_shape_def)

lemma effects_shape_Nil [simp]: "effects_shape skip keep []"
  by (simp add: effects_shape_def)

lemma effects_shape_toast [simp]: "\<not> skip \<Longrightarrow> effects_shape skip keep [ElMessage m]"
  by (rule effects_shapeI [of _ "[ElMessage m]" "[]"]) auto

lemma redirect_cases:
  "redirectOnEnvelopeAuthFailure c code = [] \<or>
   (\<not> skipAuthRedirect c \<and> redirectOnEnvelopeAuthFailure c code = [RemoveToken, Reload])"
  by (simp add: redirectOnEnvelopeAuthFailure_def redirectToLogin_def)

lemma effects_shape_redirect [simp]:
  "effects_shape skip (skipAuthRedirect c) (redirectOnEnvelopeAuthFailure c code)"
  using redirect_cases [of c code] by (auto simp: effects_shape_def)

lemma effects_shape_reject [simp]:
  "effects_shape False (skipAuthRedirect c) (ElMessage m # redirectOnEnvelopeAuthFailure c code)"
  using redirect_cases [of c code]
  by (intro effects_shapeI [of _ "[ElMessage m]" "redirectOnEnvelopeAuthFailure c code"]) auto

lemma json_response_shape:
  "effects_shape (skipErrorMessage c) (skipAuthRedirect c) (snd (json_response c res))"
  by (cases res) (simp_all add: json_response_def envelope_code_def)

lemma blob_response_shape:
  "effects_shape (skipErrorMessage c) (skipAuthRedirect c) (snd (blob_response c t))"
  by (simp add: blob_response_def split: option.split)

lemma response_shape:
  "effects_shape (skipErrorMessage (rconfig r)) (skipAuthRedirect (rconfig r)) (snd (response_interceptor r))"
  using json_response_shape blob_response_shape
  by (simp add: response_interceptor_def split: body.split)

lemma error_shape:
  "effects_shape (case econfig e of Some c \<Rightarrow> skipErrorMessage c | None \<Rightarrow> False)
     (case econfig e of Some c \<Rightarrow> skipAuthRedirect c \<or> \<not> useServerErrorMessage c | None \<Rightarrow> True)
     (snd (error_interceptor e))"
  unfolding effects_shape_def error_interceptor_def Let_def snd_conv
  by (rule exI, rule exI, rule conjI, rule refl)
    (auto simp: redirect_defs split: option.splits)

lemma effects_shape_laws:
  assumes "effects_shape skip keep es"
  shows "toasts es \<le> 1" "skip \<Longrightarrow> toasts es = 0"
    "keep \<Longrightarrow> RemoveToken \<notin> set es \<and> Reload \<notin> set es" "Reload \<in> set es \<Longrightarrow> ends_session es"
  using assms by (auto simp: effects_shape_def)

text \<open>The response whose configuration asks for silence, and the one that keeps the session.\<close>

definition response_quiet :: "response \<Rightarrow> bool" where
  "response_quiet r = skipErrorMessage (rconfig r)"

definition response_keeps :: "response \<Rightarrow> bool" where
  "response_keeps r = skipAuthRedirect (rconfig r)"

definition error_quiet :: "http_error \<Rightarrow> bool" where
  "error_quiet e = (case econfig e of Some c \<Rightarrow> skipErrorMessage c | None \<Rightarrow> False)"

definition error_keeps :: "http_error \<Rightarrow> bool" where
  "error_keeps e = (case econfig e of Some c \<Rightarrow> skipAuthRedirect c \<or> \<not> useServerErrorMessage c | None \<Rightarrow> True)"

interpretation resp: interceptor response_interceptor response_quiet response_keeps
  using effects_shape_laws [OF response_shape]
  by unfold_locales (auto simp: response_quiet_def response_keeps_def)

interpretation err: interceptor error_interceptor error_quiet error_keeps
  using effects_shape_laws [OF error_shape]
  by unfold_locales (auto simp: error_quiet_def error_keeps_def)

subsection \<open>Properties\<close>

text \<open>
  Over any batch of responses at most one toast is shown per response that does not ask for
  silence, none for the others, and the same holds for HTTP errors.
\<close>

lemma interceptor_toasts:
  "toasts (concat (map (\<lambda>r. snd (response_interceptor r)) rs)) \<le> length (filter (\<lambda>r. \<not> skipErrorMessage (rconfig r)) rs)
   \<and> toasts (concat (map (\<lambda>e. snd (error_interceptor e)) es))
       \<le> length (filter (\<lambda>e. case econfig e of Some c \<Rightarrow> \<not> skipErrorMessage c | None \<Rightarrow> True) es)"
proof -
  have e: "(\<lambda>e. case econfig e of Some c \<Rightarrow> \<not> skipErrorMessage c | None \<Rightarrow> True) = (\<lambda>e. \<not> error_quiet e)"
    by (rule ext) (simp add: error_quiet_def split: option.split)
  show ?thesis unfolding e
    using resp.batch_toasts [of rs] err.batch_toasts [of es]
    by (simp add: resp.batch_def err.batch_def response_quiet_def)
qed

text \<open>
  A JSON body resolves exactly when it is an array or an envelope whose code is the number
  zero; a download resolves exactly when it is not JSON or its envelope has code zero, so a failed
  download is never handed on as a file.
\<close>

lemma response_resolves:
  assumes "rdata r = (if is_blob (rconfig r) then Blob t else Json v)"
  shows "fst (response_interceptor r) \<in> {ResolveResponse, ResolveData v} \<longleftrightarrow>
    (if is_blob (rconfig r)
     then \<not> str_includes (case contentType r of Some ct \<Rightarrow> ct | None \<Rightarrow> []) ''application/json''
          \<or> (\<exists>res. parse_blob t = Some res \<and> \<not> nullish res \<and> opt_prop res ''code'' = JNum 0)
     else (\<exists>xs. v = JArr xs) \<or> (\<not> nullish v \<and> opt_prop v ''code'' = JNum 0))"
proof (cases "is_blob (rconfig r)")
  case True
  then show ?thesis using assms
    by (simp add: response_interceptor_def blob_response_def envelope_code_def split: option.split)
next
  case False
  then show ?thesis using assms
    by (cases v) (simp_all add: response_interceptor_def json_response_def envelope_code_def)
qed



text \<open>
  A request carries the token of the user store when there is one, else the stored token,
  else none; it carries the language when one is set; and it forbids caching when it is a GET.
  Nothing else of the configuration changes.
\<close>

lemma request_headers:
  assumes "headers c = Map.empty"
  shows "headers (request_interceptor tok st lang c) ''api-token'' = effective_token tok st
    \<and> headers (request_interceptor tok st lang c) ''Accept-Language'' = (if lang = [] then None else Some lang)
    \<and> (headers (request_interceptor tok st lang c) ''Cache-Control'' = Some ''no-cache'' \<longleftrightarrow> is_get c)
    \<and> (request_interceptor tok st lang c)\<lparr>headers := headers c\<rparr> = c"
  using assms by (simp add: request_interceptor_def Let_def split: option.split)

end
