(* ===== verification/Api.thy ===== *)
theory Api
  imports Request
begin

text \<open>
  \<open>admin-ui/src/api/*.js\<close>: one request descriptor per exported function, as handed to the axios
  instance of \<open>utils/request.js\<close>. The descriptors of \<open>api/my/*.js\<close> are the personal API; the
  others are the administrator's and the public ones. \<open>admin_api\<close> and \<open>my_api\<close> list them all.
\<close>

subsection \<open>api/address_book.js\<close>

definition address_book_list :: "jsval \<Rightarrow> config" where
  "address_book_list ps =
     default_config\<lparr>url := ''/address_book/list'', params := ps\<rparr>"

definition address_book_detail :: "jsval \<Rightarrow> config" where
  "address_book_detail i =
     default_config\<lparr>url := ''/address_book/detail/'' @ toStr i\<rparr>"

definition address_book_create :: "jsval \<Rightarrow> config" where
  "address_book_create data =
     default_config\<lparr>url := ''/address_book/create'', cmethod := Some ''post'', cdata := data\<rparr>"

definition address_book_update :: "jsval \<Rightarrow> config" where
  "address_book_update data =
     default_config\<lparr>url := ''/address_book/update'', cmethod := Some ''post'', cdata := data\<rparr>"

definition address_book_remove :: "jsval \<Rightarrow> config" where
  "address_book_remove data =
     default_config\<lparr>url := ''/address_book/delete'', cmethod := Some ''post'', cdata := data\<rparr>"

definition address_book_batchCreate :: "jsval \<Rightarrow> config" where
  "address_book_batchCreate data =
     default_config\<lparr>url := ''/address_book/batchCreate'', cmethod := Some ''post'', cdata := data\<rparr>"

definition address_book_shareByWebClient :: "jsval \<Rightarrow> config" where
  "address_book_shareByWebClient data =
     default_config\<lparr>url := ''/address_book/shareByWebClient'', cmethod := Some ''post'', cdata := data\<rparr>"

definition address_book_batchCreateFromPeers :: "jsval \<Rightarrow> config" where
  "address_book_batchCreateFromPeers data =
     default_config\<lparr>url := ''/address_book/batchCreateFromPeers'', cmethod := Some ''post'', cdata := data\<rparr>"

subsection \<open>api/address_book_collection.js\<close>

definition address_book_collection_list :: "jsval \<Rightarrow> config" where
  "address_book_collection_list ps =
     default_config\<lparr>url := ''/address_book_collection/list'', params := ps\<rparr>"

definition address_book_collection_detail :: "jsval \<Rightarrow> config" where
  "address_book_collection_detail i =
     default_config\<lparr>url := ''/address_book_collection/detail/'' @ toStr i\<rparr>"

definition address_book_collection_create :: "jsval \<Rightarrow> config" where
  "address_book_collection_create data =
     default_config\<lparr>url := ''/address_book_collection/create'', cmethod := Some ''post'', cdata := data\<rparr>"

definition address_book_collection_update :: "jsval \<Rightarrow> config" where
  "address_book_collection_update data =
     default_config\<lparr>url := ''/address_book_collection/update'', cmethod := Some ''post'', cdata := data\<rparr>"

definition address_book_collection_remove :: "jsval \<Rightarrow> config" where
  "address_book_collection_remove data =
     default_config\<lparr>url := ''/address_book_collection/delete'', cmethod := Some ''post'', cdata := data\<rparr>"

subsection \<open>api/address_book_collection_rule.js\<close>

definition address_book_collection_rule_list :: "jsval \<Rightarrow> config" where
  "address_book_collection_rule_list ps =
     default_config\<lparr>url := ''/address_book_collection_rule/list'', params := ps\<rparr>"

definition address_book_collection_rule_detail :: "jsval \<Rightarrow> config" where
  "address_book_collection_rule_detail i =
     default_config\<lparr>url := ''/address_book_collection_rule/detail/'' @ toStr i\<rparr>"

definition address_book_collection_rule_create :: "jsval \<Rightarrow> config" where
  "address_book_collection_rule_create data =
     default_config\<lparr>url := ''/address_book_collection_rule/create'', cmethod := Some ''post'', cdata := data\<rparr>"

definition address_book_collection_rule_update :: "jsval \<Rightarrow> config" where
  "address_book_collection_rule_update data =
     default_config\<lparr>url := ''/address_book_collection_rule/update'', cmethod := Some ''post'', cdata := data\<rparr>"

definition address_book_collection_rule_remove :: "jsval \<Rightarrow> config" where
  "address_book_collection_rule_remove data =
     default_config\<lparr>url := ''/address_book_collection_rule/delete'', cmethod := Some ''post'', cdata := data\<rparr>"

definition address_book_collection_rule_batchCreate :: "jsval \<Rightarrow> config" where
  "address_book_collection_rule_batchCreate data =
     default_config\<lparr>url := ''/address_book_collection_rule/batchCreate'', cmethod := Some ''post'', cdata := data\<rparr>"

subsection \<open>api/audit.js\<close>

definition audit_list :: "jsval \<Rightarrow> config" where
  "audit_list ps =
     default_config\<lparr>url := ''/audit_conn/list'', params := ps\<rparr>"

definition audit_remove :: "jsval \<Rightarrow> config" where
  "audit_remove data =
     default_config\<lparr>url := ''/audit_conn/delete'', cmethod := Some ''post'', cdata := data\<rparr>"

definition audit_batchDelete :: "jsval \<Rightarrow> config" where
  "audit_batchDelete data =
     default_config\<lparr>url := ''/audit_conn/batchDelete'', cmethod := Some ''post'', cdata := data\<rparr>"

definition audit_fileList :: "jsval \<Rightarrow> config" where
  "audit_fileList ps =
     default_config\<lparr>url := ''/audit_file/list'', params := ps\<rparr>"

definition audit_fileRemove :: "jsval \<Rightarrow> config" where
  "audit_fileRemove data =
     default_config\<lparr>url := ''/audit_file/delete'', cmethod := Some ''post'', cdata := data\<rparr>"

definition audit_fileBatchDelete :: "jsval \<Rightarrow> config" where
  "audit_fileBatchDelete data =
     default_config\<lparr>url := ''/audit_file/batchDelete'', cmethod := Some ''post'', cdata := data\<rparr>"

subsection \<open>api/config.js\<close>

definition config_server :: "config" where
  "config_server =
     default_config\<lparr>url := ''/config/server'', cmethod := Some ''get''\<rparr>"

definition config_app :: "config" where
  "config_app =
     default_config\<lparr>url := ''/config/app'', cmethod := Some ''get''\<rparr>"

definition config_admin :: "config" where
  "config_admin =
     default_config\<lparr>url := ''/config/admin'', cmethod := Some ''get''\<rparr>"

definition config_all :: "config" where
  "config_all =
     default_config\<lparr>url := ''/config/all'', cmethod := Some ''get''\<rparr>"

definition config_serverAddresses :: "config" where
  "config_serverAddresses =
     default_config\<lparr>url := ''/config/server_addresses'', cmethod := Some ''get'', skipErrorMessage := True, useServerErrorMessage := True\<rparr>"

subsection \<open>api/custom_client.js\<close>

definition custom_client_list :: "jsval \<Rightarrow> config" where
  "custom_client_list ps =
     default_config\<lparr>url := ''/custom_build/list'', params := ps\<rparr>"

definition custom_client_create :: "jsval \<Rightarrow> config" where
  "custom_client_create data =
     default_config\<lparr>url := ''/custom_build/create'', cmethod := Some ''post'', cdata := data, useServerErrorMessage := True\<rparr>"

definition custom_client_remove :: "jsval \<Rightarrow> config" where
  "custom_client_remove data =
     default_config\<lparr>url := ''/custom_build/delete'', cmethod := Some ''post'', cdata := data\<rparr>"

definition custom_client_download :: "jsval \<Rightarrow> config" where
  "custom_client_download i =
     default_config\<lparr>url := ''/custom_build/download/'' @ toStr i, responseType := Some ''blob'', useServerErrorMessage := True\<rparr>"

definition custom_client_getVersions :: "config" where
  "custom_client_getVersions =
     default_config\<lparr>url := ''/custom_build/versions'', skipErrorMessage := True, useServerErrorMessage := True\<rparr>"

subsection \<open>api/custom_preset.js\<close>

definition custom_preset_list :: "jsval \<Rightarrow> config" where
  "custom_preset_list ps =
     default_config\<lparr>url := ''/custom_preset/list'', params := ps\<rparr>"

definition custom_preset_detail :: "jsval \<Rightarrow> config" where
  "custom_preset_detail i =
     default_config\<lparr>url := ''/custom_preset/detail/'' @ toStr i\<rparr>"

definition custom_preset_create :: "jsval \<Rightarrow> config" where
  "custom_preset_create data =
     default_config\<lparr>url := ''/custom_preset/create'', cmethod := Some ''post'', cdata := data, useServerErrorMessage := True\<rparr>"

definition custom_preset_update :: "jsval \<Rightarrow> config" where
  "custom_preset_update data =
     default_config\<lparr>url := ''/custom_preset/update'', cmethod := Some ''post'', cdata := data\<rparr>"

definition custom_preset_remove :: "jsval \<Rightarrow> config" where
  "custom_preset_remove data =
     default_config\<lparr>url := ''/custom_preset/delete'', cmethod := Some ''post'', cdata := data\<rparr>"

subsection \<open>api/dashboard.js\<close>

definition dashboard_stats :: "config" where
  "dashboard_stats =
     default_config\<lparr>url := ''/dashboard/stats'', cmethod := Some ''get''\<rparr>"

definition dashboard_health :: "config" where
  "dashboard_health =
     default_config\<lparr>url := ''/dashboard/health'', cmethod := Some ''get''\<rparr>"

subsection \<open>api/device_group.js\<close>

definition device_group_list :: "jsval \<Rightarrow> config" where
  "device_group_list ps =
     default_config\<lparr>url := ''/device_group/list'', params := ps\<rparr>"

definition device_group_detail :: "jsval \<Rightarrow> config" where
  "device_group_detail i =
     default_config\<lparr>url := ''/device_group/detail/'' @ toStr i\<rparr>"

definition device_group_create :: "jsval \<Rightarrow> config" where
  "device_group_create data =
     default_config\<lparr>url := ''/device_group/create'', cmethod := Some ''post'', cdata := data\<rparr>"

definition device_group_update :: "jsval \<Rightarrow> config" where
  "device_group_update data =
     default_config\<lparr>url := ''/device_group/update'', cmethod := Some ''post'', cdata := data\<rparr>"

definition device_group_remove :: "jsval \<Rightarrow> config" where
  "device_group_remove data =
     default_config\<lparr>url := ''/device_group/delete'', cmethod := Some ''post'', cdata := data\<rparr>"

subsection \<open>api/file.js\<close>

definition file_upload :: "jsval \<Rightarrow> config" where
  "file_upload formData =
     default_config\<lparr>url := ''/file/upload'', cmethod := Some ''post'', cdata := formData, headers := [''Content-Type'' \<mapsto> ''multipart/form-data''], skipErrorMessage := True\<rparr>"

subsection \<open>api/github_build_config.js\<close>

definition github_build_config_get :: "config" where
  "github_build_config_get =
     default_config\<lparr>url := ''/github_build_config/get'', skipErrorMessage := True, useServerErrorMessage := True\<rparr>"

definition github_build_config_save :: "jsval \<Rightarrow> config" where
  "github_build_config_save data =
     default_config\<lparr>url := ''/github_build_config/save'', cmethod := Some ''post'', cdata := data, skipErrorMessage := True, useServerErrorMessage := True\<rparr>"

definition github_build_config_getWorkflowTags :: "config" where
  "github_build_config_getWorkflowTags =
     default_config\<lparr>url := ''/github_build_config/workflow_tags'', skipErrorMessage := True, useServerErrorMessage := True\<rparr>"

definition github_build_config_approveWorkflowRef :: "jsval \<Rightarrow> config" where
  "github_build_config_approveWorkflowRef workflowTag =
     default_config\<lparr>url := ''/github_build_config/approve_workflow_ref'', cmethod := Some ''post'', cdata := JObj [(''confirm'', JBool True), (''workflow_tag'', workflowTag)], skipErrorMessage := True, useServerErrorMessage := True\<rparr>"

definition github_build_config_generateKey :: "config" where
  "github_build_config_generateKey =
     default_config\<lparr>url := ''/github_build_config/generate_key'', cmethod := Some ''post'', skipErrorMessage := True, useServerErrorMessage := True\<rparr>"

definition github_build_config_test :: "config" where
  "github_build_config_test =
     default_config\<lparr>url := ''/github_build_config/test'', cmethod := Some ''post'', skipErrorMessage := True, useServerErrorMessage := True\<rparr>"

definition github_build_config_syncSecret :: "config" where
  "github_build_config_syncSecret =
     default_config\<lparr>url := ''/github_build_config/sync_secret'', cmethod := Some ''post'', skipErrorMessage := True, useServerErrorMessage := True\<rparr>"

definition github_build_config_dispatchTest :: "config" where
  "github_build_config_dispatchTest =
     default_config\<lparr>url := ''/github_build_config/dispatch_test'', cmethod := Some ''post'', cdata := JObj [(''confirm'', JBool True)], skipErrorMessage := True, useServerErrorMessage := True\<rparr>"

subsection \<open>api/group.js\<close>

definition group_list :: "jsval \<Rightarrow> config" where
  "group_list ps =
     default_config\<lparr>url := ''/group/list'', params := ps\<rparr>"

definition group_detail :: "jsval \<Rightarrow> config" where
  "group_detail i =
     default_config\<lparr>url := ''/group/detail/'' @ toStr i\<rparr>"

definition group_create :: "jsval \<Rightarrow> config" where
  "group_create data =
     default_config\<lparr>url := ''/group/create'', cmethod := Some ''post'', cdata := data\<rparr>"

definition group_update :: "jsval \<Rightarrow> config" where
  "group_update data =
     default_config\<lparr>url := ''/group/update'', cmethod := Some ''post'', cdata := data\<rparr>"

definition group_remove :: "jsval \<Rightarrow> config" where
  "group_remove data =
     default_config\<lparr>url := ''/group/delete'', cmethod := Some ''post'', cdata := data\<rparr>"

subsection \<open>api/login.js\<close>

definition login_loginOptions :: "config" where
  "login_loginOptions =
     default_config\<lparr>url := ''/login-options'', cmethod := Some ''get''\<rparr>"

definition login_oidcAuth :: "jsval \<Rightarrow> config" where
  "login_oidcAuth data =
     default_config\<lparr>url := ''/oidc/auth'', cmethod := Some ''post'', cdata := data\<rparr>"

definition login_oidcQuery :: "jsval \<Rightarrow> config" where
  "login_oidcQuery ps =
     default_config\<lparr>url := ''/oidc/auth-query'', cmethod := Some ''get'', params := ps\<rparr>"

definition login_captcha :: "config" where
  "login_captcha =
     default_config\<lparr>url := ''/captcha'', cmethod := Some ''get''\<rparr>"

subsection \<open>api/login_log.js\<close>

definition login_log_list :: "jsval \<Rightarrow> config" where
  "login_log_list ps =
     default_config\<lparr>url := ''/login_log/list'', params := ps\<rparr>"

definition login_log_remove :: "jsval \<Rightarrow> config" where
  "login_log_remove data =
     default_config\<lparr>url := ''/login_log/delete'', cmethod := Some ''post'', cdata := data\<rparr>"

definition login_log_batchDelete :: "jsval \<Rightarrow> config" where
  "login_log_batchDelete data =
     default_config\<lparr>url := ''/login_log/batchDelete'', cmethod := Some ''post'', cdata := data\<rparr>"

subsection \<open>api/oauth.js\<close>

definition oauth_info :: "jsval \<Rightarrow> config" where
  "oauth_info ps =
     default_config\<lparr>url := ''/oauth/info'', params := ps\<rparr>"

definition oauth_confirm :: "jsval \<Rightarrow> config" where
  "oauth_confirm data =
     default_config\<lparr>url := ''/oauth/confirm'', cmethod := Some ''post'', cdata := data\<rparr>"

definition oauth_bind :: "jsval \<Rightarrow> config" where
  "oauth_bind data =
     default_config\<lparr>url := ''/oauth/bind'', cmethod := Some ''post'', cdata := data\<rparr>"

definition oauth_bindConfirm :: "jsval \<Rightarrow> config" where
  "oauth_bindConfirm data =
     default_config\<lparr>url := ''/oauth/bindConfirm'', cmethod := Some ''post'', cdata := data\<rparr>"

definition oauth_unbind :: "jsval \<Rightarrow> config" where
  "oauth_unbind data =
     default_config\<lparr>url := ''/oauth/unbind'', cmethod := Some ''post'', cdata := data\<rparr>"

definition oauth_list :: "jsval \<Rightarrow> config" where
  "oauth_list ps =
     default_config\<lparr>url := ''/oauth/list'', params := ps\<rparr>"

definition oauth_detail :: "jsval \<Rightarrow> config" where
  "oauth_detail i =
     default_config\<lparr>url := ''/oauth/detail/'' @ toStr i\<rparr>"

definition oauth_create :: "jsval \<Rightarrow> config" where
  "oauth_create data =
     default_config\<lparr>url := ''/oauth/create'', cmethod := Some ''post'', cdata := data\<rparr>"

definition oauth_update :: "jsval \<Rightarrow> config" where
  "oauth_update data =
     default_config\<lparr>url := ''/oauth/update'', cmethod := Some ''post'', cdata := data\<rparr>"

definition oauth_remove :: "jsval \<Rightarrow> config" where
  "oauth_remove data =
     default_config\<lparr>url := ''/oauth/delete'', cmethod := Some ''post'', cdata := data\<rparr>"

subsection \<open>api/peer.js\<close>

definition peer_list :: "jsval \<Rightarrow> config" where
  "peer_list ps =
     default_config\<lparr>url := ''/peer/list'', params := ps\<rparr>"

definition peer_detail :: "jsval \<Rightarrow> config" where
  "peer_detail i =
     default_config\<lparr>url := ''/peer/detail/'' @ toStr i\<rparr>"

definition peer_create :: "jsval \<Rightarrow> config" where
  "peer_create data =
     default_config\<lparr>url := ''/peer/create'', cmethod := Some ''post'', cdata := data\<rparr>"

definition peer_update :: "jsval \<Rightarrow> config" where
  "peer_update data =
     default_config\<lparr>url := ''/peer/update'', cmethod := Some ''post'', cdata := data\<rparr>"

definition peer_remove :: "jsval \<Rightarrow> config" where
  "peer_remove data =
     default_config\<lparr>url := ''/peer/delete'', cmethod := Some ''post'', cdata := data\<rparr>"

definition peer_batchRemove :: "jsval \<Rightarrow> config" where
  "peer_batchRemove data =
     default_config\<lparr>url := ''/peer/batchDelete'', cmethod := Some ''post'', cdata := data\<rparr>"

definition peer_simpleData :: "jsval \<Rightarrow> config" where
  "peer_simpleData data =
     default_config\<lparr>url := ''/peer/simpleData'', cmethod := Some ''post'', cdata := data\<rparr>"

subsection \<open>api/rustdesk.js\<close>

definition rustdesk_list :: "jsval \<Rightarrow> config" where
  "rustdesk_list ps =
     default_config\<lparr>url := ''/rustdesk/cmdList'', params := ps\<rparr>"

definition rustdesk_create :: "jsval \<Rightarrow> config" where
  "rustdesk_create data =
     default_config\<lparr>url := ''/rustdesk/cmdCreate'', cmethod := Some ''post'', cdata := data\<rparr>"

definition rustdesk_update :: "jsval \<Rightarrow> config" where
  "rustdesk_update data =
     default_config\<lparr>url := ''/rustdesk/cmdUpdate'', cmethod := Some ''post'', cdata := data\<rparr>"

definition rustdesk_remove :: "jsval \<Rightarrow> config" where
  "rustdesk_remove data =
     default_config\<lparr>url := ''/rustdesk/cmdDelete'', cmethod := Some ''post'', cdata := data\<rparr>"

definition rustdesk_sendCmd :: "jsval \<Rightarrow> config" where
  "rustdesk_sendCmd data =
     default_config\<lparr>url := ''/rustdesk/sendCmd'', cmethod := Some ''post'', cdata := data\<rparr>"

subsection \<open>api/share_record.js\<close>

definition share_record_list :: "jsval \<Rightarrow> config" where
  "share_record_list ps =
     default_config\<lparr>url := ''/share_record/list'', params := ps\<rparr>"

definition share_record_remove :: "jsval \<Rightarrow> config" where
  "share_record_remove data =
     default_config\<lparr>url := ''/share_record/delete'', cmethod := Some ''post'', cdata := data\<rparr>"

definition share_record_batchDelete :: "jsval \<Rightarrow> config" where
  "share_record_batchDelete data =
     default_config\<lparr>url := ''/share_record/batchDelete'', cmethod := Some ''post'', cdata := data\<rparr>"

subsection \<open>api/tag.js\<close>

definition tag_list :: "jsval \<Rightarrow> config" where
  "tag_list ps =
     default_config\<lparr>url := ''/tag/list'', params := ps\<rparr>"

definition tag_detail :: "jsval \<Rightarrow> config" where
  "tag_detail i =
     default_config\<lparr>url := ''/tag/detail/'' @ toStr i\<rparr>"

definition tag_create :: "jsval \<Rightarrow> config" where
  "tag_create data =
     default_config\<lparr>url := ''/tag/create'', cmethod := Some ''post'', cdata := data\<rparr>"

definition tag_update :: "jsval \<Rightarrow> config" where
  "tag_update data =
     default_config\<lparr>url := ''/tag/update'', cmethod := Some ''post'', cdata := data\<rparr>"

definition tag_remove :: "jsval \<Rightarrow> config" where
  "tag_remove data =
     default_config\<lparr>url := ''/tag/delete'', cmethod := Some ''post'', cdata := data\<rparr>"

subsection \<open>api/user.js\<close>

definition user_login :: "jsval \<Rightarrow> config" where
  "user_login data =
     default_config\<lparr>url := ''/login'', cmethod := Some ''post'', cdata := data\<rparr>"

definition user_logout :: "config" where
  "user_logout =
     default_config\<lparr>url := ''/logout'', cmethod := Some ''post'', timeout := Some 5000, skipErrorMessage := True, skipAuthRedirect := True\<rparr>"

definition user_current :: "config" where
  "user_current =
     default_config\<lparr>url := ''/user/current'', cmethod := Some ''get''\<rparr>"

definition user_list :: "jsval \<Rightarrow> config" where
  "user_list ps =
     default_config\<lparr>url := ''/user/list'', params := ps\<rparr>"

definition user_detail :: "jsval \<Rightarrow> config" where
  "user_detail i =
     default_config\<lparr>url := ''/user/detail/'' @ toStr i\<rparr>"

definition user_create :: "jsval \<Rightarrow> config" where
  "user_create data =
     default_config\<lparr>url := ''/user/create'', cmethod := Some ''post'', cdata := data\<rparr>"

definition user_update :: "jsval \<Rightarrow> config" where
  "user_update data =
     default_config\<lparr>url := ''/user/update'', cmethod := Some ''post'', cdata := data\<rparr>"

definition user_remove :: "jsval \<Rightarrow> config" where
  "user_remove data =
     default_config\<lparr>url := ''/user/delete'', cmethod := Some ''post'', cdata := data\<rparr>"

definition user_changePwd :: "jsval \<Rightarrow> config" where
  "user_changePwd data =
     default_config\<lparr>url := ''/user/changePwd'', cmethod := Some ''post'', cdata := data\<rparr>"

definition user_changeCurPwd :: "jsval \<Rightarrow> config" where
  "user_changeCurPwd data =
     default_config\<lparr>url := ''/user/changeCurPwd'', cmethod := Some ''post'', cdata := data\<rparr>"

definition user_myOauth :: "config" where
  "user_myOauth =
     default_config\<lparr>url := ''/user/myOauth'', cmethod := Some ''post''\<rparr>"

definition user_updateCurrent :: "jsval \<Rightarrow> config" where
  "user_updateCurrent data =
     default_config\<lparr>url := ''/user/updateCurrent'', cmethod := Some ''post'', cdata := data\<rparr>"

definition user_myPeer :: "jsval \<Rightarrow> config" where
  "user_myPeer ps =
     default_config\<lparr>url := ''/user/myPeer'', params := ps\<rparr>"

definition user_groupUsers :: "jsval \<Rightarrow> config" where
  "user_groupUsers data =
     default_config\<lparr>url := ''/user/groupUsers'', cmethod := Some ''post'', cdata := data\<rparr>"

definition user_register :: "jsval \<Rightarrow> config" where
  "user_register data =
     default_config\<lparr>url := ''/user/register'', cmethod := Some ''post'', cdata := data\<rparr>"

subsection \<open>api/user_token.js\<close>

definition user_token_list :: "jsval \<Rightarrow> config" where
  "user_token_list ps =
     default_config\<lparr>url := ''/user_token/list'', params := ps\<rparr>"

definition user_token_remove :: "jsval \<Rightarrow> config" where
  "user_token_remove data =
     default_config\<lparr>url := ''/user_token/delete'', cmethod := Some ''post'', cdata := data\<rparr>"

definition user_token_batchRemove :: "jsval \<Rightarrow> config" where
  "user_token_batchRemove data =
     default_config\<lparr>url := ''/user_token/batchDelete'', cmethod := Some ''post'', cdata := data\<rparr>"

subsection \<open>api/my/address_book.js\<close>

definition my_address_book_list :: "jsval \<Rightarrow> config" where
  "my_address_book_list ps =
     default_config\<lparr>url := ''/my/address_book/list'', params := ps\<rparr>"

definition my_address_book_batchCreateFromPeers :: "jsval \<Rightarrow> config" where
  "my_address_book_batchCreateFromPeers data =
     default_config\<lparr>url := ''/my/address_book/batchCreateFromPeers'', cmethod := Some ''post'', cdata := data\<rparr>"

definition my_address_book_batchUpdateTags :: "jsval \<Rightarrow> config" where
  "my_address_book_batchUpdateTags data =
     default_config\<lparr>url := ''/my/address_book/batchUpdateTags'', cmethod := Some ''post'', cdata := data\<rparr>"

definition my_address_book_create :: "jsval \<Rightarrow> config" where
  "my_address_book_create data =
     default_config\<lparr>url := ''/my/address_book/create'', cmethod := Some ''post'', cdata := data\<rparr>"

definition my_address_book_update :: "jsval \<Rightarrow> config" where
  "my_address_book_update data =
     default_config\<lparr>url := ''/my/address_book/update'', cmethod := Some ''post'', cdata := data\<rparr>"

definition my_address_book_remove :: "jsval \<Rightarrow> config" where
  "my_address_book_remove data =
     default_config\<lparr>url := ''/my/address_book/delete'', cmethod := Some ''post'', cdata := data\<rparr>"

subsection \<open>api/my/address_book_collection.js\<close>

definition my_address_book_collection_list :: "jsval \<Rightarrow> config" where
  "my_address_book_collection_list ps =
     default_config\<lparr>url := ''/my/address_book_collection/list'', params := ps\<rparr>"

definition my_address_book_collection_create :: "jsval \<Rightarrow> config" where
  "my_address_book_collection_create data =
     default_config\<lparr>url := ''/my/address_book_collection/create'', cmethod := Some ''post'', cdata := data\<rparr>"

definition my_address_book_collection_update :: "jsval \<Rightarrow> config" where
  "my_address_book_collection_update data =
     default_config\<lparr>url := ''/my/address_book_collection/update'', cmethod := Some ''post'', cdata := data\<rparr>"

definition my_address_book_collection_remove :: "jsval \<Rightarrow> config" where
  "my_address_book_collection_remove data =
     default_config\<lparr>url := ''/my/address_book_collection/delete'', cmethod := Some ''post'', cdata := data\<rparr>"

subsection \<open>api/my/address_book_collection_rule.js\<close>

definition my_address_book_collection_rule_list :: "jsval \<Rightarrow> config" where
  "my_address_book_collection_rule_list ps =
     default_config\<lparr>url := ''/my/address_book_collection_rule/list'', params := ps\<rparr>"

definition my_address_book_collection_rule_create :: "jsval \<Rightarrow> config" where
  "my_address_book_collection_rule_create data =
     default_config\<lparr>url := ''/my/address_book_collection_rule/create'', cmethod := Some ''post'', cdata := data\<rparr>"

definition my_address_book_collection_rule_update :: "jsval \<Rightarrow> config" where
  "my_address_book_collection_rule_update data =
     default_config\<lparr>url := ''/my/address_book_collection_rule/update'', cmethod := Some ''post'', cdata := data\<rparr>"

definition my_address_book_collection_rule_remove :: "jsval \<Rightarrow> config" where
  "my_address_book_collection_rule_remove data =
     default_config\<lparr>url := ''/my/address_book_collection_rule/delete'', cmethod := Some ''post'', cdata := data\<rparr>"

definition my_address_book_collection_rule_batchCreate :: "jsval \<Rightarrow> config" where
  "my_address_book_collection_rule_batchCreate data =
     default_config\<lparr>url := ''/my/address_book_collection_rule/batchCreate'', cmethod := Some ''post'', cdata := data\<rparr>"

subsection \<open>api/my/login_log.js\<close>

definition my_login_log_list :: "jsval \<Rightarrow> config" where
  "my_login_log_list ps =
     default_config\<lparr>url := ''/my/login_log/list'', params := ps\<rparr>"

definition my_login_log_remove :: "jsval \<Rightarrow> config" where
  "my_login_log_remove data =
     default_config\<lparr>url := ''/my/login_log/delete'', cmethod := Some ''post'', cdata := data\<rparr>"

definition my_login_log_batchDelete :: "jsval \<Rightarrow> config" where
  "my_login_log_batchDelete data =
     default_config\<lparr>url := ''/my/login_log/batchDelete'', cmethod := Some ''post'', cdata := data\<rparr>"

subsection \<open>api/my/peer.js\<close>

definition my_peer_list :: "jsval \<Rightarrow> config" where
  "my_peer_list ps =
     default_config\<lparr>url := ''/my/peer/list'', params := ps\<rparr>"

definition my_peer_remove :: "jsval \<Rightarrow> config" where
  "my_peer_remove data =
     default_config\<lparr>url := ''/my/peer/delete'', cmethod := Some ''post'', cdata := data\<rparr>"

definition my_peer_batchRemove :: "jsval \<Rightarrow> config" where
  "my_peer_batchRemove data =
     default_config\<lparr>url := ''/my/peer/batchDelete'', cmethod := Some ''post'', cdata := data\<rparr>"

subsection \<open>api/my/share_record.js\<close>

definition my_share_record_list :: "jsval \<Rightarrow> config" where
  "my_share_record_list ps =
     default_config\<lparr>url := ''/my/share_record/list'', params := ps\<rparr>"

definition my_share_record_remove :: "jsval \<Rightarrow> config" where
  "my_share_record_remove data =
     default_config\<lparr>url := ''/my/share_record/delete'', cmethod := Some ''post'', cdata := data\<rparr>"

definition my_share_record_batchDelete :: "jsval \<Rightarrow> config" where
  "my_share_record_batchDelete data =
     default_config\<lparr>url := ''/my/share_record/batchDelete'', cmethod := Some ''post'', cdata := data\<rparr>"

subsection \<open>api/my/tag.js\<close>

definition my_tag_list :: "jsval \<Rightarrow> config" where
  "my_tag_list ps =
     default_config\<lparr>url := ''/my/tag/list'', params := ps\<rparr>"

definition my_tag_create :: "jsval \<Rightarrow> config" where
  "my_tag_create data =
     default_config\<lparr>url := ''/my/tag/create'', cmethod := Some ''post'', cdata := data\<rparr>"

definition my_tag_update :: "jsval \<Rightarrow> config" where
  "my_tag_update data =
     default_config\<lparr>url := ''/my/tag/update'', cmethod := Some ''post'', cdata := data\<rparr>"

definition my_tag_remove :: "jsval \<Rightarrow> config" where
  "my_tag_remove data =
     default_config\<lparr>url := ''/my/tag/delete'', cmethod := Some ''post'', cdata := data\<rparr>"

subsection \<open>api/my/user.js\<close>

definition my_user_groupUsers :: "jsval \<Rightarrow> config" where
  "my_user_groupUsers data =
     default_config\<lparr>url := ''/my/groupUsers'', cmethod := Some ''post'', cdata := data\<rparr>"

subsection \<open>All descriptors\<close>

definition my_api :: "(jsval \<Rightarrow> config) list" where
  "my_api =
    [my_address_book_list, my_address_book_batchCreateFromPeers,
     my_address_book_batchUpdateTags, my_address_book_create, my_address_book_update,
     my_address_book_remove, my_address_book_collection_list,
     my_address_book_collection_create, my_address_book_collection_update,
     my_address_book_collection_remove, my_address_book_collection_rule_list,
     my_address_book_collection_rule_create, my_address_book_collection_rule_update,
     my_address_book_collection_rule_remove, my_address_book_collection_rule_batchCreate,
     my_login_log_list, my_login_log_remove, my_login_log_batchDelete, my_peer_list,
     my_peer_remove, my_peer_batchRemove, my_share_record_list, my_share_record_remove,
     my_share_record_batchDelete, my_tag_list, my_tag_create, my_tag_update, my_tag_remove,
     my_user_groupUsers]"

definition admin_api :: "(jsval \<Rightarrow> config) list" where
  "admin_api =
    [address_book_list, address_book_detail, address_book_create, address_book_update,
     address_book_remove, address_book_batchCreate, address_book_shareByWebClient,
     address_book_batchCreateFromPeers, address_book_collection_list,
     address_book_collection_detail, address_book_collection_create,
     address_book_collection_update, address_book_collection_remove,
     address_book_collection_rule_list, address_book_collection_rule_detail,
     address_book_collection_rule_create, address_book_collection_rule_update,
     address_book_collection_rule_remove, address_book_collection_rule_batchCreate, audit_list,
     audit_remove, audit_batchDelete, audit_fileList, audit_fileRemove, audit_fileBatchDelete,
     (\<lambda>_. config_server), (\<lambda>_. config_app), (\<lambda>_. config_admin),
     (\<lambda>_. config_all), (\<lambda>_. config_serverAddresses), custom_client_list,
     custom_client_create, custom_client_remove, custom_client_download,
     (\<lambda>_. custom_client_getVersions), custom_preset_list, custom_preset_detail,
     custom_preset_create, custom_preset_update, custom_preset_remove,
     (\<lambda>_. dashboard_stats), (\<lambda>_. dashboard_health), device_group_list,
     device_group_detail, device_group_create, device_group_update, device_group_remove,
     file_upload, (\<lambda>_. github_build_config_get), github_build_config_save,
     (\<lambda>_. github_build_config_getWorkflowTags), github_build_config_approveWorkflowRef,
     (\<lambda>_. github_build_config_generateKey), (\<lambda>_. github_build_config_test),
     (\<lambda>_. github_build_config_syncSecret),
     (\<lambda>_. github_build_config_dispatchTest), group_list, group_detail, group_create,
     group_update, group_remove, (\<lambda>_. login_loginOptions), login_oidcAuth,
     login_oidcQuery, (\<lambda>_. login_captcha), login_log_list, login_log_remove,
     login_log_batchDelete, oauth_info, oauth_confirm, oauth_bind, oauth_bindConfirm,
     oauth_unbind, oauth_list, oauth_detail, oauth_create, oauth_update, oauth_remove,
     peer_list, peer_detail, peer_create, peer_update, peer_remove, peer_batchRemove,
     peer_simpleData, rustdesk_list, rustdesk_create, rustdesk_update, rustdesk_remove,
     rustdesk_sendCmd, share_record_list, share_record_remove, share_record_batchDelete,
     tag_list, tag_detail, tag_create, tag_update, tag_remove, user_login,
     (\<lambda>_. user_logout), (\<lambda>_. user_current), user_list, user_detail,
     user_create, user_update, user_remove, user_changePwd, user_changeCurPwd,
     (\<lambda>_. user_myOauth), user_updateCurrent, user_myPeer, user_groupUsers,
     user_register, user_token_list, user_token_remove, user_token_batchRemove]"

lemmas my_api_defs =
  my_address_book_list_def
  my_address_book_batchCreateFromPeers_def
  my_address_book_batchUpdateTags_def
  my_address_book_create_def
  my_address_book_update_def
  my_address_book_remove_def
  my_address_book_collection_list_def
  my_address_book_collection_create_def
  my_address_book_collection_update_def
  my_address_book_collection_remove_def
  my_address_book_collection_rule_list_def
  my_address_book_collection_rule_create_def
  my_address_book_collection_rule_update_def
  my_address_book_collection_rule_remove_def
  my_address_book_collection_rule_batchCreate_def
  my_login_log_list_def
  my_login_log_remove_def
  my_login_log_batchDelete_def
  my_peer_list_def
  my_peer_remove_def
  my_peer_batchRemove_def
  my_share_record_list_def
  my_share_record_remove_def
  my_share_record_batchDelete_def
  my_tag_list_def
  my_tag_create_def
  my_tag_update_def
  my_tag_remove_def
  my_user_groupUsers_def

lemmas admin_api_defs =
  address_book_list_def
  address_book_detail_def
  address_book_create_def
  address_book_update_def
  address_book_remove_def
  address_book_batchCreate_def
  address_book_shareByWebClient_def
  address_book_batchCreateFromPeers_def
  address_book_collection_list_def
  address_book_collection_detail_def
  address_book_collection_create_def
  address_book_collection_update_def
  address_book_collection_remove_def
  address_book_collection_rule_list_def
  address_book_collection_rule_detail_def
  address_book_collection_rule_create_def
  address_book_collection_rule_update_def
  address_book_collection_rule_remove_def
  address_book_collection_rule_batchCreate_def
  audit_list_def
  audit_remove_def
  audit_batchDelete_def
  audit_fileList_def
  audit_fileRemove_def
  audit_fileBatchDelete_def
  config_server_def
  config_app_def
  config_admin_def
  config_all_def
  config_serverAddresses_def
  custom_client_list_def
  custom_client_create_def
  custom_client_remove_def
  custom_client_download_def
  custom_client_getVersions_def
  custom_preset_list_def
  custom_preset_detail_def
  custom_preset_create_def
  custom_preset_update_def
  custom_preset_remove_def
  dashboard_stats_def
  dashboard_health_def
  device_group_list_def
  device_group_detail_def
  device_group_create_def
  device_group_update_def
  device_group_remove_def
  file_upload_def
  github_build_config_get_def
  github_build_config_save_def
  github_build_config_getWorkflowTags_def
  github_build_config_approveWorkflowRef_def
  github_build_config_generateKey_def
  github_build_config_test_def
  github_build_config_syncSecret_def
  github_build_config_dispatchTest_def
  group_list_def
  group_detail_def
  group_create_def
  group_update_def
  group_remove_def
  login_loginOptions_def
  login_oidcAuth_def
  login_oidcQuery_def
  login_captcha_def
  login_log_list_def
  login_log_remove_def
  login_log_batchDelete_def
  oauth_info_def
  oauth_confirm_def
  oauth_bind_def
  oauth_bindConfirm_def
  oauth_unbind_def
  oauth_list_def
  oauth_detail_def
  oauth_create_def
  oauth_update_def
  oauth_remove_def
  peer_list_def
  peer_detail_def
  peer_create_def
  peer_update_def
  peer_remove_def
  peer_batchRemove_def
  peer_simpleData_def
  rustdesk_list_def
  rustdesk_create_def
  rustdesk_update_def
  rustdesk_remove_def
  rustdesk_sendCmd_def
  share_record_list_def
  share_record_remove_def
  share_record_batchDelete_def
  tag_list_def
  tag_detail_def
  tag_create_def
  tag_update_def
  tag_remove_def
  user_login_def
  user_logout_def
  user_current_def
  user_list_def
  user_detail_def
  user_create_def
  user_update_def
  user_remove_def
  user_changePwd_def
  user_changeCurPwd_def
  user_myOauth_def
  user_updateCurrent_def
  user_myPeer_def
  user_groupUsers_def
  user_register_def
  user_token_list_def
  user_token_remove_def
  user_token_batchRemove_def

text \<open>What one descriptor must satisfy.\<close>

definition well_formed_call :: "config \<Rightarrow> bool" where
  "well_formed_call c \<longleftrightarrow>
     (cmethod c \<in> {None, Some ''get''} \<and> cdata c = JUndef \<or> cmethod c = Some ''post'' \<and> params c = JUndef)
     \<and> (is_blob c \<longrightarrow> startsWith (url c) ''/custom_build/download/'')
     \<and> (skipAuthRedirect c \<longrightarrow> url c = ''/logout'')
     \<and> startsWith (url c) ''/''"

lemma my_api_well_formed: "list_all (\<lambda>f. well_formed_call (f x)) my_api"
  by (simp add: my_api_def my_api_defs well_formed_call_def default_config_def is_blob_def startsWith_def)

lemma admin_api_well_formed: "list_all (\<lambda>f. well_formed_call (f x)) admin_api"
  by (simp add: admin_api_def admin_api_defs well_formed_call_def default_config_def is_blob_def startsWith_def)

lemma well_formed_get: "well_formed_call c \<Longrightarrow> is_get c \<longleftrightarrow> cmethod c \<noteq> Some ''post''"
proof -
  have l: "toLowerCase ''get'' = ''get''" "toLowerCase ''post'' = ''post''" by code_simp+
  assume "well_formed_call c"
  then show ?thesis by (auto simp: well_formed_call_def is_get_def l)
qed

subsection \<open>Properties\<close>

text \<open>
  The personal API and the rest are kept apart by their URLs: every descriptor of
  \<open>api/my\<close> addresses \<open>/my/\<close>, and no other descriptor does, whatever the argument.
\<close>

lemma my_api_prefix:
  "list_all (\<lambda>f. startsWith (url (f x)) ''/my/'') my_api
   \<and> list_all (\<lambda>f. \<not> startsWith (url (f x)) ''/my/'') admin_api"
  by (simp add: my_api_def my_api_defs admin_api_def admin_api_defs default_config_def startsWith_def)

text \<open>
  Every API call is either a GET without a body or a POST without query parameters; only the
  build download asks for a blob, and only the logout call opts out of the login redirect.
\<close>

lemma api_calls_well_formed:
  "list_all (\<lambda>f. well_formed_call (f x)) (my_api @ admin_api)"
  using my_api_well_formed admin_api_well_formed by simp

text \<open>
  For every API function but logout, an answer whose envelope carries code 403 removes the
  token and reloads the page; for logout it does neither, so that a failing logout cannot
  interrupt the local clean-up.
\<close>

lemma forbidden_ends_session:
  assumes "f \<in> set (my_api @ admin_api)" and "get o' ''code'' = JNum 403" and "\<not> is_blob (f x)"
  shows "ends_session (snd (response_interceptor \<lparr>rconfig = f x, contentType = ct, rdata = Json (JObj o')\<rparr>))
         \<or> url (f x) = ''/logout''"
proof -
  have "well_formed_call (f x)"
    using assms(1) my_api_well_formed [of x] admin_api_well_formed [of x] by (auto simp: list_all_iff)
  then have keep: "skipAuthRedirect (f x) \<Longrightarrow> url (f x) = ''/logout''"
    by (simp add: well_formed_call_def)
  show ?thesis
  proof (cases "skipAuthRedirect (f x)")
    case False
    then show ?thesis using assms(2,3)
      by (auto simp: response_interceptor_def json_response_def envelope_code_def redirect_defs)
  qed (use keep in simp)
qed

end
