(* ===== verification/I18n.thy ===== *)
theory I18n
  imports JsString
begin

text \<open>
  \<open>admin-ui/src/utils/i18n.js\<close> and \<open>admin-ui/src/utils/time.js\<close>: message lookup with plural
  forms and \<open>{name}\<close> placeholders, and the relative and formatted times built on it. The three
  message catalogues (JSON data) are the parameter \<open>tr\<close>. \<open>k in params\<close> is membership in the
  object's own keys: no placeholder of the catalogues is named like a property of
  \<open>Object.prototype\<close>.
\<close>

subsection \<open>Messages\<close>

record translation =
  One :: jsval
  Other :: jsval

type_synonym catalogue = "string \<rightharpoonup> translation"

text \<open>\<open>msg.replace(/{(\w+)}/g, ...)\<close>.\<close>

function subst_params :: "obj \<Rightarrow> string \<Rightarrow> string" where
  "subst_params ps [] = []"
| "subst_params ps (c # s) =
     (if c = CHR ''{'' then
        (let k = takeWhile is_word_char s
         in case dropWhile is_word_char s of
              d # r \<Rightarrow>
                if k \<noteq> [] \<and> d = CHR ''}''
                then (if k \<in> set (keys ps) then toStr (get ps k) else ''{'' @ k @ ''}'') @ subst_params ps r
                else c # subst_params ps s
            | [] \<Rightarrow> c # subst_params ps s)
      else c # subst_params ps s)"
  by pat_completeness auto
termination
  by (relation "measure (\<lambda>(_, s). length s)") (auto dest!: dropWhile_Cons_length)

text \<open>\<open>(params && typeof params === 'object') ? params : {}\<close>; an array has index keys only.\<close>

definition safe_params :: "jsval \<Rightarrow> obj" where
  "safe_params ps =
     (case ps of
        JObj o' \<Rightarrow> o'
      | JArr xs \<Rightarrow> zip (map show_nat [0..<length xs]) xs
      | _ \<Rightarrow> [])"

definition message_form :: "translation \<Rightarrow> int \<Rightarrow> jsval" where
  "message_form tran num = (if num > 1 then (if truthy (Other tran) then Other tran else One tran) else One tran)"

definition T :: "(string \<rightharpoonup> catalogue) \<Rightarrow> string \<Rightarrow> string \<Rightarrow> jsval \<Rightarrow> int \<Rightarrow> string" where
  "T tr lang key ps num =
     (case tr lang of
        None \<Rightarrow> key
      | Some cat \<Rightarrow>
          (case cat key of
             None \<Rightarrow> key
           | Some tran \<Rightarrow>
               (case message_form tran num of
                  JStr msg \<Rightarrow> subst_params (safe_params ps) msg
                | _ \<Rightarrow> key)))"

subsection \<open>Relative time\<close>

text \<open>\<open>timeAgo\<close> for a difference of \<open>dis\<close> milliseconds; \<open>Math.floor\<close> is \<open>div\<close>.\<close>

definition time_unit :: "int \<Rightarrow> string \<times> int" where
  "time_unit dis =
     (if dis < 60 * 1000 then (''JustNow'', 0)
      else if dis < 60 * 60 * 1000 then (''MinutesAgo'', dis div (60 * 1000))
      else if dis < 24 * 60 * 60 * 1000 then (''HoursAgo'', dis div (60 * 60 * 1000))
      else if dis < 30 * 24 * 60 * 60 * 1000 then (''DaysAgo'', dis div (24 * 60 * 60 * 1000))
      else if dis < 12 * 30 * 24 * 60 * 60 * 1000 then (''MonthsAgo'', dis div (30 * 24 * 60 * 60 * 1000))
      else (''YearsAgo'', dis div (12 * 30 * 24 * 60 * 60 * 1000)))"

definition timeAgo :: "(string \<rightharpoonup> catalogue) \<Rightarrow> string \<Rightarrow> int \<Rightarrow> int \<Rightarrow> string" where
  "timeAgo tr lang now after =
     (let (key, num) = time_unit (now - after)
      in if key = ''JustNow'' then T tr lang key JUndef 0
         else T tr lang key (JObj [(''param'', JNum num)]) num)"

subsection \<open>Formatted time\<close>

text \<open>
  The components \<open>new Date(unix)\<close> gives in the local time zone. \<open>pad\<close> is
  \<open>('00' + v).substr(('' + v).length)\<close>.
\<close>

record date_parts =
  year :: nat
  month :: nat \<comment> \<open>\<open>getMonth()\<close>, from zero\<close>
  day :: nat
  hours :: nat
  minutes :: nat
  seconds :: nat
  millis :: nat

definition pad :: "nat \<Rightarrow> string" where
  "pad v = drop (length (show_nat v)) (''00'' @ show_nat v)"

text \<open>The first maximal run of \<open>c\<close> in a format: what \<open>(c+)\<close> captures.\<close>

fun first_run :: "char \<Rightarrow> string \<Rightarrow> string" where
  "first_run c [] = []"
| "first_run c (x # s) = (if x = c then takeWhile (\<lambda>y. y = c) (x # s) else first_run c s)"

definition replace_run :: "char \<Rightarrow> (nat \<Rightarrow> string) \<Rightarrow> string \<Rightarrow> string" where
  "replace_run c f fmt =
     (let run = first_run c fmt in if run = [] then fmt else replace fmt run (f (length run)))"

text \<open>\<open>s.substr(i)\<close>, where a negative start counts from the end.\<close>

definition substr :: "string \<Rightarrow> int \<Rightarrow> string" where
  "substr s i = drop (nat (if i < 0 then max 0 (int (length s) + i) else i)) s"

definition formatTime :: "date_parts \<Rightarrow> string \<Rightarrow> string" where
  "formatTime d fmt =
     (let field = (\<lambda>v n. if n = 1 then show_nat v else pad v);
          fmt = replace_run (CHR ''y'') (\<lambda>n. substr (show_nat (year d)) (4 - int n)) fmt;
          fmt = replace_run (CHR ''M'') (field (month d + 1)) fmt;
          fmt = replace_run (CHR ''d'') (field (day d)) fmt;
          fmt = replace_run (CHR ''h'') (field (hours d)) fmt;
          fmt = replace_run (CHR ''m'') (field (minutes d)) fmt;
          fmt = replace_run (CHR ''s'') (field (seconds d)) fmt;
          fmt = replace_run (CHR ''q'') (field ((month d + 3) div 3)) fmt
      in if CHR ''S'' \<in> set fmt then replace fmt ''S'' (show_nat (millis d)) else fmt)"

definition default_format :: string where
  "default_format = ''yyyy-MM-dd hh:mm:ss''"

subsection \<open>Lemmas\<close>

lemma subst_params_plain: "CHR ''{'' \<notin> set p \<Longrightarrow> subst_params ps (p @ s) = p @ subst_params ps s"
  by (induction p) auto

lemma subst_params_hole:
  assumes "k \<noteq> []" "\<forall>c \<in> set k. is_word_char c" "k \<in> set (keys ps)"
  shows "subst_params ps (''{'' @ k @ ''}'' @ s) = toStr (get ps k) @ subst_params ps s"
proof -
  have np: "\<not> is_word_char (CHR ''}'')" by (simp add: is_word_char_def is_digit_def char_code_def)
  have "takeWhile is_word_char (k @ CHR ''}'' # s) = k" "dropWhile is_word_char (k @ CHR ''}'' # s) = CHR ''}'' # s"
    using assms(2) np by (simp_all add: takeWhile_append dropWhile_append)
  then show ?thesis using assms by simp
qed

lemma subst_no_params: "subst_params [] s = s"
proof (induction "[] :: obj" s rule: subst_params.induct)
  case (2 c s)
  show ?case
  proof (cases "c = CHR ''{'' \<and> takeWhile is_word_char s \<noteq> []
      \<and> (\<exists>r. dropWhile is_word_char s = CHR ''}'' # r)")
    case True
    then obtain r where r: "dropWhile is_word_char s = CHR ''}'' # r" by blast
    have "takeWhile is_word_char s @ CHR ''}'' # r = s"
      using takeWhile_dropWhile_id [of is_word_char s] r by simp
    then show ?thesis using True r 2 by (simp add: keys_def)
  next
    case False
    then show ?thesis using 2 by (auto simp: Let_def split: list.split)
  qed
qed simp

lemma length_pad: "v < 100 \<Longrightarrow> length (pad v) = 2"
  by (simp add: pad_def)

lemma time_unit_bounds:
  "59999 < dis \<Longrightarrow> dis < 3600000 \<Longrightarrow> 1 \<le> dis div 60000 \<and> dis div 60000 < (60 :: int)"
  "3600000 \<le> dis \<Longrightarrow> dis < 86400000 \<Longrightarrow> 1 \<le> dis div 3600000 \<and> dis div 3600000 < (24 :: int)"
  "86400000 \<le> dis \<Longrightarrow> dis < 2592000000 \<Longrightarrow> 1 \<le> dis div 86400000 \<and> dis div 86400000 < (30 :: int)"
  "2592000000 \<le> dis \<Longrightarrow> dis < 31104000000 \<Longrightarrow> 1 \<le> dis div 2592000000 \<and> dis div 2592000000 < (12 :: int)"
  "31104000000 \<le> dis \<Longrightarrow> (1 :: int) \<le> dis div 31104000000"
  by (simp_all add: div_less_iff_less_mult pos_imp_zdiv_pos_iff int_one_le_iff_zero_less)

subsection \<open>Properties\<close>

text \<open>
  A message whose catalogue entry is missing, or whose selected form is not a string, is
  shown as its key; otherwise every placeholder that names a parameter is replaced by the
  parameter's text, whatever its value, and text without placeholders is shown unchanged.
\<close>

lemma T_substitutes:
  assumes "tr lang = Some cat" "cat key = Some tran"
    and "message_form tran num = JStr (p @ ''{'' @ k @ ''}'' @ q)"
    and "CHR ''{'' \<notin> set p" "CHR ''{'' \<notin> set q"
    and "k \<noteq> []" "list_all is_word_char k" "k \<in> set (keys ps)"
  shows "T tr lang key (JObj ps) num = p @ toStr (get ps k) @ q
    \<and> T tr lang key JUndef num = p @ ''{'' @ k @ ''}'' @ q
    \<and> (\<forall>key'. cat key' = None \<longrightarrow> T tr lang key' (JObj ps) num = key')"
proof -
  have "subst_params ps (p @ ''{'' @ k @ ''}'' @ q) = p @ toStr (get ps k) @ subst_params ps q"
    using assms(4,6-8) subst_params_hole [of k ps q] by (simp add: subst_params_plain list_all_iff)
  moreover have "subst_params ps q = q"
    using subst_params_plain [OF assms(5), of ps "[]"] by simp
  ultimately show ?thesis using assms(1-3) subst_no_params
    by (simp add: T_def safe_params_def)
qed

text \<open>
  The relative time picks exactly one unit, and the count it shows is at least one and below
  the size of the next unit: 1 to 59 minutes, 1 to 23 hours, 1 to 29 days, 1 to 11 months.
\<close>

lemma time_unit_ranges:
  "case time_unit dis of (key, num) \<Rightarrow>
     key = ''JustNow'' \<and> dis < 60000
     \<or> key = ''MinutesAgo'' \<and> 1 \<le> num \<and> num \<le> 59
     \<or> key = ''HoursAgo'' \<and> 1 \<le> num \<and> num \<le> 23
     \<or> key = ''DaysAgo'' \<and> 1 \<le> num \<and> num \<le> 29
     \<or> key = ''MonthsAgo'' \<and> 1 \<le> num \<and> num \<le> 11
     \<or> key = ''YearsAgo'' \<and> 1 \<le> num"
  using time_unit_bounds [of dis] by (auto simp: time_unit_def)

end
