(* ===== verification/AppStore.thy ===== *)
theory AppStore
  imports Api
begin

text \<open>
  \<open>admin-ui/src/store/app.js\<close>: title, theme, navigation, language and server configuration of the
  admin panel. The two media queries (dark system theme, mobile viewport) are inputs; the
  document attributes the store writes are the record \<open>document\<close>. \<open>requests\<close> lists the API calls
  issued.
\<close>

subsection \<open>State\<close>

record document =
  data_theme :: string
  dark_class :: bool
  doc_title :: string

record setting =
  stitle :: jsval
  hello :: jsval
  sideIsCollapse :: bool
  isMobile :: bool
  mobileMenuOpen :: bool
  themeMode :: string
  lang :: string
  locale_key :: "string option" \<comment> \<open>the entry of \<open>langs\<close>, \<open>None\<close> for undefined\<close>
  appConfig :: jsval
  rustdeskConfig :: jsval

record app_world =
  setting :: setting
  doc :: document
  local_storage :: storage
  requests :: "config list"

definition langs :: "string list" where
  "langs = [''zh-CN'', ''en'', ''ru'']"

text \<open>\<open>localStorage.getItem(k) || d\<close>.\<close>

definition stored_or :: "storage \<Rightarrow> string \<Rightarrow> string \<Rightarrow> string" where
  "stored_or st k d = (case getItem st k of Some v \<Rightarrow> if v = [] then d else v | None \<Rightarrow> d)"

definition defaultLang :: "storage \<Rightarrow> string" where
  "defaultLang st = stored_or st ''lang'' ''en''"

definition defaultThemeMode :: "storage \<Rightarrow> string" where
  "defaultThemeMode st = stored_or st ''theme-mode'' ''auto''"

definition lookup_lang :: "string \<Rightarrow> string option" where
  "lookup_lang l = (if l \<in> set langs then Some l else None)"

definition init_setting :: "storage \<Rightarrow> bool \<Rightarrow> setting" where
  "init_setting st mobile =
     \<lparr>stitle = JStr ''DeskForge Admin'', hello = JStr [], sideIsCollapse = False, isMobile = mobile,
      mobileMenuOpen = False, themeMode = defaultThemeMode st, lang = defaultLang st,
      locale_key = (case lookup_lang (defaultLang st) of Some l \<Rightarrow> Some l | None \<Rightarrow> Some ''en''),
      appConfig = JObj [(''web_client'', JNum 1)],
      rustdeskConfig = JObj [(''id_server'', JStr []), (''key'', JStr []), (''relay_server'', JStr []),
        (''api_server'', JStr [])]\<rparr>"

subsection \<open>Theme\<close>

definition resolveTheme :: "bool \<Rightarrow> string \<Rightarrow> string" where
  "resolveTheme sysDark mode = (if mode = ''auto'' then (if sysDark then ''dark'' else ''light'') else mode)"

definition applyTheme :: "bool \<Rightarrow> string \<Rightarrow> document \<Rightarrow> document" where
  "applyTheme sysDark mode d =
     d\<lparr>data_theme := mode, dark_class := (resolveTheme sysDark mode = ''dark'')\<rparr>"

definition initTheme :: "bool \<Rightarrow> app_world \<Rightarrow> app_world" where
  "initTheme sysDark w = w\<lparr>doc := applyTheme sysDark (themeMode (setting w)) (doc w)\<rparr>"

text \<open>The listener \<open>initTheme\<close> registers for a change of the system theme.\<close>

definition systemThemeChanged :: "bool \<Rightarrow> app_world \<Rightarrow> app_world" where
  "systemThemeChanged sysDark w =
     (if themeMode (setting w) = ''auto'' then w\<lparr>doc := applyTheme sysDark ''auto'' (doc w)\<rparr> else w)"

definition setThemeMode :: "bool \<Rightarrow> string \<Rightarrow> app_world \<Rightarrow> app_world" where
  "setThemeMode sysDark mode w =
     w\<lparr>setting := (setting w)\<lparr>themeMode := mode\<rparr>,
       local_storage := setItem ''theme-mode'' mode (local_storage w),
       doc := applyTheme sysDark mode (doc w)\<rparr>"

subsection \<open>Viewport and navigation\<close>

definition initViewport :: "bool \<Rightarrow> app_world \<Rightarrow> app_world" where
  "initViewport matches w = w\<lparr>setting := (setting w)\<lparr>isMobile := matches\<rparr>\<rparr>"

definition viewportChanged :: "bool \<Rightarrow> app_world \<Rightarrow> app_world" where
  "viewportChanged matches w =
     (let s = (setting w)\<lparr>isMobile := matches\<rparr>
      in w\<lparr>setting := (if \<not> matches then s\<lparr>mobileMenuOpen := False\<rparr> else s)\<rparr>)"

definition sideCollapse :: "app_world \<Rightarrow> app_world" where
  "sideCollapse w = w\<lparr>setting := (setting w)\<lparr>sideIsCollapse := \<not> sideIsCollapse (setting w)\<rparr>\<rparr>"

definition toggleNavigation :: "app_world \<Rightarrow> app_world" where
  "toggleNavigation w =
     (if isMobile (setting w)
      then w\<lparr>setting := (setting w)\<lparr>mobileMenuOpen := \<not> mobileMenuOpen (setting w)\<rparr>\<rparr>
      else sideCollapse w)"

definition closeMobileMenu :: "app_world \<Rightarrow> app_world" where
  "closeMobileMenu w = w\<lparr>setting := (setting w)\<lparr>mobileMenuOpen := False\<rparr>\<rparr>"

subsection \<open>Language\<close>

definition setLang :: "string \<Rightarrow> app_world \<Rightarrow> app_world" where
  "setLang l w =
     w\<lparr>setting := (setting w)\<lparr>lang := l, locale_key := lookup_lang l\<rparr>,
       local_storage := setItem ''lang'' l (local_storage w)\<rparr>"

definition changeLang :: "string \<Rightarrow> app_world \<Rightarrow> app_world" where
  "changeLang v w = setLang v w"

subsection \<open>Configuration\<close>

text \<open>
  The requests are issued by \<open>loadConfig\<close>; the handlers below run when their answers arrive,
  \<open>None\<close> standing for a rejected call. A template string renders a title with \<open>String(v)\<close>.
\<close>

definition loadConfig :: "app_world \<Rightarrow> app_world" where
  "loadConfig w = w\<lparr>requests := requests w @ [config_app, config_admin, config_server]\<rparr>"

definition getAppConfig :: "obj option \<Rightarrow> app_world \<Rightarrow> app_world" where
  "getAppConfig res w =
     (case res of None \<Rightarrow> w | Some r \<Rightarrow> w\<lparr>setting := (setting w)\<lparr>appConfig := get r ''data''\<rparr>\<rparr>)"

definition replaceAdminTitle :: "jsval \<Rightarrow> app_world \<Rightarrow> app_world" where
  "replaceAdminTitle newTitle w =
     w\<lparr>doc := (doc w)\<lparr>doc_title := replace (doc_title (doc w)) (''- '' @ toStr (stitle (setting w))) (''- '' @ toStr newTitle)\<rparr>,
       setting := (setting w)\<lparr>stitle := newTitle\<rparr>\<rparr>"

definition getAdminConfig :: "obj option \<Rightarrow> app_world \<Rightarrow> app_world" where
  "getAdminConfig res w =
     (case res of
        None \<Rightarrow> w
      | Some r \<Rightarrow>
          (case get r ''data'' of
             JObj d \<Rightarrow>
               (let w = replaceAdminTitle (get d ''title'') w
                in w\<lparr>setting := (setting w)\<lparr>hello := get d ''hello''\<rparr>\<rparr>)
           | _ \<Rightarrow> w))"

definition store_if :: "string \<Rightarrow> jsval \<Rightarrow> storage \<Rightarrow> storage" where
  "store_if k v st = (if truthy v then setItem k (toStr v) st else st)"

definition loadRustdeskConfig :: "obj option \<Rightarrow> app_world \<Rightarrow> app_world" where
  "loadRustdeskConfig res w =
     (case res of
        None \<Rightarrow> w
      | Some r \<Rightarrow>
          if \<not> truthy (get r ''data'') then w
          else
            (let d = get r ''data'';
                 st = local_storage w;
                 st = store_if ''wc-custom-rendezvous-server'' (opt_prop d ''id_server'') st;
                 st = store_if ''wc-key'' (opt_prop d ''key'') st;
                 st = store_if ''wc-api-server'' (opt_prop d ''api_server'') st
             in w\<lparr>setting := (setting w)\<lparr>rustdeskConfig := d\<rparr>, local_storage := st\<rparr>))"

subsection \<open>Events and invariants\<close>

text \<open>Everything that can happen to the store once it is initialised.\<close>

datatype app_event =
    SetTheme string
  | SystemTheme bool
  | Viewport bool
  | Toggle
  | CloseMenu
  | Lang string
  | AppConfigArrived "obj option"
  | AdminConfigArrived "obj option"
  | ServerConfigArrived "obj option"

text \<open>The state pairs the world with the current value of the dark-theme media query.\<close>

fun app_step :: "app_event \<Rightarrow> bool \<times> app_world \<Rightarrow> bool \<times> app_world" where
  "app_step (SetTheme m) (sys, w) = (sys, setThemeMode sys m w)"
| "app_step (SystemTheme b) (sys, w) = (b, systemThemeChanged b w)"
| "app_step (Viewport b) (sys, w) = (sys, viewportChanged b w)"
| "app_step Toggle (sys, w) = (sys, toggleNavigation w)"
| "app_step CloseMenu (sys, w) = (sys, closeMobileMenu w)"
| "app_step (Lang l) (sys, w) = (sys, changeLang l w)"
| "app_step (AppConfigArrived r) (sys, w) = (sys, getAppConfig r w)"
| "app_step (AdminConfigArrived r) (sys, w) = (sys, getAdminConfig r w)"
| "app_step (ServerConfigArrived r) (sys, w) = (sys, loadRustdeskConfig r w)"

definition boot :: "storage \<Rightarrow> bool \<Rightarrow> bool \<Rightarrow> document \<Rightarrow> bool \<times> app_world" where
  "boot st sysDark mobile d =
     (sysDark, initTheme sysDark (initViewport mobile
        \<lparr>setting = init_setting st mobile, doc = d, local_storage = st, requests = []\<rparr>))"

text \<open>The page shows the selected theme, and the mobile menu is only open on a mobile viewport.\<close>

definition app_inv :: "bool \<times> app_world \<Rightarrow> bool" where
  "app_inv sw \<longleftrightarrow>
     (case sw of (sys, w) \<Rightarrow>
        data_theme (doc w) = themeMode (setting w)
        \<and> dark_class (doc w) = (resolveTheme sys (themeMode (setting w)) = ''dark'')
        \<and> (mobileMenuOpen (setting w) \<longrightarrow> isMobile (setting w)))"

lemma config_frame [simp]:
  "themeMode (setting (getAppConfig r w)) = themeMode (setting w)"
  "themeMode (setting (getAdminConfig r w)) = themeMode (setting w)"
  "themeMode (setting (loadRustdeskConfig r w)) = themeMode (setting w)"
  "mobileMenuOpen (setting (getAppConfig r w)) = mobileMenuOpen (setting w)"
  "mobileMenuOpen (setting (getAdminConfig r w)) = mobileMenuOpen (setting w)"
  "mobileMenuOpen (setting (loadRustdeskConfig r w)) = mobileMenuOpen (setting w)"
  "isMobile (setting (getAppConfig r w)) = isMobile (setting w)"
  "isMobile (setting (getAdminConfig r w)) = isMobile (setting w)"
  "isMobile (setting (loadRustdeskConfig r w)) = isMobile (setting w)"
  "data_theme (doc (getAppConfig r w)) = data_theme (doc w)"
  "data_theme (doc (getAdminConfig r w)) = data_theme (doc w)"
  "data_theme (doc (loadRustdeskConfig r w)) = data_theme (doc w)"
  "dark_class (doc (getAppConfig r w)) = dark_class (doc w)"
  "dark_class (doc (getAdminConfig r w)) = dark_class (doc w)"
  "dark_class (doc (loadRustdeskConfig r w)) = dark_class (doc w)"
  by (simp_all add: getAppConfig_def getAdminConfig_def loadRustdeskConfig_def replaceAdminTitle_def Let_def
      split: option.split jsval.split)

lemmas app_ops =
  setThemeMode_def systemThemeChanged_def viewportChanged_def toggleNavigation_def sideCollapse_def
  closeMobileMenu_def changeLang_def setLang_def applyTheme_def Let_def

lemma app_step_inv: "app_inv sw \<Longrightarrow> app_inv (app_step e sw)"
proof -
  obtain sys w where sw: "sw = (sys, w)" by (cases sw)
  assume "app_inv sw"
  then show ?thesis unfolding sw
    by (cases e) (auto simp: app_inv_def app_ops resolveTheme_def)
qed

lemma boot_inv: "app_inv (boot st sysDark mobile d)"
  by (simp add: app_inv_def boot_def initTheme_def initViewport_def applyTheme_def init_setting_def)

lemma setLang_stored [simp]: "getItem (local_storage (setLang l w)) k = (if k = ''lang'' then Some l else getItem (local_storage w) k)"
  by (simp add: setLang_def)

subsection \<open>Properties\<close>

text \<open>
  From start-up on, through any sequence of theme choices, system theme changes, viewport
  changes, menu toggles, language changes and configuration answers, the page carries the selected
  theme mode, is dark exactly when that mode resolves to dark under the current system theme, and
  the mobile menu is never open on a desktop viewport.
\<close>

lemma app_session_invariant: "app_inv (fold app_step es (boot st sysDark mobile d))"
proof (rule fold_invariant [where Q = "\<lambda>_. True" and P = app_inv])
  show "app_inv (boot st sysDark mobile d)" by (rule boot_inv)
  show "app_inv sw \<Longrightarrow> app_inv (app_step e sw)" for e sw by (rule app_step_inv)
qed simp_all

text \<open>
  A language or theme chosen in the panel survives a reload: starting again from the storage
  left behind selects the same language, with its locale, and the same theme mode.
\<close>

lemma preferences_survive_reload:
  assumes "l \<in> set langs" and "mode \<noteq> []"
  shows "let st = local_storage (setThemeMode sysDark mode (setLang l w)); s = init_setting st mobile
    in lang s = l \<and> locale_key s = Some l \<and> locale_key s = locale_key (setting (setLang l w)) \<and> themeMode s = mode"
proof -
  have "l \<noteq> []" using assms(1) by (auto simp: langs_def)
  then show ?thesis using assms
    by (simp add: init_setting_def defaultLang_def defaultThemeMode_def stored_or_def setThemeMode_def
        lookup_lang_def Let_def) (simp add: setLang_def lookup_lang_def)
qed

end
