(* ===== verification/UserStore.thy ===== *)
theory UserStore
  imports AppStore Routes
begin

text \<open>
  \<open>admin-ui/src/store/user.js\<close>: the session of the signed-in user. An asynchronous action is
  split where it awaits the server: the part before the call, and the part that runs when the
  answer arrives. \<open>pendingLogout\<close> is the module variable holding the promise of the running
  logout. The payload is what \<open>LoginPayload\<close> of the server sends.
\<close>

subsection \<open>State\<close>

record user_state =
  nickname :: string
  username :: string
  email :: string
  token :: string
  role :: string
  avatar :: string
  route_names :: "string list"

record user_data =
  ud_username :: string
  ud_email :: string
  ud_avatar :: string
  ud_token :: string
  ud_route_names :: "string list"
  ud_nickname :: string

datatype promise = InFlight | Settled bool

record session =
  store :: user_state
  stored :: storage
  route_store :: route_store
  registered :: "route list" \<comment> \<open>arguments of \<open>router.addRoute\<close>\<close>
  pendingLogout :: "promise option"
  issued :: "config list" \<comment> \<open>API calls made\<close>
  opened :: "string list" \<comment> \<open>pages opened by \<open>window.open\<close> or \<open>location.href\<close>\<close>

definition init_user_state :: user_state where
  "init_user_state =
     \<lparr>nickname = [], username = [], email = [], token = [], role = [], avatar = [], route_names = []\<rparr>"

definition init_session :: "storage \<Rightarrow> session" where
  "init_session st =
     \<lparr>store = init_user_state, stored = st, route_store = init_route_store, registered = [],
      pendingLogout = None, issued = [], opened = []\<rparr>"

text \<open>\<open>useAppStore().loadConfig()\<close>: the three configuration calls.\<close>

definition load_config_calls :: "config list" where
  "load_config_calls = [config_app, config_admin, config_server]"

subsection \<open>Logout\<close>

text \<open>The \<open>finally\<close> block.\<close>

definition logout_cleanup :: "session \<Rightarrow> session" where
  "logout_cleanup s =
     s\<lparr>stored := removeItem ''user_info'' (removeCode (removeToken (stored s))),
       store := init_user_state, pendingLogout := None\<rparr>"

text \<open>
  \<open>logout()\<close> up to its first suspension. With a pending promise it returns that promise. With a
  token the call is made and the function suspends. Without a token nothing is awaited: the
  asynchronous function runs to its end, clears \<open>pendingLogout\<close>, and only then does the
  assignment store its (settled) promise.
\<close>

definition logout :: "session \<Rightarrow> session" where
  "logout s =
     (case pendingLogout s of
        Some _ \<Rightarrow> s
      | None \<Rightarrow>
          (case effective_token (token (store s)) (stored s) of
             Some _ \<Rightarrow> s\<lparr>issued := issued s @ [user_logout], pendingLogout := Some InFlight\<rparr>
           | None \<Rightarrow> (logout_cleanup s)\<lparr>pendingLogout := Some (Settled True)\<rparr>))"

text \<open>The answer to the logout call arrives: \<open>revoked\<close> is whether it succeeded.\<close>

definition logout_answered :: "bool \<Rightarrow> session \<Rightarrow> session" where
  "logout_answered revoked s =
     (if pendingLogout s = Some InFlight then logout_cleanup s else s)"

subsection \<open>Login, current user and OIDC\<close>

text \<open>\<open>$patch\<close> writes the fields of the payload and leaves \<open>role\<close> alone.\<close>

definition patch_user :: "user_data \<Rightarrow> user_state \<Rightarrow> user_state" where
  "patch_user ud u =
     u\<lparr>nickname := ud_nickname ud, username := ud_username ud, email := ud_email ud,
       token := ud_token ud, avatar := ud_avatar ud, route_names := ud_route_names ud\<rparr>"

definition add_routes :: "string list \<Rightarrow> session \<Rightarrow> session" where
  "add_routes names s =
     (let (rs, added) = addRoutes (route_store s) names
      in s\<lparr>route_store := rs, registered := registered s @ added\<rparr>)"

definition saveUserData :: "user_data \<Rightarrow> session \<Rightarrow> session" where
  "saveUserData ud s =
     (let s = s\<lparr>stored := setItem ''user_info'' (json_text (JObj [(''name'', JStr (ud_username ud))]))
                             (setToken (ud_token ud) (stored s)),
                store := patch_user ud (store s)\<rparr>
      in if ud_route_names ud \<noteq> [] then add_routes (ud_route_names ud) s else s)"

text \<open>
  The answer to the login call, after \<open>.catch(e => e)\<close>: its \<open>code\<close> and, on success, its payload.
  \<open>Inl\<close> is the rejected promise; a falsy code without a payload raises in \<open>saveUserData\<close> after
  the configuration calls were made.
\<close>

datatype login_failure = Rejected jsval | LoginTypeError

definition login :: "jsval \<Rightarrow> user_data option \<Rightarrow> session \<Rightarrow> (login_failure + user_data) \<times> session" where
  "login code payload s =
     (if \<not> truthy code then
        (let s = s\<lparr>issued := issued s @ load_config_calls\<rparr>
         in case payload of
              Some ud \<Rightarrow> (Inr ud, saveUserData ud s)
            | None \<Rightarrow> (Inl LoginTypeError, s))
      else (Inl (Rejected code), s))"

text \<open>\<open>info()\<close> with the answer of \<open>/user/current\<close>; \<open>None\<close> is a rejected call.\<close>

definition info :: "user_data option \<Rightarrow> session \<Rightarrow> user_data option \<times> session" where
  "info res s =
     (let s = s\<lparr>issued := issued s @ [user_current]\<rparr>
      in case res of
           Some ud \<Rightarrow>
             (let s = s\<lparr>issued := issued s @ load_config_calls\<rparr>;
                  s = s\<lparr>stored := setToken (ud_token ud) (stored s), store := patch_user ud (store s)\<rparr>
              in (Some ud, add_routes (ud_route_names ud) s))
         | None \<Rightarrow> (None, s))"

definition oidc_request :: "string \<Rightarrow> string \<Rightarrow> string \<Rightarrow> string \<Rightarrow> jsval" where
  "oidc_request userAgent provider platform browser =
     JObj [(''deviceInfo'', JObj [(''name'', JStr userAgent), (''os'', JStr platform), (''type'', JStr ''webadmin'')]),
           (''id'', JStr (platform @ ''-'' @ browser)), (''op'', JStr provider), (''uuid'', JStr [])]"

text \<open>The answer carries a code and a URL; both ways of opening the page are recorded.\<close>

definition oidc :: "string \<Rightarrow> string \<Rightarrow> string \<Rightarrow> string \<Rightarrow> int \<Rightarrow> (string \<times> string) option \<Rightarrow> session \<Rightarrow> session" where
  "oidc userAgent provider platform browser now res s =
     (let s = s\<lparr>issued := issued s @ [login_oidcAuth (oidc_request userAgent provider platform browser)]\<rparr>
      in case res of
           Some (code, link) \<Rightarrow> s\<lparr>stored := setCode now code (stored s), opened := opened s @ [link]\<rparr>
         | None \<Rightarrow> s)"

definition query :: "string \<Rightarrow> user_data option \<Rightarrow> session \<Rightarrow> user_data option \<times> session" where
  "query code res s =
     (let s = s\<lparr>issued := issued s @ [login_oidcQuery (JObj [(''code'', JStr code), (''uuid'', JStr [])])]\<rparr>
      in case res of
           Some ud \<Rightarrow>
             (let s = s\<lparr>stored := removeCode (stored s)\<rparr>;
                  s = s\<lparr>issued := issued s @ load_config_calls\<rparr>
              in (Some ud, saveUserData ud s))
         | None \<Rightarrow> (None, s))"

subsection \<open>Sessions as a step relation\<close>

inductive session_step :: "session \<Rightarrow> session \<Rightarrow> bool" where
  call_logout: "session_step s (logout s)"
| logout_settles: "pendingLogout s = Some InFlight \<Longrightarrow> session_step s (logout_answered revoked s)"
| login_ok: "session_step s (snd (login (JNum 0) (Some ud) s))"
| login_fails: "truthy code \<Longrightarrow> session_step s (snd (login code payload s))"
| current_user: "session_step s (snd (info res s))"
| oidc_login: "session_step s (snd (query code res s))"
| oidc_start: "session_step s (oidc ua provider platform browser now res s)"

inductive_cases session_stepE: "session_step s t"

inductive session_reachable :: "storage \<Rightarrow> session \<Rightarrow> bool" for st where
  session_start: "session_reachable st (init_session st)"
| session_next: "session_reachable st s \<Longrightarrow> session_step s t \<Longrightarrow> session_reachable st t"

subsection \<open>Lemmas\<close>

lemma saveUserData_sel [simp]:
  "store (saveUserData ud s) = patch_user ud (store s)"
  "pendingLogout (saveUserData ud s) = pendingLogout s"
  "issued (saveUserData ud s) = issued s"
  "stored (saveUserData ud s) =
     setItem ''user_info'' (json_text (JObj [(''name'', JStr (ud_username ud))])) (setToken (ud_token ud) (stored s))"
  by (simp_all add: saveUserData_def add_routes_def Let_def split: prod.split)

lemma add_routes_sel [simp]:
  "store (add_routes names s) = store s" "pendingLogout (add_routes names s) = pendingLogout s"
  "stored (add_routes names s) = stored s" "issued (add_routes names s) = issued s"
  by (simp_all add: add_routes_def Let_def split: prod.split)

lemma user_info_not_token [simp]: "''user_info'' \<noteq> TokenKey" "TokenKey \<noteq> ''user_info''"
  by (simp_all add: TokenKey_def)

lemma getToken_user_info [simp]:
  "getToken (setItem ''user_info'' v st) = getToken st" "getToken (removeItem ''user_info'' st) = getToken st"
  by (simp_all add: getToken_def)

lemma getToken_saveUserData [simp]: "getToken (stored (saveUserData ud s)) = Some (ud_token ud)"
  by simp

lemma patch_user_sel [simp]: "token (patch_user ud u) = ud_token ud" "route_names (patch_user ud u) = ud_route_names ud"
  by (simp_all add: patch_user_def)

lemma logout_cleanup_sel [simp]:
  "store (logout_cleanup s) = init_user_state" "pendingLogout (logout_cleanup s) = None"
  "getToken (stored (logout_cleanup s)) = None" "issued (logout_cleanup s) = issued s"
  by (simp_all add: logout_cleanup_def)

lemma effective_token_None: "effective_token [] st = None \<longleftrightarrow> getToken st \<in> {None, Some []}"
  by (auto simp: effective_token_def split: option.splits)

lemma effective_token_saved: "t \<noteq> [] \<Longrightarrow> effective_token t st = Some t"
  by (simp add: effective_token_def)

text \<open>
  The invariant of a session: the token in the store and the one in the storage agree whenever the
  store has one.
\<close>

definition session_inv :: "session \<Rightarrow> bool" where
  "session_inv s \<longleftrightarrow> (token (store s) \<noteq> [] \<longrightarrow> getToken (stored s) = Some (token (store s)))"

lemma session_step_inv: "session_step s t \<Longrightarrow> session_inv s \<Longrightarrow> session_inv t"
proof (induction rule: session_step.induct)
  case (call_logout s)
  then show ?case
    by (auto simp: logout_def session_inv_def init_user_state_def split: option.splits)
next
  case (logout_settles s revoked)
  then show ?case by (simp add: logout_answered_def session_inv_def init_user_state_def)
next
  case (login_ok s ud)
  then show ?case by (simp add: login_def session_inv_def Let_def)
next
  case (login_fails code s payload)
  then show ?case by (simp add: login_def)
next
  case (current_user s res)
  then show ?case by (auto simp: info_def session_inv_def Let_def split: option.splits)
next
  case (oidc_login s code res)
  then show ?case by (auto simp: query_def session_inv_def Let_def split: option.splits)
next
  case (oidc_start s ua provider platform browser now res)
  then show ?case by (auto simp: oidc_def session_inv_def Let_def split: option.splits)
qed

lemma session_reachable_inv: "session_reachable st s \<Longrightarrow> session_inv s"
proof (induction rule: session_reachable.induct)
  case session_start
  show ?case by (simp add: session_inv_def init_session_def init_user_state_def)
next
  case (session_next s t)
  then show ?case by (blast intro: session_step_inv)
qed

subsection \<open>Properties\<close>


definition sample_user :: user_data where
  "sample_user = \<lparr>ud_username = ''admin'', ud_email = [], ud_avatar = [], ud_token = ''tok'',
     ud_route_names = [''*''], ud_nickname = []\<rparr>"


text \<open>
  C15: when no logout is pending and there is a token, logging out makes one logout call, however
  often it is requested before the answer; and once the server has answered, successfully or not,
  the token, the OIDC code, the stored user and the user state are gone and a new logout can start.
\<close>

theorem logout_clears_session:
  assumes "pendingLogout s = None" and "effective_token (token (store s)) (stored s) \<noteq> None"
  shows "issued (((\<lambda>s. logout s) ^^ Suc n) s) = issued s @ [user_logout]
    \<and> (let t = logout_answered revoked (((\<lambda>s. logout s) ^^ Suc n) s)
       in getToken (stored t) = None \<and> getItem (stored t) OidcCode = None \<and> getItem (stored t) ''user_info'' = None
          \<and> store t = init_user_state \<and> pendingLogout t = None)"
proof -
  have step: "logout s = s\<lparr>issued := issued s @ [user_logout], pendingLogout := Some InFlight\<rparr>"
    using assms by (auto simp: logout_def)
  have stay: "logout (logout s) = logout s" by (simp add: step) (simp add: logout_def)
  have iter: "(logout ^^ Suc n) s = logout s"
    by (induction n) (simp_all add: stay)
  have code: "OidcCode \<noteq> ''user_info''" by (simp add: OidcCode_def)
  show ?thesis unfolding iter
    by (simp add: step logout_answered_def Let_def code) (simp add: logout_cleanup_def code)
qed

theorem logout_clears_session_witness:
  "getToken (stored (logout_answered False (logout (snd (login (JNum 0) (Some sample_user) (init_session Map.empty)))))) = None"
proof -
  let ?s = "snd (login (JNum 0) (Some sample_user) (init_session Map.empty))"
  have "pendingLogout ?s = None" by (simp add: login_def Let_def init_session_def)
  moreover have "effective_token (token (store ?s)) (stored ?s) \<noteq> None"
    by (simp add: login_def Let_def sample_user_def effective_token_def)
  ultimately show ?thesis using logout_clears_session [of ?s 0 False] by (simp add: Let_def)
qed

text \<open>
  A logout without a token leaves the settled promise in \<open>pendingLogout\<close>, since the
  assignment happens after the clean-up reset it. From then on logging out has no effect: after
  any later login, \<open>logout()\<close> makes no call and the token stays in the storage.
\<close>

lemma tokenless_logout_sticks:
  assumes "pendingLogout s = None" and "effective_token (token (store s)) (stored s) = None"
  shows "pendingLogout (logout s) = Some (Settled True)
    \<and> (let t = snd (login (JNum 0) (Some ud) (logout s))
       in logout t = t \<and> logout_answered revoked t = t \<and> getToken (stored (logout t)) = Some (ud_token ud))"
proof -
  have p: "pendingLogout (logout s) = Some (Settled True)" using assms by (simp add: logout_def)
  let ?t = "snd (login (JNum 0) (Some ud) (logout s))"
  have "pendingLogout ?t = Some (Settled True)" using p by (simp add: login_def Let_def)
  then have "logout ?t = ?t" "logout_answered revoked ?t = ?t"
    by (simp_all add: logout_def logout_answered_def)
  moreover have "getToken (stored ?t) = Some (ud_token ud)" by (simp add: login_def Let_def)
  ultimately show ?thesis using p by (simp add: Let_def)
qed

end
