(* ===== verification/Permission.thy ===== *)
theory Permission
  imports UserStore I18n
begin

text \<open>
  \<open>admin-ui/src/permission.js\<close>: the guard the router runs before every navigation. One run of the
  guard is \<open>before_each\<close>; the answers it may await (the current user, the logout) are its
  arguments. The router, a library, starts the guard again for every redirection, which
  \<open>navigate\<close> follows with fuel. The progress bar is not modelled.
\<close>

subsection \<open>The guard\<close>

definition whiteList :: "string list" where
  "whiteList = [''/login'', ''/register'']"

text \<open>\<open>next()\<close>, \<open>next('/login?redirect=...')\<close> and \<open>next({ ...to, replace: true })\<close>.\<close>

datatype verdict = Proceed | ToLogin string | Again

definition page_title :: "(string \<rightharpoonup> catalogue) \<Rightarrow> string \<Rightarrow> string \<Rightarrow> jsval \<Rightarrow> string" where
  "page_title tr lg meta_title app_title = T tr lg meta_title JUndef 0 @ '' - '' @ toStr app_title"

definition before_each :: "user_data option \<Rightarrow> bool \<Rightarrow> string \<Rightarrow> session \<Rightarrow> verdict \<times> session" where
  "before_each current revoked path s =
     (if getToken (stored s) \<in> {None, Some []} then
        (if path \<in> set whiteList then (Proceed, s) else (ToLogin path, s))
      else if route_names (store s) = [] then
        (case info current s of
           (None, s) \<Rightarrow> (ToLogin path, logout_answered revoked (logout s))
         | (Some _, s) \<Rightarrow> (Again, s))
      else (Proceed, s))"

text \<open>
  Following redirections: \<open>Some (path, s)\<close> is the page finally shown. \<open>ToLogin\<close> leads to the path
  \<open>/login\<close> with the old path as its query.
\<close>

fun navigate :: "nat \<Rightarrow> user_data option \<Rightarrow> bool \<Rightarrow> string \<Rightarrow> session \<Rightarrow> (string \<times> session) option" where
  "navigate 0 current revoked path s = None"
| "navigate (Suc n) current revoked path s =
     (case before_each current revoked path s of
        (Proceed, s) \<Rightarrow> Some (path, s)
      | (ToLogin _, s) \<Rightarrow> navigate n current revoked ''/login'' s
      | (Again, s) \<Rightarrow> navigate n current revoked path s)"

subsection \<open>Lemmas\<close>

definition signed_in :: "session \<Rightarrow> bool" where
  "signed_in s \<longleftrightarrow> getToken (stored s) \<notin> {None, Some []}"

lemma before_each_out: "\<not> signed_in s \<Longrightarrow>
  before_each current revoked path s = (if path \<in> set whiteList then Proceed else ToLogin path, s)"
  by (simp add: before_each_def signed_in_def)

lemma before_each_known: "signed_in s \<Longrightarrow> route_names (store s) \<noteq> [] \<Longrightarrow>
  before_each current revoked path s = (Proceed, s)"
  by (simp add: before_each_def signed_in_def)

lemma before_each_fetch:
  assumes "signed_in s" "route_names (store s) = []"
  shows "before_each (Some ud) revoked path s = (Again, snd (info (Some ud) s))"
    and "before_each None revoked path s =
           (ToLogin path, logout_answered revoked (logout (snd (info None s))))"
  using assms by (auto simp: before_each_def signed_in_def info_def Let_def)

lemma info_Some_sel:
  "route_names (store (snd (info (Some ud) s))) = ud_route_names ud"
  "getToken (stored (snd (info (Some ud) s))) = Some (ud_token ud)"
  by (simp_all add: info_def Let_def)

lemma failed_info_signs_out:
  assumes "signed_in s" "pendingLogout s = None"
  shows "\<not> signed_in (logout_answered revoked (logout (snd (info None s))))"
proof -
  have "effective_token (token (store s)) (stored s) \<noteq> None"
    using assms(1) by (auto simp: signed_in_def effective_token_def)
  then show ?thesis using assms(2)
    by (auto simp: info_def Let_def logout_def logout_answered_def signed_in_def)
qed

lemma login_page_open: "\<not> signed_in s \<Longrightarrow> navigate (Suc n) current revoked ''/login'' s = Some (''/login'', s)"
  by (simp add: before_each_out whiteList_def)

lemma navigate_out:
  "\<not> signed_in s \<Longrightarrow>
   navigate (Suc (Suc n)) current revoked path s = Some (if path \<in> set whiteList then path else ''/login'', s)"
  using login_page_open [of s n] by (simp add: before_each_out)

lemma navigate_settles_safe:
  "navigate n current revoked path s = Some (p, t) \<Longrightarrow> \<not> signed_in t \<Longrightarrow> p \<in> set whiteList"
proof (induction n arbitrary: path s)
  case (Suc n)
  obtain v u where v: "before_each current revoked path s = (v, u)" by fastforce
  show ?case
  proof (cases v)
    case Proceed
    then have "u = t" "path = p" using Suc.prems v by auto
    then show ?thesis using Suc.prems v Proceed
      by (auto simp: before_each_def signed_in_def split: if_splits option.splits prod.splits)
  next
    case (ToLogin q)
    then show ?thesis using Suc v by auto
  next
    case Again
    then show ?thesis using Suc v by auto
  qed
qed simp

subsection \<open>Properties\<close>

text \<open>
  C16: whatever the server answers, a navigation that settles without a session token settles on
  the login or the registration page.
\<close>

theorem guard_safe:
  assumes "navigate n current revoked path s = Some (p, t)" and "getToken (stored t) \<in> {None, Some []}"
  shows "p \<in> set whiteList"
  using navigate_settles_safe [OF assms(1)] assms(2) by (simp add: signed_in_def)

theorem guard_safe_witness: "''/login'' \<in> set whiteList"
proof -
  let ?s = "init_session Map.empty"
  have "\<not> signed_in ?s" by (simp add: signed_in_def init_session_def getToken_def getItem_def)
  then have "navigate 2 None False ''/admin/users'' ?s = Some (''/login'', ?s)"
    using navigate_out [of ?s 0 None False "''/admin/users''"] by (simp add: numeral_2_eq_2 whiteList_def)
  then show ?thesis
    by (rule guard_safe) (simp add: init_session_def getToken_def getItem_def)
qed



lemma stuck_logout_step:
  assumes "pendingLogout s = Some (Settled b)" "signed_in s" "route_names (store s) = []"
  shows "before_each None revoked path s = (ToLogin path, snd (info None s))"
  using assms by (simp add: before_each_fetch info_def Let_def logout_def logout_answered_def)

text \<open>
  With a settled logout promise left over and a server that refuses the current user, the
  guard never settles: the logout has no effect, the token stays, and the redirection to the login
  page fetches the user again, for any amount of fuel.
\<close>

lemma stuck_logout_diverges:
  assumes "pendingLogout s = Some (Settled b)" and "signed_in s" and "route_names (store s) = []"
  shows "navigate n None revoked path s = None"
  using assms
proof (induction n arbitrary: path s)
  case (Suc n)
  let ?t = "snd (info None s)"
  have "pendingLogout ?t = Some (Settled b)" "signed_in ?t" "route_names (store ?t) = []"
    using Suc.prems by (simp_all add: info_def Let_def signed_in_def)
  then have "navigate n None revoked ''/login'' ?t = None" by (rule Suc.IH)
  then show ?case using stuck_logout_step [OF Suc.prems] by simp
qed simp

end
