(* ===== verification/Crud.thy ===== *)
theory Crud
  imports Api File
begin

text \<open>
  What the list views of \<open>admin-ui/src/views\<close> have in common: a page of rows with its loading flag,
  a query, a form, and the calls, toasts and downloads a view produces. The views repeat the same
  code; the operations here are that code once, with the API descriptors and the treatment of the
  rows as arguments, and the theory \<open>Views\<close> instantiates them view by view. Each asynchronous
  operation takes the answers it awaits: whether the user confirmed a dialog, whether a call
  succeeded, and the page a list call returned (\<open>None\<close> for a rejected call, which the code turns
  into \<open>false\<close>). Toasts are named by their message key.

  \<open>composables/useBatchRemove.js\<close> and \<open>composables/useBulkRemove.js\<close>, the two shared removal
  flows, are modelled here too.
\<close>

subsection \<open>State\<close>

record list_res =
  rows :: "obj list"
  total :: jsval
  loading :: bool

record page =
  page_list :: "obj list"
  page_total :: jsval

datatype toast = Success string | Warning string | Error string

record view =
  listRes :: list_res
  listQuery :: obj
  formVisible :: bool
  formData :: obj
  calls :: "config list"
  toasts_shown :: "toast list"
  downloads :: "(string \<times> string) list"

definition empty_res :: list_res where
  "empty_res = \<lparr>rows = [], total = JNum 0, loading = False\<rparr>"

definition mk_view :: "obj \<Rightarrow> obj \<Rightarrow> view" where
  "mk_view q form =
     \<lparr>listRes = empty_res, listQuery = q, formVisible = False, formData = form, calls = [],
      toasts_shown = [], downloads = []\<rparr>"

abbreviation call :: "config \<Rightarrow> view \<Rightarrow> view" where
  "call c v \<equiv> v\<lparr>calls := calls v @ [c]\<rparr>"

abbreviation toast :: "toast \<Rightarrow> view \<Rightarrow> view" where
  "toast t v \<equiv> v\<lparr>toasts_shown := toasts_shown v @ [t]\<rparr>"

definition set_loading :: "bool \<Rightarrow> view \<Rightarrow> view" where
  "set_loading b v = v\<lparr>listRes := (listRes v)\<lparr>loading := b\<rparr>\<rparr>"

subsection \<open>Loading a page\<close>

text \<open>The two halves of \<open>getList\<close>: up to the call, and from the answer on.\<close>

definition load_begin :: "(jsval \<Rightarrow> config) \<Rightarrow> view \<Rightarrow> view" where
  "load_begin api v = call (api (JObj (listQuery v))) (set_loading True v)"

text \<open>
  \<open>prep\<close> is what the view does to the rows before showing them; \<open>None\<close> is an exception raised
  there, which leaves the list as it was.
\<close>

definition load_end :: "(obj list \<Rightarrow> obj list option) \<Rightarrow> page option \<Rightarrow> view \<Rightarrow> view" where
  "load_end prep res v =
     (let v = set_loading False v
      in case res of
           None \<Rightarrow> v
         | Some pg \<Rightarrow>
             (case prep (page_list pg) of
                None \<Rightarrow> v
              | Some rs \<Rightarrow> v\<lparr>listRes := (listRes v)\<lparr>rows := rs, total := page_total pg\<rparr>\<rparr>))"

definition load :: "(jsval \<Rightarrow> config) \<Rightarrow> (obj list \<Rightarrow> obj list option) \<Rightarrow> page option \<Rightarrow> view \<Rightarrow> view" where
  "load api prep res v = load_end prep res (load_begin api v)"

text \<open>\<open>handlerQuery\<close>: a change of the page number is noticed by a watcher of the view.\<close>

definition query_first_page :: "(view \<Rightarrow> view) \<Rightarrow> view \<Rightarrow> view" where
  "query_first_page getList v =
     (if get (listQuery v) ''page'' = JNum 1 then getList v
      else v\<lparr>listQuery := put (listQuery v) ''page'' (JNum 1)\<rparr>)"

subsection \<open>Deleting and submitting\<close>

definition delete_row :: "config \<Rightarrow> (view \<Rightarrow> view) \<Rightarrow> bool \<Rightarrow> bool \<Rightarrow> view \<Rightarrow> view" where
  "delete_row c getList confirmed ok v =
     (if \<not> confirmed then v
      else
        (let v = call c v
         in if ok then getList (toast (Success ''OperationSuccess'') v) else v))"

definition submit_form :: "config \<Rightarrow> (view \<Rightarrow> view) \<Rightarrow> bool \<Rightarrow> view \<Rightarrow> view" where
  "submit_form c getList ok v =
     (let v = call c v
      in if ok then getList ((toast (Success ''OperationSuccess'') v)\<lparr>formVisible := False\<rparr>) else v)"

text \<open>
  \<open>toExport\<close>: all rows are fetched with the current filters and written as CSV; \<open>jsonToCsv\<close> raises
  on an empty answer.
\<close>

definition export_query :: "obj \<Rightarrow> obj" where
  "export_query q = put (put q ''page_size'' (JNum 1000000)) ''page'' (JNum 1)"

definition export_rows :: "(jsval \<Rightarrow> config) \<Rightarrow> (obj list \<Rightarrow> obj list) \<Rightarrow> string \<Rightarrow> page option \<Rightarrow> view \<Rightarrow> view" where
  "export_rows api prep filename res v =
     (let v = call (api (JObj (export_query (listQuery v)))) v
      in case res of
           None \<Rightarrow> v
         | Some pg \<Rightarrow>
             (case jsonToCsv (prep (page_list pg)) of
                Inl _ \<Rightarrow> v
              | Inr csv \<Rightarrow> v\<lparr>downloads := downloads v @ [(filename, csv)]\<rparr>))"

subsection \<open>Batch removal: one call for all items\<close>

text \<open>\<open>useBatchRemove(...).confirmAndRemove(items)\<close>; \<open>clear\<close> empties the selection, if there is one.\<close>

definition batchConfirmAndRemove ::
    "('a list \<Rightarrow> config) \<Rightarrow> (view \<Rightarrow> view) \<Rightarrow> (view \<Rightarrow> view) \<Rightarrow> 'a list \<Rightarrow> bool \<Rightarrow> bool \<Rightarrow> view \<Rightarrow> bool \<times> view" where
  "batchConfirmAndRemove batchApi clear getList items confirmed ok v =
     (if items = [] then (False, toast (Warning ''PleaseSelectData'') v)
      else if \<not> confirmed then (False, v)
      else
        (let v = call (batchApi items) v
         in if \<not> ok then (False, v)
            else (True, getList (toast (Success ''OperationSuccess'') (clear v)))))"

subsection \<open>Bulk removal: one call per row\<close>

record bulk =
  bview :: view
  selectedRows :: "obj list"
  removing :: bool

text \<open>
  \<open>removeOne\<close>: the payload function may raise (\<open>None\<close>), which counts as a failure and makes no
  call; \<open>ok r\<close> is whether the call for row \<open>r\<close> succeeds.
\<close>

definition removeOne :: "(jsval \<Rightarrow> config) \<Rightarrow> (obj \<Rightarrow> jsval option) \<Rightarrow> (obj \<Rightarrow> bool) \<Rightarrow> obj \<Rightarrow> config list \<times> bool" where
  "removeOne api payloadFn ok row =
     (case payloadFn row of None \<Rightarrow> ([], False) | Some p \<Rightarrow> ([api p], ok row))"

definition default_payload :: "obj \<Rightarrow> jsval option" where
  "default_payload r = Some (JObj [(''id'', get r ''id'')])"

text \<open>The part before the confirmation dialog: \<open>True\<close> if the dialog opens.\<close>

definition bulk_begin :: "obj list \<Rightarrow> bulk \<Rightarrow> bool \<times> bulk" where
  "bulk_begin rs b = (if rs = [] \<or> removing b then (False, b) else (True, b\<lparr>removing := True\<rparr>))"

text \<open>The part after it: the number of rows removed and the new state.\<close>

definition bulk_end ::
    "(jsval \<Rightarrow> config) \<Rightarrow> (obj \<Rightarrow> jsval option) \<Rightarrow> (view \<Rightarrow> view) \<Rightarrow> (view \<Rightarrow> view) \<Rightarrow> obj list \<Rightarrow> bool \<Rightarrow> (obj \<Rightarrow> bool) \<Rightarrow>
     bulk \<Rightarrow> nat \<times> bulk" where
  "bulk_end api payloadFn onAfterRemove getList rs confirmed oks b =
     (if \<not> confirmed then (0, b\<lparr>removing := False\<rparr>)
      else
        (let results = map (removeOne api payloadFn oks) rs;
             v = (bview b)\<lparr>calls := calls (bview b) @ concat (map fst results)\<rparr>;
             ok = length (filter snd results);
             count = length rs;
             b = (if ok \<noteq> 0 then b\<lparr>selectedRows := []\<rparr> else b);
             v = (if ok = count then toast (Success ''OperationSuccess'') v
                  else if ok > 0 then toast (Warning ''OperationSuccess'') v
                  else toast (Error ''OperationFailed'') v);
             v = (if ok \<noteq> 0 then getList (onAfterRemove v) else v)
         in (ok, b\<lparr>bview := v, removing := False\<rparr>)))"

definition bulkConfirmAndRemove ::
    "(jsval \<Rightarrow> config) \<Rightarrow> (obj \<Rightarrow> jsval option) \<Rightarrow> (view \<Rightarrow> view) \<Rightarrow> (view \<Rightarrow> view) \<Rightarrow> obj list \<Rightarrow> bool \<Rightarrow> (obj \<Rightarrow> bool) \<Rightarrow>
     bulk \<Rightarrow> nat \<times> bulk" where
  "bulkConfirmAndRemove api payloadFn onAfterRemove getList rs confirmed oks b =
     (case bulk_begin rs b of
        (False, b) \<Rightarrow> (0, b)
      | (True, b) \<Rightarrow> bulk_end api payloadFn onAfterRemove getList rs confirmed oks b)"

subsection \<open>Lemmas\<close>

lemma set_loading_sel [simp]:
  "rows (listRes (set_loading b v)) = rows (listRes v)" "total (listRes (set_loading b v)) = total (listRes v)"
  "loading (listRes (set_loading b v)) = b" "listQuery (set_loading b v) = listQuery v"
  "calls (set_loading b v) = calls v" "toasts_shown (set_loading b v) = toasts_shown v"
  "formVisible (set_loading b v) = formVisible v" "formData (set_loading b v) = formData v"
  "downloads (set_loading b v) = downloads v"
  by (simp_all add: set_loading_def)

lemma load_end_sel [simp]:
  "calls (load_end prep res v) = calls v" "listQuery (load_end prep res v) = listQuery v"
  "toasts_shown (load_end prep res v) = toasts_shown v" "formVisible (load_end prep res v) = formVisible v"
  "formData (load_end prep res v) = formData v" "\<not> loading (listRes (load_end prep res v))"
  by (simp_all add: load_end_def Let_def split: option.split)

lemma load_end_None [simp]: "rows (listRes (load_end prep None v)) = rows (listRes v)"
  "total (listRes (load_end prep None v)) = total (listRes v)"
  by (simp_all add: load_end_def)

lemma load_end_Some:
  "prep (page_list pg) = Some rs \<Longrightarrow>
   rows (listRes (load_end prep (Some pg) v)) = rs \<and> total (listRes (load_end prep (Some pg) v)) = page_total pg"
  by (simp add: load_end_def Let_def)

lemma load_begin_sel [simp]:
  "calls (load_begin api v) = calls v @ [api (JObj (listQuery v))]" "listQuery (load_begin api v) = listQuery v"
  "toasts_shown (load_begin api v) = toasts_shown v" "rows (listRes (load_begin api v)) = rows (listRes v)"
  "total (listRes (load_begin api v)) = total (listRes v)" "formVisible (load_begin api v) = formVisible v"
  "formData (load_begin api v) = formData v"
  by (simp_all add: load_begin_def)

lemma load_sel [simp]:
  "calls (load api prep res v) = calls v @ [api (JObj (listQuery v))]" "listQuery (load api prep res v) = listQuery v"
  "toasts_shown (load api prep res v) = toasts_shown v" "\<not> loading (listRes (load api prep res v))"
  "rows (listRes (load api prep None v)) = rows (listRes v)"
  "total (listRes (load api prep None v)) = total (listRes v)"
  "formVisible (load api prep res v) = formVisible v" "formData (load api prep res v) = formData v"
  by (simp_all add: load_def)

declare load_sel [view_simps] load_begin_sel [view_simps] load_end_sel [view_simps]

lemma removeOne_calls: "length (fst (removeOne api p ok r)) \<le> 1" "snd (removeOne api p ok r) \<Longrightarrow> p r \<noteq> None \<and> ok r"
  by (auto simp: removeOne_def split: option.splits)

lemma removed_le: "length (filter snd (map (removeOne api p oks) rs)) \<le> length rs"
  by (metis length_filter_le length_map)

subsection \<open>The contract of a list view\<close>

text \<open>A session of a view: reloads with the answers they get, and deletions.\<close>

datatype 'a view_event =
    Reload 'a "page option"
  | Delete obj bool bool 'a "page option"

fun view_session ::
    "('a \<Rightarrow> page option \<Rightarrow> view \<Rightarrow> view) \<Rightarrow> (obj \<Rightarrow> bool \<Rightarrow> bool \<Rightarrow> 'a \<Rightarrow> page option \<Rightarrow> view \<Rightarrow> view) \<Rightarrow>
     'a view_event list \<Rightarrow> view \<Rightarrow> view" where
  "view_session getList del [] v = v"
| "view_session getList del (Reload a res # es) v = view_session getList del es (getList a res v)"
| "view_session getList del (Delete row c ok a res # es) v = view_session getList del es (del row c ok a res v)"

fun deletes :: "'a view_event \<Rightarrow> bool" where
  "deletes (Reload a res) = False"
| "deletes (Delete row c ok a res) = (c \<and> ok)"

fun event_calls ::
    "('a \<Rightarrow> page option \<Rightarrow> obj \<Rightarrow> config list) \<Rightarrow> (obj \<Rightarrow> config) \<Rightarrow> obj \<Rightarrow> 'a view_event \<Rightarrow> config list" where
  "event_calls list_calls remove_call q (Reload a res) = list_calls a res q"
| "event_calls list_calls remove_call q (Delete row c ok a res) =
     (if c then remove_call row # (if ok then list_calls a res q else []) else [])"

text \<open>
  What a view promises about its list: \<open>getList\<close> with the answer of the list call, \<open>del\<close> with the
  row, the confirmation, the outcome of the removal call and the answer of the reload.
\<close>

locale list_view =
  fixes getList :: "'a \<Rightarrow> page option \<Rightarrow> view \<Rightarrow> view"
    and del :: "obj \<Rightarrow> bool \<Rightarrow> bool \<Rightarrow> 'a \<Rightarrow> page option \<Rightarrow> view \<Rightarrow> view"
    and list_calls :: "'a \<Rightarrow> page option \<Rightarrow> obj \<Rightarrow> config list"
    and remove_call :: "obj \<Rightarrow> config"
  assumes load_done: "\<not> loading (listRes (getList a res v))"
    and load_failed: "rows (listRes (getList a None v)) = rows (listRes v)"
    and load_calls: "calls (getList a res v) = calls v @ list_calls a res (listQuery v)"
    and load_query: "listQuery (getList a res v) = listQuery v"
    and load_quiet: "toasts_shown (getList a res v) = toasts_shown v"
    and del_delete: "del row confirmed ok a res v = delete_row (remove_call row) (getList a res) confirmed ok v"
begin

lemma del_cancelled: "del row False ok a res v = v"
  by (simp add: del_delete delete_row_def)

lemma del_calls:
  "calls (del row True ok a res v) =
     calls v @ [remove_call row] @ (if ok then list_calls a res (listQuery v) else [])"
  by (simp add: del_delete delete_row_def load_calls)

lemma del_toast:
  "toasts_shown (del row c ok a res v) =
     toasts_shown v @ (if c \<and> ok then [Success ''OperationSuccess''] else [])"
  by (simp add: del_delete delete_row_def load_quiet)

lemma del_failed_keeps: "rows (listRes (del row c False a res v)) = rows (listRes v)"
  by (simp add: del_delete delete_row_def)

lemma del_idle: "\<not> loading (listRes v) \<Longrightarrow> \<not> loading (listRes (del row c ok a res v))"
  by (simp add: del_delete delete_row_def Let_def load_done)

lemma del_query: "listQuery (del row c ok a res v) = listQuery v"
  by (simp add: del_delete delete_row_def Let_def load_query)

lemma run_idle: "\<not> loading (listRes v) \<Longrightarrow> \<not> loading (listRes (view_session getList del es v))"
proof (induction es arbitrary: v)
  case (Cons e es)
  then show ?case by (cases e) (simp_all add: load_done del_idle)
qed simp

lemma run_query: "listQuery (view_session getList del es v) = listQuery v"
proof (induction es arbitrary: v)
  case (Cons e es)
  then show ?case by (cases e) (simp_all add: load_query del_query)
qed simp

lemma run_toasts:
  "toasts_shown (view_session getList del es v) =
     toasts_shown v @ replicate (length (filter deletes es)) (Success ''OperationSuccess'')"
proof (induction es arbitrary: v)
  case (Cons e es)
  then show ?case by (cases e) (auto simp: load_quiet del_toast)
qed simp

lemma run_calls:
  "calls (view_session getList del es v) =
     calls v @ concat (map (event_calls list_calls remove_call (listQuery v)) es)"
proof (induction es arbitrary: v)
  case (Cons e es)
  then show ?case
    by (cases e) (auto simp: load_calls load_query del_query del_calls del_cancelled split: bool.splits)
qed simp

end

subsection \<open>Properties\<close>

text \<open>
  When two loads of a list overlap, the rows shown at the end are those of the answer that
  arrives last, even if it answers the earlier query, and the loading flag is already off while
  the other answer is outstanding.
\<close>

lemma overlapping_loads:
  assumes "prep (page_list p1) = Some r1" and "prep (page_list p2) = Some r2"
  shows "let v1 = load_begin api v; v2 = load_begin api (v1\<lparr>listQuery := q\<rparr>);
             w = load_end prep (Some p2) v2; w' = load_end prep (Some p1) w
    in calls v2 = calls v @ [api (JObj (listQuery v)), api (JObj q)]
       \<and> rows (listRes w) = r2 \<and> \<not> loading (listRes w)
       \<and> rows (listRes w') = r1 \<and> total (listRes w') = page_total p1"
  using load_end_Some [of prep p1 r1] load_end_Some [of prep p2 r2] assms by (simp add: Let_def)

text \<open>
  A batch removal makes exactly one call, for all selected items, and only when something is
  selected and the user confirmed; it reports success and refreshes the list only when that call
  succeeded, and returns true exactly then.
\<close>

lemma batch_remove_once:
  assumes "\<And>v. calls (clear v) = calls v \<and> toasts_shown (clear v) = toasts_shown v"
    and "\<And>v. calls (getList v) = calls v @ reload \<and> toasts_shown (getList v) = toasts_shown v"
  shows "case batchConfirmAndRemove batchApi clear getList items confirmed ok v of (done, w) \<Rightarrow>
      (done \<longleftrightarrow> items \<noteq> [] \<and> confirmed \<and> ok)
      \<and> calls w = calls v @ (if items \<noteq> [] \<and> confirmed then [batchApi items] else []) @ (if done then reload else [])
      \<and> toasts_shown w = toasts_shown v @
          (if items = [] then [Warning ''PleaseSelectData''] else if done then [Success ''OperationSuccess''] else [])"
  using assms by (simp add: batchConfirmAndRemove_def Let_def)

text \<open>
  A bulk removal makes at most one call per row and none while another removal is running or
  without confirmation; the count it returns is the number of rows whose call succeeded, the
  selection is cleared exactly when that count is positive, the removal flag is always released,
  and exactly one toast tells complete, partial and total failure apart.
\<close>

lemma bulk_remove_outcome:
  assumes "\<not> removing b" and "rs \<noteq> []"
    and "\<And>v. toasts_shown (getList v) = toasts_shown v" and "\<And>v. toasts_shown (onAfterRemove v) = toasts_shown v"
  shows "case bulkConfirmAndRemove api p onAfterRemove getList rs True oks b of (n, b') \<Rightarrow>
      n = length (filter (\<lambda>r. p r \<noteq> None \<and> oks r) rs)
      \<and> \<not> removing b'
      \<and> selectedRows b' = (if n = 0 then selectedRows b else [])
      \<and> toasts_shown (bview b') = toasts_shown (bview b) @
          [if \<forall>r \<in> set rs. p r \<noteq> None \<and> oks r then Success ''OperationSuccess''
           else if \<exists>r \<in> set rs. p r \<noteq> None \<and> oks r then Warning ''OperationSuccess''
           else Error ''OperationFailed'']"
proof -
  let ?good = "\<lambda>r. p r \<noteq> None \<and> oks r"
  have n: "length (filter snd (map (removeOne api p oks) rs)) = length (filter ?good rs)"
    by (induction rs) (auto simp: removeOne_def split: option.splits)
  have all: "length (filter ?good rs) = length rs \<longleftrightarrow> (\<forall>r \<in> set rs. ?good r)"
    by (rule length_filter_all_iff)
  have none: "length (filter ?good rs) = 0 \<longleftrightarrow> (\<forall>r \<in> set rs. \<not> ?good r)"
    by (rule length_filter_zero_iff)
  have pos: "0 < length (filter ?good rs) \<longleftrightarrow> (\<exists>r \<in> set rs. ?good r)"
    using none by blast
  show ?thesis
    unfolding bulkConfirmAndRemove_def bulk_begin_def bulk_end_def Let_def n
    using assms by (simp only: all [symmetric] pos [symmetric]) simp
qed

text \<open>
  While a bulk removal waits for its confirmation or its calls, a second request does
  nothing; a cancelled dialog makes no call, keeps the selection and releases the flag.
\<close>

lemma bulk_remove_exclusive:
  "bulkConfirmAndRemove api p after getList rs' c oks (snd (bulk_begin (r # rs) b)) = (0, snd (bulk_begin (r # rs) b))
   \<and> bulk_end api p after getList (r # rs) False oks b = (0, b\<lparr>removing := False\<rparr>)"
  by (auto simp: bulkConfirmAndRemove_def bulk_begin_def bulk_end_def)

end
