(* ===== verification/Views.thy ===== *)
theory Views
  imports Crud I18n
begin

text \<open>
  The list views without an address book: collections (\<open>views/address_book/collection.js\<close>), sharing
  rules (\<open>rule.js\<close>), the two audit logs (\<open>views/audit/reponsitories.js\<close>), the login log
  (\<open>views/login/log.js\<close>), share records, user tokens, users and the user form. Each view is the
  shared code of theory \<open>Crud\<close> with its own API functions, initial query and treatment of the rows.
  \<open>scope\<close> is the \<open>api_type\<close> argument of \<open>useRepositories\<close>. The locale \<open>list_view\<close> is interpreted
  on every view with a \<open>getList\<close> and a \<open>del\<close>.
\<close>

datatype scope = Admin | My

record apis =
  list_api :: "jsval \<Rightarrow> config"
  remove_api :: "jsval \<Rightarrow> config"
  update_api :: "jsval \<Rightarrow> config"
  create_api :: "jsval \<Rightarrow> config"

record batch_apis =
  blist_api :: "jsval \<Rightarrow> config"
  bremove_api :: "jsval \<Rightarrow> config"
  batchDelete_api :: "jsval \<Rightarrow> config"

definition id_payload :: "obj \<Rightarrow> jsval" where
  "id_payload row = JObj [(''id'', get row ''id'')]"

definition ids_payload :: "obj list \<Rightarrow> jsval" where
  "ids_payload rs = JObj [(''ids'', JArr (map (\<lambda>r. get r ''id'') rs))]"

subsection \<open>Collections (views/address_book/collection.js)\<close>

definition collection_apis :: "scope \<Rightarrow> apis" where
  "collection_apis s =
     (case s of
        Admin \<Rightarrow> \<lparr>list_api = address_book_collection_list, remove_api = address_book_collection_remove,
                  update_api = address_book_collection_update, create_api = address_book_collection_create\<rparr>
      | My \<Rightarrow> \<lparr>list_api = my_address_book_collection_list, remove_api = my_address_book_collection_remove,
               update_api = my_address_book_collection_update, create_api = my_address_book_collection_create\<rparr>)"

definition collection_form :: obj where
  "collection_form = [(''id'', JNum 0), (''name'', JStr '''')]"

definition collection_init :: view where
  "collection_init =
     mk_view [(''page'', JNum 1), (''page_size'', JNum 10), (''name'', JNull), (''user_id'', JNull)] collection_form"

definition collection_getList :: "scope \<Rightarrow> page option \<Rightarrow> view \<Rightarrow> view" where
  "collection_getList s res v = load (list_api (collection_apis s)) Some res v"

definition collection_handlerQuery :: "scope \<Rightarrow> page option \<Rightarrow> view \<Rightarrow> view" where
  "collection_handlerQuery s res v = query_first_page (collection_getList s res) v"

definition collection_del :: "scope \<Rightarrow> obj \<Rightarrow> bool \<Rightarrow> bool \<Rightarrow> page option \<Rightarrow> view \<Rightarrow> view" where
  "collection_del s row confirmed ok res v =
     delete_row (remove_api (collection_apis s) (id_payload row)) (collection_getList s res) confirmed ok v"

definition collection_toEdit :: "obj \<Rightarrow> view \<Rightarrow> view" where
  "collection_toEdit row v = v\<lparr>formVisible := True, formData := copy_keys (formData v) row\<rparr>"

definition collection_toAdd :: "view \<Rightarrow> view" where
  "collection_toAdd v = v\<lparr>formVisible := True, formData := copy_keys (formData v) []\<rparr>"

definition collection_submit :: "scope \<Rightarrow> bool \<Rightarrow> page option \<Rightarrow> view \<Rightarrow> view" where
  "collection_submit s ok res v =
     (let api = (if truthy (get (formData v) ''id'') then update_api else create_api) (collection_apis s)
      in submit_form (api (JObj (formData v))) (collection_getList s res) ok v)"

subsection \<open>Sharing rules (views/address_book/rule.js)\<close>

definition rule_apis :: "scope \<Rightarrow> apis" where
  "rule_apis s =
     (case s of
        Admin \<Rightarrow> \<lparr>list_api = address_book_collection_rule_list, remove_api = address_book_collection_rule_remove,
                  update_api = address_book_collection_rule_update, create_api = address_book_collection_rule_create\<rparr>
      | My \<Rightarrow> \<lparr>list_api = my_address_book_collection_rule_list, remove_api = my_address_book_collection_rule_remove,
               update_api = my_address_book_collection_rule_update, create_api = my_address_book_collection_rule_create\<rparr>)"

text \<open>\<open>groupUsers()\<close> is called without an argument.\<close>

definition rule_groupUsers :: "scope \<Rightarrow> config" where
  "rule_groupUsers s = (case s of Admin \<Rightarrow> user_groupUsers JUndef | My \<Rightarrow> my_user_groupUsers JUndef)"

definition rule_values :: "(string \<times> int) list" where
  "rule_values = [(''Read'', 1), (''ReadWrite'', 2), (''FullControl'', 3)]"

definition TYPE_U :: jsval where "TYPE_U = JNum 1"
definition TYPE_G :: jsval where "TYPE_G = JNum 2"

record rule_view =
  rview :: view
  groups :: "obj list"
  users :: "obj list"

definition rule_form_init :: obj where
  "rule_form_init =
     [(''id'', JNum 0), (''collection_id'', JNull), (''type'', TYPE_U), (''rule'', JNum 1),
      (''g_id'', JNull), (''u_id'', JNull), (''to_id'', JNull), (''user_id'', JNull)]"

definition rule_init :: rule_view where
  "rule_init =
     \<lparr>rview = mk_view [(''page'', JNum 1), (''page_size'', JNum 10), (''collection_id'', JNull)] rule_form_init,
      groups = [], users = []\<rparr>"

definition rule_getList :: "scope \<Rightarrow> page option \<Rightarrow> view \<Rightarrow> view" where
  "rule_getList s res v = load (list_api (rule_apis s)) Some res v"

definition rule_handlerQuery :: "scope \<Rightarrow> page option \<Rightarrow> view \<Rightarrow> view" where
  "rule_handlerQuery s res v = query_first_page (rule_getList s res) v"

definition rule_del :: "scope \<Rightarrow> obj \<Rightarrow> bool \<Rightarrow> bool \<Rightarrow> page option \<Rightarrow> view \<Rightarrow> view" where
  "rule_del s row confirmed ok res v =
     delete_row (remove_api (rule_apis s) (id_payload row)) (rule_getList s res) confirmed ok v"

text \<open>\<open>users.value.find(u => u.id === row.to_id)?.group_id\<close>\<close>

definition group_of_user :: "obj list \<Rightarrow> jsval \<Rightarrow> jsval" where
  "group_of_user us i = (case find (\<lambda>u. get u ''id'' = i) us of None \<Rightarrow> JUndef | Some u \<Rightarrow> get u ''group_id'')"

definition rule_toEdit :: "obj \<Rightarrow> rule_view \<Rightarrow> rule_view" where
  "rule_toEdit row w =
     (let form = copy_keys (formData (rview w)) row;
          form = (if get row ''type'' = TYPE_U
                  then put (put form ''u_id'' (get row ''to_id'')) ''g_id'' (group_of_user (users w) (get row ''to_id''))
                  else put (put form ''g_id'' (get row ''to_id'')) ''u_id'' JNull)
      in w\<lparr>rview := (rview w)\<lparr>formVisible := True, formData := form\<rparr>\<rparr>)"

definition rule_toAdd :: "rule_view \<Rightarrow> rule_view" where
  "rule_toAdd w =
     (let form = formData (rview w);
          form = put form ''id'' (JNum 0); form = put form ''type'' TYPE_U; form = put form ''rule'' (JNum 1);
          form = put form ''g_id'' JNull; form = put form ''u_id'' JNull
      in w\<lparr>rview := (rview w)\<lparr>formVisible := True, formData := form\<rparr>\<rparr>)"

definition rule_form :: "obj \<Rightarrow> obj" where
  "rule_form form = put form ''to_id'' (if get form ''type'' = TYPE_G then get form ''g_id'' else get form ''u_id'')"

definition rule_submit :: "scope \<Rightarrow> bool \<Rightarrow> page option \<Rightarrow> view \<Rightarrow> view" where
  "rule_submit s ok res v =
     (let api = (if truthy (get (formData v) ''id'') then update_api else create_api) (rule_apis s)
      in submit_form (api (JObj (rule_form (formData v)))) (rule_getList s res) ok v)"

text \<open>
  \<open>getGroupUsers\<close>: every group gets the users of that group appended to its children; \<open>answer\<close> is
  the groups and users of the response.
\<close>

fun children_of :: "jsval \<Rightarrow> jsval list" where
  "children_of (JArr xs) = xs"
| "children_of _ = []"

definition with_members :: "obj list \<Rightarrow> obj \<Rightarrow> obj" where
  "with_members us item =
     put item ''children''
       (JArr (children_of (get item ''children'') @
              map JObj (filter (\<lambda>u. get item ''id'' = get u ''group_id'') us)))"

definition getGroupUsers :: "scope \<Rightarrow> (obj list \<times> obj list) option \<Rightarrow> rule_view \<Rightarrow> rule_view" where
  "getGroupUsers s answer w =
     (let w = w\<lparr>rview := call (rule_groupUsers s) (rview w)\<rparr>
      in case answer of
           None \<Rightarrow> w
         | Some (gs, us) \<Rightarrow> w\<lparr>groups := map (with_members us) gs, users := us\<rparr>)"

definition changeGId :: "view \<Rightarrow> view" where
  "changeGId v = v\<lparr>formData := put (formData v) ''u_id'' JNull\<rparr>"

subsection \<open>Audit logs (views/audit/reponsitories.js)\<close>

definition audit_init :: view where
  "audit_init =
     mk_view [(''page'', JNum 1), (''page_size'', JNum 10), (''peer_id'', JNull), (''from_peer'', JNull)] []"

text \<open>
  The closing time of a connection, which the server sends as an integer number of seconds, zero
  for an open one. \<open>local_date\<close> gives the local date of a Unix time in milliseconds.
\<close>

fun close_time_text :: "(int \<Rightarrow> date_parts) \<Rightarrow> jsval \<Rightarrow> jsval" where
  "close_time_text local_date (JNum n) =
     JStr (if n = 0 then ''-'' else formatTime (local_date (n * 1000)) default_format)"
| "close_time_text local_date _ = JStr ''-''"

definition show_close_time :: "(int \<Rightarrow> date_parts) \<Rightarrow> obj \<Rightarrow> obj" where
  "show_close_time local_date item =
     put item ''close_time'' (close_time_text local_date (get item ''close_time''))"

definition audit_getList :: "(int \<Rightarrow> date_parts) \<Rightarrow> page option \<Rightarrow> view \<Rightarrow> view" where
  "audit_getList local_date res v = load audit_list (\<lambda>rs. Some (map (show_close_time local_date) rs)) res v"

definition audit_handlerQuery :: "(int \<Rightarrow> date_parts) \<Rightarrow> page option \<Rightarrow> view \<Rightarrow> view" where
  "audit_handlerQuery local_date res v = query_first_page (audit_getList local_date res) v"

definition audit_del :: "(int \<Rightarrow> date_parts) \<Rightarrow> obj \<Rightarrow> bool \<Rightarrow> bool \<Rightarrow> page option \<Rightarrow> view \<Rightarrow> view" where
  "audit_del local_date row confirmed ok res v =
     delete_row (audit_remove (id_payload row)) (audit_getList local_date res) confirmed ok v"

definition audit_batchdel ::
    "(int \<Rightarrow> date_parts) \<Rightarrow> obj list \<Rightarrow> bool \<Rightarrow> bool \<Rightarrow> page option \<Rightarrow> view \<Rightarrow> bool \<times> view" where
  "audit_batchdel local_date rs confirmed ok res v =
     batchConfirmAndRemove (\<lambda>rs. audit_batchDelete (ids_payload rs)) (\<lambda>v. v) (audit_getList local_date res)
       rs confirmed ok v"

definition audit_toExport :: "(int \<Rightarrow> date_parts) \<Rightarrow> page option \<Rightarrow> view \<Rightarrow> view" where
  "audit_toExport local_date res v =
     export_rows audit_list (map (show_close_time local_date)) ''connectLog.csv'' res v"

text \<open>
  File transfers: \<open>info\<close> is JSON text. \<open>JSON.parse\<close> raises on malformed text, and then the rows of
  the answer are not shown. (A text with a fraction or an exponent is outside the number model and
  is not distinguished from malformed text here.)
\<close>

definition parse_info :: "obj \<Rightarrow> obj option" where
  "parse_info item =
     (if \<not> truthy (get item ''info'') then Some (put item ''info'' (JStr ''-''))
      else case JSON_parse (toStr (get item ''info'')) of
             Parsed j \<Rightarrow> Some (put item ''info'' j)
           | _ \<Rightarrow> None)"

fun map_option_list :: "('a \<Rightarrow> 'b option) \<Rightarrow> 'a list \<Rightarrow> 'b list option" where
  "map_option_list f [] = Some []"
| "map_option_list f (x # xs) =
     (case f x of
        None \<Rightarrow> None
      | Some y \<Rightarrow> (case map_option_list f xs of None \<Rightarrow> None | Some ys \<Rightarrow> Some (y # ys)))"

definition file_getList :: "page option \<Rightarrow> view \<Rightarrow> view" where
  "file_getList res v = load audit_fileList (map_option_list parse_info) res v"

definition file_handlerQuery :: "page option \<Rightarrow> view \<Rightarrow> view" where
  "file_handlerQuery res v = query_first_page (file_getList res) v"

definition file_del :: "obj \<Rightarrow> bool \<Rightarrow> bool \<Rightarrow> page option \<Rightarrow> view \<Rightarrow> view" where
  "file_del row confirmed ok res v =
     delete_row (audit_fileRemove (id_payload row)) (file_getList res) confirmed ok v"

definition file_batchdel :: "obj list \<Rightarrow> bool \<Rightarrow> bool \<Rightarrow> page option \<Rightarrow> view \<Rightarrow> bool \<times> view" where
  "file_batchdel rs confirmed ok res v =
     batchConfirmAndRemove (\<lambda>rs. audit_fileBatchDelete (ids_payload rs)) (\<lambda>v. v) (file_getList res) rs confirmed ok v"

definition file_toExport :: "page option \<Rightarrow> view \<Rightarrow> view" where
  "file_toExport res v = export_rows audit_fileList (\<lambda>rs. rs) ''fileTransformLog.csv'' res v"

subsection \<open>Login log (views/login/log.js)\<close>

definition log_apis :: "scope \<Rightarrow> batch_apis" where
  "log_apis s =
     (case s of
        Admin \<Rightarrow> \<lparr>blist_api = login_log_list, bremove_api = login_log_remove, batchDelete_api = login_log_batchDelete\<rparr>
      | My \<Rightarrow> \<lparr>blist_api = my_login_log_list, bremove_api = my_login_log_remove, batchDelete_api = my_login_log_batchDelete\<rparr>)"

definition fetchPeers :: "scope \<Rightarrow> jsval \<Rightarrow> config" where
  "fetchPeers s = (case s of Admin \<Rightarrow> peer_list | My \<Rightarrow> my_peer_list)"

definition log_init :: view where
  "log_init =
     mk_view [(''page'', JNum 1), (''page_size'', JNum 10), (''is_my'', JNum 0), (''user_id'', JNull)] []"

text \<open>The device identifiers to look up: those of client logins without a device id.\<close>

definition log_uuids :: "obj list \<Rightarrow> jsval list" where
  "log_uuids rs =
     map (\<lambda>r. get r ''uuid'')
       (filter (\<lambda>r. truthy (get r ''uuid'') \<and> get r ''client'' = JStr ''client'' \<and> \<not> truthy (get r ''device_id'')) rs)"

text \<open>\<open>[...new Set(xs)]\<close>: the first occurrences, in order.\<close>

fun unique :: "'a list \<Rightarrow> 'a list" where
  "unique [] = []"
| "unique (x # xs) = x # filter (\<lambda>y. y \<noteq> x) (unique xs)"

definition find_value :: "(obj \<Rightarrow> bool) \<Rightarrow> obj list \<Rightarrow> jsval" where
  "find_value P rs = (case find P rs of None \<Rightarrow> JUndef | Some r \<Rightarrow> JObj r)"

definition attach_peer :: "obj list \<Rightarrow> obj \<Rightarrow> obj" where
  "attach_peer peers item =
     (if truthy (get item ''uuid'')
      then put item ''peer'' (find_value (\<lambda>p. get p ''uuid'' = get item ''uuid'') peers) else item)"

text \<open>
  \<open>getList\<close>: \<open>peers\<close> is the list of the second answer, \<open>None\<close> if that call failed or its answer
  carries no list.
\<close>

definition log_peer_calls :: "scope \<Rightarrow> page option \<Rightarrow> config list" where
  "log_peer_calls s res =
     (case res of
        None \<Rightarrow> []
      | Some pg \<Rightarrow>
          (if log_uuids (page_list pg) = [] then []
           else [fetchPeers s (JObj [(''uuids'', JArr (unique (log_uuids (page_list pg))))])]))"

definition log_rows :: "obj list option \<Rightarrow> obj list \<Rightarrow> obj list option" where
  "log_rows peers rs =
     Some (if log_uuids rs = [] then rs
           else case peers of None \<Rightarrow> rs | Some ps \<Rightarrow> map (attach_peer ps) rs)"

definition log_getList :: "scope \<Rightarrow> obj list option \<Rightarrow> page option \<Rightarrow> view \<Rightarrow> view" where
  "log_getList s peers res v =
     (let v = load_begin (blist_api (log_apis s)) v;
          v = v\<lparr>calls := calls v @ log_peer_calls s res\<rparr>
      in load_end (log_rows peers) res v)"

definition log_handlerQuery :: "scope \<Rightarrow> obj list option \<Rightarrow> page option \<Rightarrow> view \<Rightarrow> view" where
  "log_handlerQuery s peers res v = query_first_page (log_getList s peers res) v"

definition log_del :: "scope \<Rightarrow> obj \<Rightarrow> bool \<Rightarrow> bool \<Rightarrow> obj list option \<Rightarrow> page option \<Rightarrow> view \<Rightarrow> view" where
  "log_del s row confirmed ok peers res v =
     delete_row (bremove_api (log_apis s) (id_payload row)) (log_getList s peers res) confirmed ok v"

definition log_batchdel ::
    "scope \<Rightarrow> obj list \<Rightarrow> bool \<Rightarrow> bool \<Rightarrow> obj list option \<Rightarrow> page option \<Rightarrow> view \<Rightarrow> bool \<times> view" where
  "log_batchdel s rs confirmed ok peers res v =
     batchConfirmAndRemove (\<lambda>rs. batchDelete_api (log_apis s) (ids_payload rs)) (\<lambda>v. v) (log_getList s peers res)
       rs confirmed ok v"

definition log_toExport :: "scope \<Rightarrow> page option \<Rightarrow> view \<Rightarrow> view" where
  "log_toExport s res v =
     (if s \<noteq> Admin then v else export_rows login_log_list (\<lambda>rs. rs) ''loginLog.csv'' res v)"

subsection \<open>Share records (views/share_record/index.js)\<close>

definition share_apis :: "scope \<Rightarrow> batch_apis" where
  "share_apis s =
     (case s of
        Admin \<Rightarrow> \<lparr>blist_api = share_record_list, bremove_api = share_record_remove, batchDelete_api = share_record_batchDelete\<rparr>
      | My \<Rightarrow> \<lparr>blist_api = my_share_record_list, bremove_api = my_share_record_remove,
               batchDelete_api = my_share_record_batchDelete\<rparr>)"

record share_view =
  sview :: view
  multipleSelection :: "obj list"

definition share_init :: share_view where
  "share_init = \<lparr>sview = mk_view [(''page'', JNum 1), (''page_size'', JNum 10)] [], multipleSelection = []\<rparr>"

definition share_getList :: "scope \<Rightarrow> page option \<Rightarrow> view \<Rightarrow> view" where
  "share_getList s res v = load (blist_api (share_apis s)) Some res v"

definition share_handlerQuery :: "scope \<Rightarrow> page option \<Rightarrow> view \<Rightarrow> view" where
  "share_handlerQuery s res v = query_first_page (share_getList s res) v"

definition share_del :: "scope \<Rightarrow> obj \<Rightarrow> bool \<Rightarrow> bool \<Rightarrow> page option \<Rightarrow> view \<Rightarrow> view" where
  "share_del s row confirmed ok res v =
     delete_row (bremove_api (share_apis s) (id_payload row)) (share_getList s res) confirmed ok v"

text \<open>The second emptiness test of the source cannot fail after the first one.\<close>

definition toBatchDelete :: "scope \<Rightarrow> bool \<Rightarrow> bool \<Rightarrow> page option \<Rightarrow> share_view \<Rightarrow> share_view" where
  "toBatchDelete s confirmed ok res w =
     (if multipleSelection w = [] then w
      else if map (\<lambda>r. get r ''id'') (multipleSelection w) = []
      then w\<lparr>sview := toast (Warning ''PleaseSelectData'') (sview w)\<rparr>
      else if \<not> confirmed then w
      else
        (let v = call (batchDelete_api (share_apis s) (ids_payload (multipleSelection w))) (sview w)
         in if \<not> ok then w\<lparr>sview := v\<rparr>
            else w\<lparr>sview := share_getList s res (toast (Success ''OperationSuccess'') v), multipleSelection := []\<rparr>))"

text \<open>\<open>expired\<close>: \<open>created_at\<close> and \<open>now\<close> in milliseconds, \<open>expire\<close> in seconds, zero for never.\<close>

definition expired :: "int \<Rightarrow> int \<Rightarrow> int \<Rightarrow> bool" where
  "expired now created_at expire = (if expire = 0 then False else expire * 1000 + created_at < now)"

subsection \<open>User tokens (views/user/token.js)\<close>

text \<open>\<open>user_id ? parseInt(user_id) : null\<close>, with \<open>None\<close> for \<open>NaN\<close>, which is no value of the model.\<close>

definition query_user_id :: "jsval \<Rightarrow> jsval option" where
  "query_user_id user_id =
     (if truthy user_id then map_option JNum (parseInt (toStr user_id)) else Some JNull)"

definition token_init :: "jsval \<Rightarrow> view option" where
  "token_init user_id =
     (case query_user_id user_id of
        None \<Rightarrow> None
      | Some u \<Rightarrow>
          Some (mk_view [(''page'', JNum 1), (''page_size'', JNum 10), (''is_my'', JNum 0), (''user_id'', u)] []))"

definition token_getList :: "page option \<Rightarrow> view \<Rightarrow> view" where
  "token_getList res v = load user_token_list Some res v"

definition token_handlerQuery :: "page option \<Rightarrow> view \<Rightarrow> view" where
  "token_handlerQuery res v = query_first_page (token_getList res) v"

definition token_del :: "obj \<Rightarrow> bool \<Rightarrow> bool \<Rightarrow> page option \<Rightarrow> view \<Rightarrow> view" where
  "token_del row confirmed ok res v =
     delete_row (user_token_remove (id_payload row)) (token_getList res) confirmed ok v"

definition token_batchDelete :: "jsval list \<Rightarrow> bool \<Rightarrow> bool \<Rightarrow> page option \<Rightarrow> view \<Rightarrow> bool \<times> view" where
  "token_batchDelete ids confirmed ok res v =
     batchConfirmAndRemove (\<lambda>ids. user_token_batchRemove (JObj [(''ids'', JArr ids)])) (\<lambda>v. v) (token_getList res)
       ids confirmed ok v"

subsection \<open>Users (views/user/composables/index.js)\<close>

definition ENABLE_STATUS :: jsval where "ENABLE_STATUS = JNum 1"
definition DISABLE_STATUS :: jsval where "DISABLE_STATUS = JNum 2"

definition users_init :: view where
  "users_init = mk_view [(''page'', JNum 1), (''page_size'', JNum 10), (''username'', JStr '''')] []"

definition normal_status :: "obj \<Rightarrow> obj" where
  "normal_status u =
     (if get u ''status'' \<noteq> ENABLE_STATUS \<and> get u ''status'' \<noteq> DISABLE_STATUS
      then put u ''status'' DISABLE_STATUS else u)"

definition users_getList :: "page option \<Rightarrow> view \<Rightarrow> view" where
  "users_getList res v = load user_list (\<lambda>rs. Some (map normal_status rs)) res v"

definition users_handlerQuery :: "page option \<Rightarrow> view \<Rightarrow> view" where
  "users_handlerQuery res v = query_first_page (users_getList res) v"

text \<open>\<open>getGroups\<close> of the list and of the form: the groups shown and the calls made.\<close>

definition getGroups :: "page option \<Rightarrow> obj list \<Rightarrow> view \<Rightarrow> obj list \<times> view" where
  "getGroups res gs v =
     (case res of None \<Rightarrow> gs | Some pg \<Rightarrow> page_list pg, call (group_list (JObj [(''page_size'', JNum 9999)])) v)"

definition users_toExport :: "page option \<Rightarrow> view \<Rightarrow> view" where
  "users_toExport res v = export_rows user_list (\<lambda>rs. rs) ''users.csv'' res v"

text \<open>The paths \<open>useToEditOrAdd\<close> pushes.\<close>

definition toEdit_path :: "obj \<Rightarrow> string" where
  "toEdit_path row = ''/admin/users/edit/'' @ toStr (get row ''id'')"

definition toAdd_path :: string where
  "toAdd_path = ''/admin/users/add''"

definition toTag_path :: "obj \<Rightarrow> string" where
  "toTag_path row = ''/admin/address-book/tags?user_id='' @ toStr (get row ''id'')"

definition toAddressBook_path :: "obj \<Rightarrow> string" where
  "toAddressBook_path row = ''/admin/address-book/books?user_id='' @ toStr (get row ''id'')"

text \<open>
  \<open>useDel\<close>: the promise of the removal call is not awaited, so the test that follows sees a promise,
  which is truthy whatever becomes of the call. The result is the outcome of that promise, \<open>None\<close>
  when the user cancelled.
\<close>

definition user_del :: "jsval \<Rightarrow> bool \<Rightarrow> bool \<Rightarrow> view \<Rightarrow> bool option \<times> view" where
  "user_del i confirmed ok v =
     (if \<not> confirmed then (None, v)
      else (Some ok, toast (Success ''OperationSuccess'') (call (user_remove (JObj [(''id'', i)])) v)))"

text \<open>\<open>useChangePwd\<close>: \<open>input\<close> is the text of the prompt, \<open>None\<close> if it was cancelled.\<close>

definition changePass :: "obj \<Rightarrow> string option \<Rightarrow> bool \<Rightarrow> bool \<Rightarrow> view \<Rightarrow> view" where
  "changePass admin input confirmed ok v =
     (case input of
        None \<Rightarrow> v
      | Some pw \<Rightarrow>
          (if \<not> confirmed then v
           else
             (let v = call (user_changePwd (JObj [(''id'', get admin ''id''), (''password'', JStr pw)])) v
              in if ok then toast (Success ''OperationSuccess'') v else v)))"

subsection \<open>The user form (views/user/composables/edit.js)\<close>

definition defaultForm :: obj where
  "defaultForm =
     [(''username'', JStr ''''), (''email'', JStr ''''), (''nickname'', JStr ''''), (''remark'', JStr ''''),
      (''group_id'', JNum 0), (''is_admin'', JBool False), (''status'', JNum 1)]"

text \<open>\<open>getDetail\<close>: \<open>formData\<close> is the form; the first component is the copy of the original values.\<close>

definition detail_form :: "obj \<Rightarrow> obj" where
  "detail_form d =
     put (put (spread [] d) ''is_admin'' (JBool (truthy (get d ''is_admin''))))
       ''status'' (if get d ''status'' = ENABLE_STATUS then ENABLE_STATUS else DISABLE_STATUS)"

definition getDetail :: "jsval \<Rightarrow> obj option \<Rightarrow> obj \<Rightarrow> view \<Rightarrow> obj \<times> view" where
  "getDetail i res item v =
     (let v = call (user_detail i) v
      in case res of None \<Rightarrow> (item, v) | Some d \<Rightarrow> (spread [] d, v\<lparr>formData := detail_form d\<rparr>))"

text \<open>
  \<open>submit\<close>: \<open>valid\<close> is the outcome of the form validation, \<open>code\<close> the code of the answer, \<open>None\<close> for a
  rejected call. The result says whether the router goes back.
\<close>

definition user_submit :: "int \<Rightarrow> bool \<Rightarrow> int option \<Rightarrow> view \<Rightarrow> bool \<times> view" where
  "user_submit i valid code v =
     (if \<not> valid then (False, v)
      else
        (let v = call ((if i > 0 then user_update else user_create) (JObj (formData v))) v
         in if code = Some 0 then (True, toast (Success ''OperationSuccess'') v) else (False, v)))"

definition required_fields :: "string list" where
  "required_fields = [''username'', ''group_id'', ''status'']"

subsection \<open>Lemmas\<close>

lemma set_unique [simp]: "set (unique xs) = set xs"
  by (induction xs) auto

lemma distinct_unique [simp]: "distinct (unique xs)"
  by (induction xs) auto

lemma unique_Nil_iff [simp]: "unique xs = [] \<longleftrightarrow> xs = []"
  by (cases xs) auto

lemma map_option_list_Some:
  "map_option_list f xs = Some ys \<Longrightarrow> length ys = length xs \<and> (\<forall>i < length xs. f (xs ! i) = Some (ys ! i))"
proof (induction xs arbitrary: ys)
  case (Cons x xs)
  then obtain y ys' where "f x = Some y" "map_option_list f xs = Some ys'" "ys = y # ys'"
    by (auto split: option.splits)
  then show ?case using Cons.IH by (auto simp: nth_Cons split: nat.split)
qed simp

lemma attach_peer_other: "k \<noteq> ''peer'' \<Longrightarrow> get (attach_peer ps r) k = get r k"
  by (simp add: attach_peer_def)

lemma log_getList_calls:
  "calls (log_getList s peers res v) =
     calls v @ blist_api (log_apis s) (JObj (listQuery v)) # log_peer_calls s res"
  by (simp add: log_getList_def Let_def)

lemma log_getList_sel [simp]:
  "listQuery (log_getList s peers res v) = listQuery v" "\<not> loading (listRes (log_getList s peers res v))"
  "toasts_shown (log_getList s peers res v) = toasts_shown v"
  "rows (listRes (log_getList s peers None v)) = rows (listRes v)"
  "log_rows peers (page_list pg) = Some rs \<Longrightarrow> rows (listRes (log_getList s peers (Some pg) v)) = rs"
  by (simp_all add: log_getList_def Let_def load_end_Some)

lemma ids_payload_length: "ids_payload rs = JObj [(''ids'', JArr ids)] \<Longrightarrow> length ids = length rs"
  by (auto simp: ids_payload_def)

lemmas getList_defs = collection_getList_def rule_getList_def audit_getList_def file_getList_def share_getList_def
  token_getList_def users_getList_def

lemmas del_defs = collection_del_def rule_del_def audit_del_def file_del_def share_del_def token_del_def log_del_def

interpretation coll: list_view "\<lambda>_ :: unit. collection_getList s" "\<lambda>row c ok _. collection_del s row c ok"
  "\<lambda>_ _ q. [list_api (collection_apis s) (JObj q)]" "\<lambda>row. remove_api (collection_apis s) (id_payload row)" for s
  by unfold_locales (simp_all add: getList_defs del_defs)

interpretation rules: list_view "\<lambda>_ :: unit. rule_getList s" "\<lambda>row c ok _. rule_del s row c ok"
  "\<lambda>_ _ q. [list_api (rule_apis s) (JObj q)]" "\<lambda>row. remove_api (rule_apis s) (id_payload row)" for s
  by unfold_locales (simp_all add: getList_defs del_defs)

interpretation conn_log: list_view "\<lambda>_ :: unit. audit_getList ld" "\<lambda>row c ok _. audit_del ld row c ok"
  "\<lambda>_ _ q. [audit_list (JObj q)]" "\<lambda>row. audit_remove (id_payload row)" for ld
  by unfold_locales (simp_all add: getList_defs del_defs)

interpretation file_log: list_view "\<lambda>_ :: unit. file_getList" "\<lambda>row c ok _. file_del row c ok"
  "\<lambda>_ _ q. [audit_fileList (JObj q)]" "\<lambda>row. audit_fileRemove (id_payload row)"
  by unfold_locales (simp_all add: getList_defs del_defs)

interpretation shares: list_view "\<lambda>_ :: unit. share_getList s" "\<lambda>row c ok _. share_del s row c ok"
  "\<lambda>_ _ q. [blist_api (share_apis s) (JObj q)]" "\<lambda>row. bremove_api (share_apis s) (id_payload row)" for s
  by unfold_locales (simp_all add: getList_defs del_defs)

interpretation tokens: list_view "\<lambda>_ :: unit. token_getList" "\<lambda>row c ok _. token_del row c ok"
  "\<lambda>_ _ q. [user_token_list (JObj q)]" "\<lambda>row. user_token_remove (id_payload row)"
  by unfold_locales (simp_all add: getList_defs del_defs)

interpretation login_log: list_view "log_getList s" "log_del s"
  "\<lambda>_ res q. blist_api (log_apis s) (JObj q) # log_peer_calls s res"
  "\<lambda>row. bremove_api (log_apis s) (id_payload row)" for s
  by unfold_locales (simp_all add: del_defs log_getList_calls)

subsection \<open>Properties\<close>

text \<open>
  In every session of reloads and deletions of the login log, whatever the user confirms and
  the server answers, the view asks the server for exactly the calls of the confirmed deletions
  and the reloads in order, always with the same filters, congratulates the user once per
  deletion that was confirmed and succeeded, and ends with the loading flag off.
\<close>

lemma login_log_session:
  "let w = view_session (log_getList s) (log_del s) es log_init
   in calls w = concat (map (event_calls (\<lambda>_ res q. blist_api (log_apis s) (JObj q) # log_peer_calls s res)
        (\<lambda>row. bremove_api (log_apis s) (id_payload row)) (listQuery log_init)) es)
      \<and> toasts_shown w = replicate (length (filter deletes es)) (Success ''OperationSuccess'')
      \<and> listQuery w = listQuery log_init \<and> \<not> loading (listRes w)"
proof -
  have "calls log_init = []" "toasts_shown log_init = []" "\<not> loading (listRes log_init)"
    by (simp_all add: log_init_def mk_view_def empty_res_def)
  then show ?thesis
    unfolding Let_def
    using login_log.run_calls login_log.run_toasts login_log.run_query login_log.run_idle
    by (metis append_Nil)
qed

text \<open>
  Loading the login log looks up each device once: the second call is made exactly when some
  client login lacks a device id, its \<open>uuids\<close> are distinct and are those of these logins; the rows
  keep their order and every field but \<open>peer\<close>, and a row with a uuid gets the first peer with it.
\<close>

lemma login_log_peers:
  assumes "needed = (\<lambda>r. truthy (get r ''uuid'') \<and> get r ''client'' = JStr ''client'' \<and> \<not> truthy (get r ''device_id''))"
    and "\<exists>r \<in> set (page_list pg). needed r"
  shows "\<exists>us. calls (log_getList s (Some ps) (Some pg) v) =
        calls v @ [blist_api (log_apis s) (JObj (listQuery v)), fetchPeers s (JObj [(''uuids'', JArr us)])]
      \<and> distinct us \<and> set us = {get r ''uuid'' | r. r \<in> set (page_list pg) \<and> needed r}
      \<and> (let rs = rows (listRes (log_getList s (Some ps) (Some pg) v))
         in length rs = length (page_list pg)
            \<and> (\<forall>i < length rs. (\<forall>k. k \<noteq> ''peer'' \<longrightarrow> get (rs ! i) k = get (page_list pg ! i) k)
                 \<and> (truthy (get (page_list pg ! i) ''uuid'') \<longrightarrow>
                      get (rs ! i) ''peer'' =
                        find_value (\<lambda>p. get p ''uuid'' = get (page_list pg ! i) ''uuid'') ps)))"
proof -
  let ?us = "log_uuids (page_list pg)"
  have ne: "?us \<noteq> []" using assms by (auto simp: log_uuids_def filter_empty_conv)
  have set: "set ?us = {get r ''uuid'' | r. r \<in> set (page_list pg) \<and> needed r}"
    using assms(1) by (auto simp: log_uuids_def)
  have rs: "rows (listRes (log_getList s (Some ps) (Some pg) v)) = map (attach_peer ps) (page_list pg)"
    using ne by (simp add: log_rows_def)
  have calls: "calls (log_getList s (Some ps) (Some pg) v) =
      calls v @ [blist_api (log_apis s) (JObj (listQuery v)), fetchPeers s (JObj [(''uuids'', JArr (unique ?us))])]"
    using ne by (simp add: log_getList_calls log_peer_calls_def)
  show ?thesis
    using set calls by (intro exI [of _ "unique ?us"]) (simp add: rs attach_peer_def)
qed

text \<open>
  Opening a sharing rule for editing and submitting it unchanged sends the rule as it was:
  every field of the form but the two selectors, the grantee \<open>to_id\<close> included, has the value of
  the row, and the call is an update exactly when the rule has an id.
\<close>

lemma rule_edit_round_trip:
  assumes "keys (formData (rview w)) = keys (formData (rview rule_init))"
    and "get row ''type'' = TYPE_U \<or> get row ''type'' = TYPE_G"
  shows "\<exists>form. calls (rule_submit s ok None (rview (rule_toEdit row w))) =
        calls (rview w) @ (if truthy (get row ''id'') then update_api else create_api) (rule_apis s) (JObj form) #
          (if ok then [list_api (rule_apis s) (JObj (listQuery (rview w)))] else [])
      \<and> keys form = keys (formData (rview rule_init))
      \<and> list_all (\<lambda>k. get form k = get row k) [''id'', ''collection_id'', ''type'', ''rule'', ''to_id'', ''user_id'']"
proof -
  let ?f = "formData (rview (rule_toEdit row w))"
  let ?ks = "[''id'', ''collection_id'', ''type'', ''rule'', ''to_id'', ''user_id'']"
  have k0: "keys (formData (rview w)) = [''id'', ''collection_id'', ''type'', ''rule'', ''g_id'', ''u_id'', ''to_id'', ''user_id'']"
    using assms(1) by (simp add: rule_init_def rule_form_init_def mk_view_def keys_def)
  have ku: "keys ?f = keys (formData (rview w))"
    by (simp add: rule_toEdit_def Let_def k0)
  have kf: "keys (rule_form ?f) = keys (formData (rview rule_init))"
    using assms(1) by (simp add: rule_form_def keys_put ku k0 flip: assms(1))
  have ft: "get ?f ''type'' = get row ''type''" "get ?f ''id'' = get row ''id''"
    by (simp_all add: rule_toEdit_def Let_def get_copy_keys k0)
  have "TYPE_U \<noteq> TYPE_G" by (simp add: TYPE_U_def TYPE_G_def)
  then have "list_all (\<lambda>k. get (rule_form ?f) k = get row k) ?ks"
    using assms(2) ft by (auto simp: rule_form_def rule_toEdit_def Let_def get_copy_keys k0)
  then show ?thesis
    using kf ft by (intro exI [of _ "rule_form ?f"])
      (simp add: rule_submit_def submit_form_def rule_getList_def Let_def, simp add: rule_toEdit_def Let_def)
qed

text \<open>
  The deletion of a user tells the administrator that it succeeded whether or not the server
  removed the user: what the user sees after a failed call is what he sees after a successful one.
\<close>

lemma user_del_always_reports_success:
  "fst (user_del i True False v) = Some False
   \<and> snd (user_del i True False v) = snd (user_del i True True v)
   \<and> toasts_shown (snd (user_del i True False v)) = toasts_shown v @ [Success ''OperationSuccess'']"
  by (simp add: user_del_def)

end
