(* ===== verification/Tag.thy ===== *)
theory Tag
  imports Views JsDouble
begin

text \<open>
  The tag view (\<open>views/tag/index.js\<close>): the conversions between the colour number the Flutter client
  stores (alpha, red, green and blue bytes) and the \<open>rgba(...)\<close> text of the colour picker, with the
  alpha channel as a double, and the view with its two collection lists. The colour a server sends
  is a non-negative integer; numbers in a colour text are below \<open>2^53\<close>.
\<close>

subsection \<open>Colours\<close>

definition alpha_num :: "nat \<Rightarrow> string" where
  "alpha_num k = (if k = 0 then ''0'' else if k = 255 then ''1'' else unit_text (ddiv (int k) 255))"

definition flutterColor2rgba :: "nat \<Rightarrow> string" where
  "flutterColor2rgba color =
     (let hex = show_hex color;
          hex = (if length hex < 8 then replicate (8 - length hex) (CHR ''0'') @ hex else hex);
          alpha = take 2 hex;
          rgba = drop 2 hex
      in ''rgba('' @ show_nat (read_hex (take 2 rgba)) @ '', '' @ show_nat (read_hex (take 2 (drop 2 rgba))) @ '', ''
         @ show_nat (read_hex (take 2 (drop 4 rgba))) @ '', '' @ alpha_num (read_hex alpha) @ '')'')"

text \<open>The expression \<open>/rgba\((\d+),\s*(\d+),\s*(\d+),\s*(\d+(\.\d+)?)\)/\<close> and its captures.\<close>

definition match_component :: "string \<Rightarrow> (string \<times> string) option" where
  "match_component s =
     (case dropWhile is_digit s of
        [] \<Rightarrow> None
      | x # r \<Rightarrow>
          if takeWhile is_digit s \<noteq> [] \<and> x = CHR '','' then Some (takeWhile is_digit s, dropWhile is_ws r) else None)"

definition match_alpha :: "string \<Rightarrow> (string \<times> string) option" where
  "match_alpha s =
     (if takeWhile is_digit s = [] then None
      else
        case dropWhile is_digit s of
          [] \<Rightarrow> None
        | x # r \<Rightarrow>
            if x = CHR '')'' then Some (takeWhile is_digit s, [])
            else if x = CHR ''.'' \<and> takeWhile is_digit r \<noteq> [] \<and> startsWith (dropWhile is_digit r) '')''
            then Some (takeWhile is_digit s, takeWhile is_digit r) else None)"

definition match_here :: "string \<Rightarrow> (string \<times> string \<times> string \<times> string \<times> string) option" where
  "match_here s =
     (if \<not> startsWith s ''rgba('' then None
      else
        case match_component (drop 5 s) of
          None \<Rightarrow> None
        | Some (r, s1) \<Rightarrow>
            (case match_component s1 of
               None \<Rightarrow> None
             | Some (g, s2) \<Rightarrow>
                 (case match_component s2 of
                    None \<Rightarrow> None
                  | Some (b, s3) \<Rightarrow>
                      (case match_alpha s3 of None \<Rightarrow> None | Some (ai, af) \<Rightarrow> Some (r, g, b, ai, af)))))"

fun match_rgba :: "string \<Rightarrow> (string \<times> string \<times> string \<times> string \<times> string) option" where
  "match_rgba [] = None"
| "match_rgba (c # s) = (case match_here (c # s) of Some m \<Rightarrow> Some m | None \<Rightarrow> match_rgba s)"

definition pad2 :: "string \<Rightarrow> string" where
  "pad2 s = (if length s = 1 then CHR ''0'' # s else s)"

text \<open>\<open>None\<close> is the exception raised when the text does not match.\<close>

definition rgba2flutterColor :: "string \<Rightarrow> nat option" where
  "rgba2flutterColor color =
     (case match_rgba color of
        None \<Rightarrow> None
      | Some (r, g, b, ai, af) \<Rightarrow>
          (let alpha = show_hex (nat (dround_int (dmul_int (parseDecimal ai af) 255)));
               r = show_hex (read_digits 0 r);
               g = show_hex (read_digits 0 g);
               b = show_hex (read_digits 0 b)
           in Some (read_hex (pad2 alpha @ pad2 r @ pad2 g @ pad2 b))))"

subsection \<open>The view\<close>

definition tag_apis :: "scope \<Rightarrow> apis" where
  "tag_apis s =
     (case s of
        Admin \<Rightarrow> \<lparr>list_api = tag_list, remove_api = tag_remove, update_api = tag_update, create_api = tag_create\<rparr>
      | My \<Rightarrow> \<lparr>list_api = my_tag_list, remove_api = my_tag_remove, update_api = my_tag_update, create_api = my_tag_create\<rparr>)"

record tag_view =
  tview :: view
  currentColor :: jsval
  collections :: view
  collectionsForUpdate :: view

text \<open>\<open>useCollectionRepositories(api_type)\<close> with the page size raised.\<close>

definition big_collections :: view where
  "big_collections = collection_init\<lparr>listQuery := put (listQuery collection_init) ''page_size'' (JNum 9999)\<rparr>"

definition tag_form :: obj where
  "tag_form =
     [(''id'', JNum 0), (''name'', JStr ''''), (''color'', JNum 0), (''user_id'', JNull), (''collection_id'', JNull)]"

definition tag_init :: "jsval \<Rightarrow> tag_view option" where
  "tag_init user_id =
     (case query_user_id user_id of
        None \<Rightarrow> None
      | Some u \<Rightarrow>
          Some \<lparr>tview =
              mk_view [(''page'', JNum 1), (''page_size'', JNum 10), (''user_id'', u), (''collection_id'', JNull)]
                tag_form,
            currentColor = JStr '''', collections = big_collections, collectionsForUpdate = big_collections\<rparr>)"

text \<open>A row without a colour raises in \<open>color.toString\<close>.\<close>

definition show_color :: "obj \<Rightarrow> obj option" where
  "show_color item =
     (case get item ''color'' of
        JNum n \<Rightarrow> Some (put item ''color'' (JStr (flutterColor2rgba (nat n))))
      | _ \<Rightarrow> None)"

definition tag_getList :: "scope \<Rightarrow> page option \<Rightarrow> view \<Rightarrow> view" where
  "tag_getList s res v = load (list_api (tag_apis s)) (map_option_list show_color) res v"

definition tag_handlerQuery :: "scope \<Rightarrow> page option \<Rightarrow> view \<Rightarrow> view" where
  "tag_handlerQuery s res v = query_first_page (tag_getList s res) v"

definition tag_del :: "scope \<Rightarrow> obj \<Rightarrow> bool \<Rightarrow> bool \<Rightarrow> page option \<Rightarrow> view \<Rightarrow> view" where
  "tag_del s row confirmed ok res v =
     delete_row (remove_api (tag_apis s) (id_payload row)) (tag_getList s res) confirmed ok v"

definition activeChange :: "jsval \<Rightarrow> tag_view \<Rightarrow> tag_view" where
  "activeChange c w = w\<lparr>currentColor := c\<rparr>"

definition set_query :: "string \<Rightarrow> jsval \<Rightarrow> view \<Rightarrow> view" where
  "set_query k x v = v\<lparr>listQuery := put (listQuery v) k x\<rparr>"

definition set_form :: "string \<Rightarrow> jsval \<Rightarrow> view \<Rightarrow> view" where
  "set_form k x v = v\<lparr>formData := put (formData v) k x\<rparr>"

definition clear_list :: "view \<Rightarrow> view" where
  "clear_list v = v\<lparr>listRes := (listRes v)\<lparr>rows := []\<rparr>\<rparr>"

definition tag_toEdit :: "scope \<Rightarrow> obj \<Rightarrow> page option \<Rightarrow> tag_view \<Rightarrow> tag_view" where
  "tag_toEdit s row res w =
     (let v = (tview w)\<lparr>formVisible := True\<rparr>;
          v = set_form ''id'' (get row ''id'') v; v = set_form ''name'' (get row ''name'') v;
          v = set_form ''color'' (get row ''color'') v; v = set_form ''user_id'' (get row ''user_id'') v;
          v = set_form ''collection_id'' (get row ''collection_id'') v;
          cs = set_query ''user_id'' (get row ''user_id'') (collections w)
      in w\<lparr>tview := v, collections := collection_getList s res cs\<rparr>)"

definition tag_toAdd :: "tag_view \<Rightarrow> tag_view" where
  "tag_toAdd w =
     (let v = (tview w)\<lparr>formVisible := True\<rparr>;
          v = set_form ''id'' (JNum 0) v; v = set_form ''name'' (JStr '''') v;
          v = set_form ''color'' (JStr '''') v; v = set_form ''user_id'' JNull v;
          v = set_form ''collection_id'' JNull v
      in w\<lparr>tview := v\<rparr>)"

text \<open>
  \<open>submit\<close>: without a colour a message asks for one (its text is a constant of the source); a colour
  that is not an \<open>rgba\<close> text raises and nothing is sent.
\<close>

definition tag_submit :: "scope \<Rightarrow> bool \<Rightarrow> page option \<Rightarrow> view \<Rightarrow> view" where
  "tag_submit s ok res v =
     (if \<not> truthy (get (formData v) ''color'') then toast (Error ''select a color'') v
      else
        let api = (if truthy (get (formData v) ''id'') then update_api else create_api) (tag_apis s)
        in case get (formData v) ''color'' of
             JStr c \<Rightarrow>
               (case rgba2flutterColor c of
                  None \<Rightarrow> v
                | Some n \<Rightarrow> submit_form (api (JObj (put (formData v) ''color'' (JNum (int n))))) (tag_getList s res) ok v)
           | _ \<Rightarrow> v)"

definition changeUser :: "scope \<Rightarrow> jsval \<Rightarrow> page option \<Rightarrow> tag_view \<Rightarrow> tag_view" where
  "changeUser s val res w =
     (let w = w\<lparr>tview := set_form ''collection_id'' (JNum 0) (tview w)\<rparr>
      in if \<not> truthy val then w\<lparr>collections := clear_list (collections w)\<rparr>
         else w\<lparr>collections := collection_getList s res (set_query ''user_id'' val (collections w))\<rparr>)"

definition changeUserForUpdate :: "scope \<Rightarrow> jsval \<Rightarrow> page option \<Rightarrow> tag_view \<Rightarrow> tag_view" where
  "changeUserForUpdate s val res w =
     (let w = w\<lparr>tview := set_query ''collection_id'' JNull (tview w)\<rparr>
      in if \<not> truthy val then w\<lparr>collectionsForUpdate := clear_list (collectionsForUpdate w)\<rparr>
         else w\<lparr>collectionsForUpdate := collection_getList s res (set_query ''user_id'' val (collectionsForUpdate w))\<rparr>)"

interpretation tags_list: list_view "\<lambda>_ :: unit. tag_getList s" "\<lambda>row c ok _. tag_del s row c ok"
  "\<lambda>_ _ q. [list_api (tag_apis s) (JObj q)]" "\<lambda>row. remove_api (tag_apis s) (id_payload row)" for s
  by unfold_locales (simp_all add: tag_getList_def tag_del_def)

subsection \<open>Lemmas\<close>

lemma match_component_show:
  "match_component (show_nat n @ '', '' @ s) = Some (show_nat n, dropWhile is_ws s)"
proof -
  have d: "\<forall>x \<in> set (show_nat n). is_digit x" using show_nat_digits by blast
  have c: "\<not> is_digit (CHR '','')" "is_ws (CHR '' '')" by (simp_all add: is_digit_def is_ws_def char_code_def)
  have "dropWhile is_digit (show_nat n @ '', '' @ s) = '', '' @ s" "takeWhile is_digit (show_nat n @ '', '' @ s) = show_nat n"
    using d c(1) by (simp_all add: dropWhile_append takeWhile_append)
  then show ?thesis using c(2) by (simp add: match_component_def)
qed

lemma no_ws_show: "dropWhile is_ws (show_nat n @ s) = show_nat n @ s"
proof -
  obtain x xs where x: "show_nat n = x # xs" by (cases "show_nat n") auto
  then have "is_digit x" using show_nat_digits [of x n] by simp
  then show ?thesis using x digit_not_ws by simp
qed

lemma match_rgba_hit: "match_here (x # s) = Some m \<Longrightarrow> match_rgba (x # s) = Some m"
  by simp

lemma match_rgba_show:
  assumes "match_alpha (a @ '')'') = Some (ai, af)" "dropWhile is_ws (a @ '')'') = a @ '')''"
  shows "match_rgba (''rgba('' @ show_nat r @ '', '' @ show_nat g @ '', '' @ show_nat b @ '', '' @ a @ '')'')
    = Some (show_nat r, show_nat g, show_nat b, ai, af)"
proof -
  note c = match_component_show [of _ "show_nat _ @ _", unfolded no_ws_show]
  have "match_here (''rgba('' @ show_nat r @ '', '' @ show_nat g @ '', '' @ show_nat b @ '', '' @ a @ '')'')
      = Some (show_nat r, show_nat g, show_nat b, ai, af)"
    using c [of r g "'', '' @ show_nat b @ '', '' @ a @ '')''"] c [of g b "'', '' @ a @ '')''"]
      match_component_show [of b "a @ '')''"] assms
    by (simp add: match_here_def startsWith_def)
  then show ?thesis by (simp add: match_rgba_hit)
qed

lemma alpha_num_back:
  assumes "k < 256"
  obtains ai af where "match_alpha (alpha_num k @ '')'') = Some (ai, af)"
    "dropWhile is_ws (alpha_num k @ '')'') = alpha_num k @ '')''"
    "dround_int (dmul_int (parseDecimal ai af) 255) = int k"
proof -
  note cc = is_digit_def is_ws_def char_code_def
  consider "k = 0" | "k = 255" | "1 \<le> int k" "int k \<le> 254" using assms by linarith
  then show thesis
  proof cases
    case 1
    have "dround_int (dmul_int (parseDecimal ''0'' []) 255) = 0"
      by (simp add: parseDecimal_def char_code_def dround_def dmul_int_def scale_def dround_int_def)
    then show thesis using 1 by (intro that [of "''0''" "[]"]) (simp_all add: alpha_num_def match_alpha_def cc)
  next
    case 2
    have "dround_int (dmul_int (parseDecimal ''1'' []) 255) = 255"
      by (simp add: parseDecimal_def char_code_def dround_def dmul_int_def scale_def dround_int_def bitlen.simps
          round_half_even_def Let_def)
    then show thesis using 2 by (intro that [of "''1''" "[]"]) (simp_all add: alpha_num_def match_alpha_def cc)
  next
    case 3
    then obtain n c where t: "unit_text (ddiv (int k) 255) = ''0.'' @ fixed_digits n c" and n: "1 \<le> n"
      and c: "0 < c" "c < 10 ^ n" "\<bar>of_int c / 10 ^ n - of_int (int k) / (255 :: real)\<bar> \<le> 1 / 500000"
      using unit_text_255 by metis
    have a: "alpha_num k = ''0.'' @ fixed_digits n c" using 3 t by (auto simp: alpha_num_def)
    have d: "\<forall>x \<in> set (fixed_digits n c). is_digit x" using fixed_digits_digits by blast
    have p: "\<not> is_digit (CHR '')'')" by (simp add: cc)
    have tw: "takeWhile is_digit (fixed_digits n c @ '')'') = fixed_digits n c"
      "dropWhile is_digit (fixed_digits n c @ '')'') = '')''"
      using d p by (simp_all add: dropWhile_append takeWhile_append)
    have "fixed_digits n c \<noteq> []" using n by (metis length_fixed_digits list.size(3) not_one_le_zero)
    then have m: "match_alpha (alpha_num k @ '')'') = Some (''0'', fixed_digits n c)"
      by (simp add: a match_alpha_def tw cc startsWith_def)
    have "read_dec 0 (''0'' @ fixed_digits n c) = c" using c by (simp add: char_code_def read_dec_fixed)
    then have "parseDecimal ''0'' (fixed_digits n c) = dround c (10 ^ n)" by (simp add: parseDecimal_def)
    then have "dround_int (dmul_int (parseDecimal ''0'' (fixed_digits n c)) 255) = int k"
      using scaled_back [OF 3(1) c] by simp
    then show thesis using m by (intro that [of "''0''" "fixed_digits n c"]) (simp_all add: a cc)
  qed
qed

lemma pad2_show_hex: "n < 256 \<Longrightarrow> pad2 (show_hex n) = fixed_hex 2 n"
proof -
  assume n: "n < 256"
  have f: "replicate (2 - length (show_hex n)) (CHR ''0'') @ show_hex n = fixed_hex 2 n"
    using show_hex_fixed [of n 1] n by (simp add: numeral_2_eq_2)
  have "length (show_hex n) = 1 \<or> length (show_hex n) = 2"
  proof (cases "n < 16")
    case True
    then show ?thesis by (subst show_hex.simps) simp
  next
    case False
    have "show_hex (n div 16) = [hexdigit (n div 16)]" using n by (subst show_hex.simps) simp
    then have "show_hex n = [hexdigit (n div 16), hexdigit (n mod 16)]" using False by (subst show_hex.simps) simp
    then show ?thesis by simp
  qed
  then show ?thesis using f by (auto simp: pad2_def)
qed

lemma padded_hex:
  "c < 2 ^ 32 \<Longrightarrow>
   (if length (show_hex c) < 8 then replicate (8 - length (show_hex c)) (CHR ''0'') @ show_hex c else show_hex c)
     = fixed_hex 8 c"
  using show_hex_fixed [of c 7] by (cases "length (show_hex c) < 8") simp_all

lemma hex_bytes:
  "fixed_hex 8 c = fixed_hex 2 (c div 2 ^ 24) @ fixed_hex 2 (c div 2 ^ 16) @ fixed_hex 2 (c div 2 ^ 8) @ fixed_hex 2 c"
  using fixed_hex_add [of 2 6 c] fixed_hex_add [of 2 4 c] fixed_hex_add [of 2 2 c] by simp

lemma fixed_hex_2_mod: "fixed_hex 2 (c mod 256) = fixed_hex 2 c"
proof -
  have e: "c mod 256 = 16 * (c div 16 mod 16) + c mod 16"
    using mod_mult2_eq [of c 16 16] by simp
  have "c mod 256 div 16 mod 16 = c div 16 mod 16" "c mod 256 mod 16 = c mod 16"
    unfolding e by simp_all
  then show ?thesis by (simp add: numeral_2_eq_2)
qed

text \<open>The text of a colour in terms of its four bytes.\<close>

lemma flutterColor2rgba_bytes:
  assumes "c < 2 ^ 32"
  shows "flutterColor2rgba c =
    ''rgba('' @ show_nat (c div 2 ^ 16 mod 256) @ '', '' @ show_nat (c div 2 ^ 8 mod 256) @ '', ''
    @ show_nat (c mod 256) @ '', '' @ alpha_num (c div 2 ^ 24 mod 256) @ '')''"
proof -
  let ?h = "fixed_hex 2 (c div 2 ^ 24) @ fixed_hex 2 (c div 2 ^ 16) @ fixed_hex 2 (c div 2 ^ 8) @ fixed_hex 2 c"
  have s: "take 2 ?h = fixed_hex 2 (c div 2 ^ 24)" "take 2 (drop 2 ?h) = fixed_hex 2 (c div 2 ^ 16)"
    "take 2 (drop 2 (drop 2 ?h)) = fixed_hex 2 (c div 2 ^ 8)" "take 2 (drop 4 (drop 2 ?h)) = fixed_hex 2 c"
    by simp_all
  show ?thesis
    unfolding flutterColor2rgba_def Let_def padded_hex [OF assms] hex_bytes s read_fixed_hex by simp
qed

subsection \<open>Properties\<close>

text \<open>
  C26: the colour conversions round trip: every 32-bit colour of a tag, alpha channel included,
  shown as an \<open>rgba\<close> text and sent back unchanged is the same number, although the text carries
  the alpha as a decimal fraction computed in floating point.
\<close>

theorem tag_color_round_trip:
  assumes "c < 2 ^ 32"
  shows "rgba2flutterColor (flutterColor2rgba c) = Some c"
proof -
  let ?k = "c div 2 ^ 24 mod 256"
  obtain ai af where m: "match_alpha (alpha_num ?k @ '')'') = Some (ai, af)"
    "dropWhile is_ws (alpha_num ?k @ '')'') = alpha_num ?k @ '')''"
    and k: "dround_int (dmul_int (parseDecimal ai af) 255) = int ?k"
    using alpha_num_back [of ?k] by auto
  have "rgba2flutterColor (flutterColor2rgba c) = Some (read_hex (fixed_hex 8 c))"
    unfolding rgba2flutterColor_def flutterColor2rgba_bytes [OF assms] match_rgba_show [OF m] Let_def
      option.case prod.case k read_show_nat nat_int
    by (simp add: pad2_show_hex fixed_hex_2_mod hex_bytes)
  then show ?thesis using assms by (simp add: read_fixed_hex)
qed

theorem tag_color_round_trip_witness:
  "rgba2flutterColor (flutterColor2rgba 2164195584) = Some 2164195584"
  using tag_color_round_trip [of 2164195584] by simp

text \<open>
  The two user selectors of the tag view reset each other's collection. Choosing another user
  in the form keeps the form's collection, which belongs to the previous user, and a following
  submission sends it; what is reset is the collection filter of the list. The selector of the
  list filter resets the collection of the form instead.
\<close>

lemma tag_user_selectors_crossed:
  "get (formData (tview (changeUserForUpdate s u res w))) ''collection_id'' = get (formData (tview w)) ''collection_id''
   \<and> get (listQuery (tview (changeUserForUpdate s u res w))) ''collection_id'' = JNull
   \<and> get (formData (tview (changeUser s u res w))) ''collection_id'' = JNum 0
   \<and> get (listQuery (tview (changeUser s u res w))) ''collection_id'' = get (listQuery (tview w)) ''collection_id''"
  by (simp add: changeUserForUpdate_def changeUser_def set_form_def set_query_def Let_def)

end
