(* ===== verification/AddressBook.thy ===== *)
theory AddressBook
  imports Tag
begin

text \<open>
  The address book view (\<open>views/address_book/index.js\<close>): the list with the peers attached to its
  entries, the entry form with its dependent collection and tag lists, taking an entry over from a
  device, and the dialog that sets the tags of many entries.
\<close>

subsection \<open>State\<close>

definition ab_apis :: "scope \<Rightarrow> apis" where
  "ab_apis s =
     (case s of
        Admin \<Rightarrow> \<lparr>list_api = address_book_list, remove_api = address_book_remove,
                  update_api = address_book_update, create_api = address_book_create\<rparr>
      | My \<Rightarrow> \<lparr>list_api = my_address_book_list, remove_api = my_address_book_remove,
               update_api = my_address_book_update, create_api = my_address_book_create\<rparr>)"

record ab_view =
  aview :: view
  collectionList :: view
  collectionListForUpdate :: view
  tagList :: view

definition ab_form_init :: obj where
  "ab_form_init =
     [(''row_id'', JNum 0), (''alias'', JStr ''''), (''forceAlwaysRelay'', JBool False), (''hash'', JStr ''''),
      (''hostname'', JStr ''''), (''id'', JStr ''''), (''loginName'', JStr ''''), (''online'', JBool False),
      (''password'', JStr ''''), (''platform'', JStr ''''), (''rdpPort'', JStr ''''), (''rdpUsername'', JStr ''''),
      (''sameServer'', JBool False), (''tags'', JArr []), (''user_id'', JNull), (''user_ids'', JArr []),
      (''username'', JStr ''''), (''collection_id'', JNull)]"

text \<open>\<open>tag\<close> is what \<open>useTagRepositories(api_type)\<close> returned for the current route.\<close>

definition big_tags :: "tag_view \<Rightarrow> view" where
  "big_tags w = set_query ''page_size'' (JNum 9999) (tview w)"

definition ab_init :: "tag_view \<Rightarrow> ab_view" where
  "ab_init w =
     \<lparr>aview =
        mk_view [(''page'', JNum 1), (''page_size'', JNum 10), (''id'', JNull), (''user_id'', JNull),
                 (''username'', JNull), (''hostname'', JNull), (''collection_id'', JNull)] ab_form_init,
      collectionList = big_collections, collectionListForUpdate = big_collections, tagList = big_tags w\<rparr>"

subsection \<open>The list\<close>

definition ab_ids :: "obj list \<Rightarrow> jsval list" where
  "ab_ids rs = map (\<lambda>r. get r ''id'') rs"

definition enrich :: "obj list \<Rightarrow> obj \<Rightarrow> obj" where
  "enrich peers item =
     (case find (\<lambda>p. get p ''id'' = get item ''id'') peers of None \<Rightarrow> item | Some p \<Rightarrow> put item ''peer'' (JObj p))"

definition ab_peer_calls :: "page option \<Rightarrow> config list" where
  "ab_peer_calls res =
     (case res of
        None \<Rightarrow> []
      | Some pg \<Rightarrow>
          (if ab_ids (page_list pg) = [] then []
           else [peer_simpleData (JObj [(''ids'', JArr (ab_ids (page_list pg)))])]))"

definition ab_rows :: "obj list option \<Rightarrow> obj list \<Rightarrow> obj list option" where
  "ab_rows peers rs = Some (case peers of None \<Rightarrow> rs | Some ps \<Rightarrow> if rs = [] then rs else map (enrich ps) rs)"

definition ab_getList :: "scope \<Rightarrow> obj list option \<Rightarrow> page option \<Rightarrow> view \<Rightarrow> view" where
  "ab_getList s peers res v =
     (let v = load_begin (list_api (ab_apis s)) v;
          v = v\<lparr>calls := calls v @ ab_peer_calls res\<rparr>
      in load_end (ab_rows peers) res v)"

definition ab_handlerQuery :: "scope \<Rightarrow> obj list option \<Rightarrow> page option \<Rightarrow> view \<Rightarrow> view" where
  "ab_handlerQuery s peers res v = query_first_page (ab_getList s peers res) v"

definition row_payload :: "obj \<Rightarrow> jsval" where
  "row_payload row = JObj [(''row_id'', get row ''row_id'')]"

definition ab_del :: "scope \<Rightarrow> obj \<Rightarrow> bool \<Rightarrow> bool \<Rightarrow> obj list option \<Rightarrow> page option \<Rightarrow> view \<Rightarrow> view" where
  "ab_del s row confirmed ok peers res v =
     delete_row (remove_api (ab_apis s) (row_payload row)) (ab_getList s peers res) confirmed ok v"

subsection \<open>The form\<close>

text \<open>\<open>toEdit\<close>: \<open>cres\<close> and \<open>tres\<close> are the answers to the two list calls.\<close>

definition ab_toEdit :: "scope \<Rightarrow> obj \<Rightarrow> page option \<Rightarrow> page option \<Rightarrow> ab_view \<Rightarrow> ab_view" where
  "ab_toEdit s row cres tres w =
     w\<lparr>aview := (aview w)\<lparr>formVisible := True, formData := copy_keys (formData (aview w)) row\<rparr>,
       collectionListForUpdate :=
         collection_getList s cres (set_query ''user_id'' (get row ''user_id'') (collectionListForUpdate w)),
       tagList := tag_getList s tres (set_query ''collection_id'' (get row ''collection_id'') (tagList w))\<rparr>"

definition ab_reset :: obj where
  "ab_reset =
     [(''row_id'', JNum 0), (''alias'', JStr ''''), (''forceAlwaysRelay'', JBool False), (''hash'', JStr ''''),
      (''hostname'', JStr ''''), (''id'', JStr ''''), (''loginName'', JStr ''''), (''online'', JBool False),
      (''password'', JStr ''''), (''platform'', JStr ''''), (''rdpPort'', JStr ''''), (''rdpUsername'', JStr ''''),
      (''sameServer'', JBool False), (''tags'', JArr []), (''user_id'', JNull), (''username'', JStr '''')]"

definition ab_toAdd :: "view \<Rightarrow> view" where
  "ab_toAdd v = v\<lparr>formVisible := True, formData := spread (formData v) ab_reset\<rparr>"

definition ab_submit :: "scope \<Rightarrow> bool \<Rightarrow> obj list option \<Rightarrow> page option \<Rightarrow> view \<Rightarrow> view" where
  "ab_submit s ok peers res v =
     (let api = (if truthy (get (formData v) ''row_id'') then update_api else create_api) (ab_apis s)
      in submit_form (api (JObj (formData v))) (ab_getList s peers res) ok v)"

definition changeQueryUser :: "scope \<Rightarrow> jsval \<Rightarrow> page option \<Rightarrow> ab_view \<Rightarrow> ab_view" where
  "changeQueryUser s val res w =
     (let w = w\<lparr>tagList := clear_list (tagList w), aview := set_query ''collection_id'' JNull (aview w)\<rparr>
      in if \<not> truthy val then w\<lparr>collectionList := clear_list (collectionList w)\<rparr>
         else w\<lparr>collectionList := collection_getList s res (set_query ''user_id'' val (collectionList w))\<rparr>)"

definition ab_changeUserForUpdate :: "scope \<Rightarrow> jsval \<Rightarrow> page option \<Rightarrow> ab_view \<Rightarrow> ab_view" where
  "ab_changeUserForUpdate s val res w =
     (let w = w\<lparr>tagList := clear_list (tagList w),
                aview := set_form ''collection_id'' (JNum 0) (set_form ''tags'' (JArr []) (aview w))\<rparr>
      in if \<not> truthy val then w\<lparr>collectionListForUpdate := clear_list (collectionListForUpdate w)\<rparr>
         else w\<lparr>collectionListForUpdate :=
                 collection_getList s res (set_query ''user_id'' val (collectionListForUpdate w))\<rparr>)"

definition changeCollectionForUpdate :: "scope \<Rightarrow> jsval \<Rightarrow> page option \<Rightarrow> ab_view \<Rightarrow> ab_view" where
  "changeCollectionForUpdate s val res w =
     (let a = set_form ''tags'' (JArr []) (aview w);
          t = set_query ''collection_id'' val (set_query ''user_id'' (get (formData a) ''user_id'') (clear_list (tagList w)))
      in w\<lparr>aview := a, tagList := tag_getList s res t\<rparr>)"

subsection \<open>Taking an entry over from a device\<close>

record platform =
  label :: string
  pvalue :: string
  icon :: string

definition platformList :: "platform list" where
  "platformList =
     [\<lparr>label = ''Windows'', pvalue = ''Windows'', icon = ''windows''\<rparr>, \<lparr>label = ''Linux'', pvalue = ''Linux'', icon = ''linux''\<rparr>,
      \<lparr>label = ''Mac OS'', pvalue = ''Mac OS'', icon = ''mac''\<rparr>, \<lparr>label = ''Android'', pvalue = ''Android'', icon = ''android''\<rparr>]"

definition platform_value :: "string \<Rightarrow> string option" where
  "platform_value l = map_option pvalue (find (\<lambda>p. label p = l) platformList)"

text \<open>The label chosen for an \<open>os\<close> text, if any.\<close>

definition os_label :: "string \<Rightarrow> string option" where
  "os_label os =
     (if indexOf os ''windows'' \<noteq> None then Some ''Windows''
      else if indexOf os ''linux'' \<noteq> None then Some ''Linux''
      else if indexOf os ''android'' \<noteq> None then Some ''Android''
      else if indexOf os ''mac'' \<noteq> None then Some ''Mac OS'' else None)"

definition set_platform :: "string \<Rightarrow> view \<Rightarrow> view" where
  "set_platform os v =
     (case os_label os of
        None \<Rightarrow> v
      | Some l \<Rightarrow> (case platform_value l of None \<Rightarrow> v | Some p \<Rightarrow> set_form ''platform'' (JStr p) v))"

text \<open>
  \<open>fromPeer\<close>; a peer whose \<open>os\<close> is not a string raises there, after the first three fields were
  set.
\<close>

definition fromPeer :: "obj \<Rightarrow> view \<Rightarrow> view" where
  "fromPeer peer v =
     (let v = set_form ''id'' (get peer ''id'') v; v = set_form ''username'' (get peer ''username'') v;
          v = set_form ''hostname'' (get peer ''hostname'') v
      in case get peer ''os'' of
           JStr os \<Rightarrow> set_form ''uuid'' (get peer ''uuid'') (set_platform os v)
         | _ \<Rightarrow> v)"

lemma fromPeer_calls [simp]: "calls (fromPeer peer v) = calls v"
  by (auto simp: fromPeer_def set_platform_def set_form_def Let_def split: jsval.split option.split)

subsection \<open>Setting the tags of many entries\<close>

text \<open>\<open>useBatchUpdateTagsRepositories\<close>: the view's \<open>formVisible\<close> is \<open>visible\<close>.\<close>

record batch_tags =
  bt_view :: view
  bt_tags :: "jsval list"
  row_ids :: "jsval list"

definition batch_tags_init :: "view \<Rightarrow> batch_tags" where
  "batch_tags_init v = \<lparr>bt_view = v\<lparr>formVisible := False\<rparr>, bt_tags = [], row_ids = []\<rparr>"

definition bt_show :: "batch_tags \<Rightarrow> batch_tags" where
  "bt_show b =
     (if row_ids b = [] then b\<lparr>bt_view := toast (Warning ''PleaseSelectData'') (bt_view b)\<rparr>
      else b\<lparr>bt_view := (bt_view b)\<lparr>formVisible := True\<rparr>\<rparr>)"

definition bt_payload :: "batch_tags \<Rightarrow> jsval" where
  "bt_payload b = JObj [(''tags'', JArr (bt_tags b)), (''row_ids'', JArr (row_ids b))]"

definition bt_submit :: "bool \<Rightarrow> bool \<Rightarrow> batch_tags \<Rightarrow> bool \<times> batch_tags" where
  "bt_submit confirmed ok b =
     (if row_ids b = [] then (False, b\<lparr>bt_view := toast (Warning ''PleaseSelectData'') (bt_view b)\<rparr>)
      else if bt_tags b = [] \<and> \<not> confirmed then (False, b)
      else
        (let v = call (my_address_book_batchUpdateTags (bt_payload b)) (bt_view b)
         in if ok then (True, b\<lparr>bt_view := (toast (Success ''Success'') v)\<lparr>formVisible := False\<rparr>\<rparr>)
            else (False, b\<lparr>bt_view := v\<rparr>)))"

subsection \<open>Lemmas\<close>

lemma ab_getList_calls:
  "calls (ab_getList s peers res v) = calls v @ list_api (ab_apis s) (JObj (listQuery v)) # ab_peer_calls res"
  by (simp add: ab_getList_def Let_def)

lemma ab_getList_sel [simp]:
  "listQuery (ab_getList s peers res v) = listQuery v" "\<not> loading (listRes (ab_getList s peers res v))"
  "toasts_shown (ab_getList s peers res v) = toasts_shown v"
  "rows (listRes (ab_getList s peers None v)) = rows (listRes v)"
  "formData (ab_getList s peers res v) = formData v"
  by (simp_all add: ab_getList_def Let_def)

interpretation entries: list_view "ab_getList s" "ab_del s"
  "\<lambda>_ res q. list_api (ab_apis s) (JObj q) # ab_peer_calls res"
  "\<lambda>row. remove_api (ab_apis s) (row_payload row)" for s
  by unfold_locales (simp_all add: ab_getList_calls ab_del_def)

subsection \<open>Properties\<close>

text \<open>
  Setting the tags of many entries never clears tags by accident: the request is sent exactly
  when entries are selected and, if the new tag list is empty, the user confirmed; it carries the
  selected rows and tags, and the dialog closes exactly when the request succeeded.
\<close>

lemma batch_tags_confirmed:
  "case bt_submit confirmed ok b of (done, b') \<Rightarrow>
     calls (bt_view b') = calls (bt_view b) @
       (if row_ids b \<noteq> [] \<and> (if bt_tags b = [] then confirmed else True)
        then [my_address_book_batchUpdateTags (JObj [(''tags'', JArr (bt_tags b)), (''row_ids'', JArr (row_ids b))])] else [])
     \<and> (done \<longleftrightarrow> row_ids b \<noteq> [] \<and> (if bt_tags b = [] then confirmed else True) \<and> ok)
     \<and> formVisible (bt_view b') = (formVisible (bt_view b) \<and> \<not> done)
     \<and> bt_tags b' = bt_tags b \<and> row_ids b' = row_ids b"
  by (auto simp: bt_submit_def bt_payload_def Let_def)

text \<open>
  The form for a new entry is not empty after another entry was edited: the collection and
  the additional users of the edited entry stay in it although its user is reset, and a submission
  sends them.
\<close>

lemma new_entry_keeps_collection:
  assumes "formData (aview w) = ab_form_init"
  shows "let v = ab_toAdd (aview (ab_toEdit s row cres tres w))
    in get (formData v) ''collection_id'' = get row ''collection_id''
       \<and> get (formData v) ''user_ids'' = get row ''user_ids''
       \<and> get (formData v) ''user_id'' = JNull
       \<and> calls (ab_submit s False None None v) =
           calls (aview w) @ [create_api (ab_apis s) (JObj (formData v))]"
  using assms
  by (simp add: ab_toAdd_def ab_toEdit_def ab_reset_def ab_form_init_def copy_keys_def ab_submit_def submit_form_def Let_def)

end
