(* ===== verification/WebClient.thy ===== *)
theory WebClient
  imports Auth JsJson "HOL-Library.Word" "HOL-Library.Multiset" "HOL-Library.List_Lexorder" "HOL-Library.Char_ord"
begin

text \<open>
  The JavaScript glue of the browser client (\<open>api/resources/web/js/src\<close>): \<open>globals.js\<close>, which the
  compiled Flutter program calls through \<open>setByName\<close> and \<open>getByName\<close>, and \<open>ljw.js\<close>, which takes
  identifiers and address book from the URL and the API server. The connection is TypeScript
  (\<open>connection.ts\<close>) and libsodium is a package: a connection is a number, what is called on it is
  recorded, and what it answers is an argument. \<open>atob\<close> is the library function, \<open>None\<close> when it raises.
\<close>

subsection \<open>Nonces and sealing\<close>

text \<open>
  \<open>makeOnce\<close>: the loop over the 24 bytes stops early when the value is used up; the value is a
  counter, a non-negative integer, so \<open>value & 0xff\<close> is its remainder.
\<close>

fun once_bytes :: "nat \<Rightarrow> nat \<Rightarrow> 8 word list" where
  "once_bytes 0 v = []"
| "once_bytes (Suc n) v =
     (if v > 0 then word_of_nat (v mod 256) # once_bytes n ((v - v mod 256) div 256) else replicate (Suc n) 0)"

definition makeOnce :: "nat \<Rightarrow> 8 word list" where
  "makeOnce v = once_bytes 24 v"

definition encrypt :: "('m \<Rightarrow> 8 word list \<Rightarrow> 'k \<Rightarrow> 'c) \<Rightarrow> 'm \<Rightarrow> nat \<Rightarrow> 'k \<Rightarrow> 'c" where
  "encrypt crypto_secretbox_easy plain nonce k = crypto_secretbox_easy plain (makeOnce nonce) k"

definition decrypt :: "('c \<Rightarrow> 8 word list \<Rightarrow> 'k \<Rightarrow> 'm) \<Rightarrow> 'c \<Rightarrow> nat \<Rightarrow> 'k \<Rightarrow> 'm" where
  "decrypt crypto_secretbox_open_easy sealed nonce k = crypto_secretbox_open_easy sealed (makeOnce nonce) k"

definition seal :: "('m \<Rightarrow> 8 word list \<Rightarrow> 'p \<Rightarrow> 'k \<Rightarrow> 'c) \<Rightarrow> 'm \<Rightarrow> 'p \<Rightarrow> 'k \<Rightarrow> 'c" where
  "seal crypto_box_easy plain theirPk ourSk = crypto_box_easy plain (replicate 24 0) theirPk ourSk"

subsection \<open>Drawing: the frame is flipped\<close>

definition set_at :: "'a list \<Rightarrow> nat \<Rightarrow> 'a list \<Rightarrow> 'a list" where
  "set_at xs i ys = take i xs @ ys @ drop (i + length ys) xs"

text \<open>
  The loop of \<open>draw\<close> over \<open>i = 0, row, 2 * row, ... < size\<close>; \<open>row\<close> is positive whenever \<open>i < size\<close>.
\<close>

function flip_loop :: "nat \<Rightarrow> nat \<Rightarrow> nat \<Rightarrow> 'a list \<Rightarrow> nat \<Rightarrow> 'a list \<Rightarrow> 'a list" where
  "flip_loop sz row end_row pixels i out =
     (if i < sz \<and> 0 < row
      then flip_loop sz row end_row pixels (i + row) (set_at out (end_row - i) (take row (drop i pixels)))
      else out)"
  by pat_completeness auto
termination
  by (relation "measure (\<lambda>(sz, row, e, p, i, out). sz - i)") auto

declare flip_loop.simps [simp del]

text \<open>
  \<open>old\<close> is \<open>flipPixels\<close> before the call: it is allocated anew when the size of the frame changed.
\<close>

definition draw_flip :: "nat \<Rightarrow> nat \<Rightarrow> 8 word list \<Rightarrow> 8 word list \<Rightarrow> 8 word list" where
  "draw_flip width height old pixels =
     (let sz = width * height * 4;
          out = (if length old \<noteq> sz then replicate sz 0 else old);
          row = width * 4
      in flip_loop sz row ((height - 1) * row) pixels 0 out)"

subsection \<open>Events for Dart\<close>

text \<open>A property of an event: plain data, or a \<open>Uint8Array\<close>.\<close>

datatype payload = Data jsval | Bytes "8 word list"

definition bytes_text :: "8 word list \<Rightarrow> string" where
  "bytes_text bs = join '','' (map (\<lambda>b. show_nat (unat b)) bs)"

text \<open>\<open>JSON.stringify(undefined)\<close> is \<open>undefined\<close>.\<close>

definition dart_value :: "payload \<Rightarrow> jsval" where
  "dart_value p =
     (case p of
        Bytes bs \<Rightarrow> JStr (''['' @ bytes_text bs @ '']'')
      | Data v \<Rightarrow> (case stringify v of None \<Rightarrow> JUndef | Some t \<Rightarrow> JStr t))"

definition jsonfyForDart :: "(string \<times> payload) list \<Rightarrow> obj" where
  "jsonfyForDart ps = map (\<lambda>p. (fst p, dart_value (snd p))) (filter (\<lambda>p. fst p \<noteq> []) ps)"

definition pushEvent :: "string \<Rightarrow> (string \<times> payload) list \<Rightarrow> string" where
  "pushEvent name ps = json_text (JObj (put (jsonfyForDart ps) ''name'' (JStr name)))"

text \<open>
  \<open>msgbox\<close>: \<open>None\<close> for no event. \<open>checkIfRetry\<close> is generated code. A message without a text raises
  unless the type is \<open>error\<close>; here the text is a string.
\<close>

definition msgbox :: "(string \<Rightarrow> string \<Rightarrow> string \<Rightarrow> bool) \<Rightarrow> string \<Rightarrow> string \<Rightarrow> string \<Rightarrow> string option" where
  "msgbox checkIfRetry type title text =
     (if type = [] \<or> (type = ''error'' \<and> text = []) then None
      else Some (json_text (JObj [(''name'', JStr ''msgbox''), (''type'', JStr type), (''title'', JStr title),
        (''text'', JStr text), (''hasRetry'', JStr (if checkIfRetry type title text then ''true'' else ''''))])))"

subsection \<open>Stored peers\<close>

text \<open>
  \<open>JSON.parse(localStorage.getItem('peers')) || {}\<close>, \<open>None\<close> when it raises; what is stored there is
  an object. \<open>getPeers\<close> catches the exception.
\<close>

definition stored_peers :: "storage \<Rightarrow> obj option" where
  "stored_peers st =
     (case getItem st ''peers'' of
        None \<Rightarrow> Some []
      | Some t \<Rightarrow> (case JSON_parse t of Parsed v \<Rightarrow> Some (as_obj v) | _ \<Rightarrow> None))"

definition getPeers :: "storage \<Rightarrow> obj" where
  "getPeers st = (case stored_peers st of None \<Rightarrow> [] | Some ps \<Rightarrow> ps)"

definition setPeers :: "obj \<Rightarrow> storage \<Rightarrow> storage" where
  "setPeers ps st = setItem ''peers'' (json_text (JObj ps)) st"

text \<open>
  \<open>getPeersForDart\<close>: pairs of id and info, the latest first. The default \<open>sort\<close> compares the
  triples as strings, that is, joined by commas.
\<close>

definition peer_entry :: "string \<times> jsval \<Rightarrow> (jsval \<times> string \<times> jsval) option" where
  "peer_entry p =
     (let tm = opt_prop (snd p) ''tm''; info = opt_prop (snd p) ''info''
      in if fst p = [] \<or> \<not> truthy tm \<or> \<not> truthy info then None else Some (tm, fst p, info))"

definition entry_text :: "jsval \<times> string \<times> jsval \<Rightarrow> string" where
  "entry_text e = toStr (JArr [fst e, JStr (fst (snd e)), snd (snd e)])"

definition getPeersForDart :: "storage \<Rightarrow> (string \<times> jsval) list" where
  "getPeersForDart st = map snd (rev (sort_key entry_text (List.map_filter peer_entry (getPeers st))))"

subsection \<open>ljw.js: parameters of the page and the server's address book\<close>

definition stringToUint8Array :: "string \<Rightarrow> 8 word list" where
  "stringToUint8Array s = map (\<lambda>c. word_of_nat (char_code c)) s"

text \<open>\<open>getQueryVariable\<close>: the entries of \<open>location.hash\<close> after its first three characters.\<close>

definition query_pair :: "string \<Rightarrow> string \<times> jsval" where
  "query_pair s =
     (case split_on (CHR ''='') s of
        [] \<Rightarrow> ([], JUndef)
      | [k] \<Rightarrow> (k, JUndef)
      | k # v # _ \<Rightarrow> (k, JStr v))"

definition getQueryVariable :: "string \<Rightarrow> obj" where
  "getQueryVariable hash = foldl (\<lambda>kv p. put kv (fst p) (snd p)) [] (map query_pair (split_on (CHR ''&'') (drop 3 hash)))"

definition remember_id :: "obj \<Rightarrow> storage \<Rightarrow> storage" where
  "remember_id kv st = (if truthy (get kv ''id'') then setItem ''remote-id'' (toStr (get kv ''id'')) st else st)"

text \<open>
  The answer to a share token: when \<open>atob\<close> or the reading of the stored peers raises, the entries
  written before stay.
\<close>

definition shared_peer_answer :: "(string \<Rightarrow> string option) \<Rightarrow> obj \<Rightarrow> storage \<Rightarrow> storage" where
  "shared_peer_answer atob res st =
     (if get res ''code'' \<noteq> JNum 0 then st
      else
        (let data = as_obj (get res ''data'');
             st = setItem ''custom-rendezvous-server'' (toStr (get data ''id_server'')) st;
             st = setItem ''key'' (toStr (get data ''key'')) st;
             peer = as_obj (get data ''peer'');
             i = toStr (opt_prop (get peer ''info'') ''id'');
             st = setItem ''remote-id'' i st
         in case atob (toStr (get peer ''tmppwd'')) of
              None \<Rightarrow> st
            | Some raw \<Rightarrow>
                (case stored_peers st of
                   None \<Rightarrow> st
                 | Some ps \<Rightarrow>
                     setPeers (put ps i (JObj (put peer ''tmppwd'' (JStr (bytes_text (stringToUint8Array raw)))))) st)))"

text \<open>
  One peer of the server's address book merged into the stored ones: the new peers and whether the
  page must be reloaded. \<open>None\<close> is an exception of \<open>atob\<close>.
\<close>

definition add_or_refresh :: "obj \<Rightarrow> string \<Rightarrow> jsval \<Rightarrow> obj \<times> bool" where
  "add_or_refresh old k peer =
     (if \<not> truthy (get old k) then (put old k peer, True)
      else (put old k (JObj (put (as_obj (get old k)) ''info'' (opt_prop peer ''info''))), False))"

definition fill_password :: "(string \<Rightarrow> string option) \<Rightarrow> obj \<Rightarrow> obj option" where
  "fill_password atob p =
     (if truthy (get p ''info'') \<and> truthy (opt_prop (get p ''info'') ''hash'') \<and> \<not> truthy (get p ''password'')
      then (case atob (toStr (opt_prop (get p ''info'') ''hash'')) of
              None \<Rightarrow> None
            | Some raw \<Rightarrow>
                Some (put (put p ''password'' (JStr (bytes_text (stringToUint8Array raw)))) ''remember'' (JBool True)))
      else Some p)"

definition merge_peer :: "(string \<Rightarrow> string option) \<Rightarrow> string \<times> jsval \<Rightarrow> obj \<times> bool \<Rightarrow> (obj \<times> bool) option" where
  "merge_peer atob p s =
     (let (old, fresh) = add_or_refresh (fst s) (fst p) (snd p)
      in case fill_password atob (as_obj (get old (fst p))) of
           None \<Rightarrow> None
         | Some q \<Rightarrow> Some (put old (fst p) (JObj q), snd s \<or> fresh))"

fun merge_peers :: "(string \<Rightarrow> string option) \<Rightarrow> obj \<Rightarrow> obj \<times> bool \<Rightarrow> (obj \<times> bool) option" where
  "merge_peers atob [] s = Some s"
| "merge_peers atob (p # ps) s = (case merge_peer atob p s of None \<Rightarrow> None | Some s \<Rightarrow> merge_peers atob ps s)"

subsection \<open>State of the page\<close>

datatype conn_call =
    Start string
  | CloseConn
  | SetRemember bool
  | Login jsval
  | Refresh
  | Reconnect
  | ToggleOption string
  | SetImageQuality string
  | LockScreen
  | CtrlAltDel
  | SwitchDisplay string
  | InputKey jsval "bool list"
  | InputString string
  | InputMouse nat "int option" "int option" "bool list"
  | SetOption jsval jsval
  | InputOsPassword string

record web =
  wstore :: storage
  curConn :: "nat option"
  conns :: nat
  conn_calls :: "(nat \<times> conn_call) list"
  fetching :: bool
  conf_requests :: "string list"
  reloads :: nat

definition web_init :: "storage \<Rightarrow> web" where
  "web_init st = \<lparr>wstore = st, curConn = None, conns = 0, conn_calls = [], fetching = False, conf_requests = [], reloads = 0\<rparr>"

text \<open>\<open>getServerConf\<close> and the answer to its request; \<open>None\<close> is a failed request or an unreadable answer.\<close>

definition getServerConf :: "string \<Rightarrow> web \<Rightarrow> web" where
  "getServerConf tok w = (if fetching w then w else w\<lparr>fetching := True, conf_requests := conf_requests w @ [tok]\<rparr>)"

definition store_server :: "obj \<Rightarrow> storage \<Rightarrow> storage" where
  "store_server data st =
     (if getItem st ''custom-rendezvous-server'' \<in> {None, Some []} \<or> getItem st ''key'' \<in> {None, Some []}
      then setItem ''key'' (toStr (get data ''key'')) (setItem ''custom-rendezvous-server'' (toStr (get data ''id_server'')) st)
      else st)"

definition server_conf_answer :: "(string \<Rightarrow> string option) \<Rightarrow> obj option \<Rightarrow> web \<Rightarrow> web" where
  "server_conf_answer atob res w =
     (let w = w\<lparr>fetching := False\<rparr>
      in case res of
           None \<Rightarrow> w
         | Some res \<Rightarrow>
             (if get res ''code'' \<noteq> JNum 0 then w
              else
                (let data = as_obj (get res ''data'');
                     st = store_server data (wstore w);
                     w = w\<lparr>wstore := st\<rparr>
                 in if \<not> truthy (get data ''peers'') then w
                    else
                      case stored_peers st of
                        None \<Rightarrow> w
                      | Some old \<Rightarrow>
                          (case merge_peers atob (as_obj (get data ''peers'')) (old, False) of
                             None \<Rightarrow> w
                           | Some (ps, needUpdate) \<Rightarrow>
                               w\<lparr>wstore := setPeers ps st, reloads := reloads w + (if needUpdate then 1 else 0)\<rparr>))))"

text \<open>\<open>close\<close>, \<open>newConn\<close> and \<open>startConn\<close>.\<close>

definition conn_do :: "conn_call \<Rightarrow> web \<Rightarrow> web option" where
  "conn_do c w = (case curConn w of None \<Rightarrow> None | Some i \<Rightarrow> Some (w\<lparr>conn_calls := conn_calls w @ [(i, c)]\<rparr>))"

definition close_current :: "web \<Rightarrow> web" where
  "close_current w = (case conn_do CloseConn w of None \<Rightarrow> w | Some w \<Rightarrow> w)"

definition close_conn :: "web \<Rightarrow> web" where
  "close_conn w = (close_current w)\<lparr>curConn := None\<rparr>"

definition newConn :: "web \<Rightarrow> web" where
  "newConn w = (let w = close_current w in w\<lparr>curConn := Some (conns w), conns := Suc (conns w)\<rparr>)"

definition set_id :: "string \<Rightarrow> web \<Rightarrow> web" where
  "set_id i w = w\<lparr>wstore := setItem ''remote-id'' i (wstore w)\<rparr>"

definition startConn :: "string \<Rightarrow> web \<Rightarrow> web option" where
  "startConn i w = conn_do (Start i) (set_id i w)"

subsection \<open>setByName\<close>

text \<open>\<open>v == 'true'\<close> and \<open>parseInt(v || '0')\<close>, with \<open>None\<close> for \<open>NaN\<close>.\<close>

definition is_true :: "jsval \<Rightarrow> bool" where
  "is_true v = (case v of JStr s \<Rightarrow> s = ''true'' | JArr xs \<Rightarrow> toStr v = ''true'' | _ \<Rightarrow> False)"

definition coordinate :: "jsval \<Rightarrow> int option" where
  "coordinate v = parseInt (toStr (js_or v (JStr ''0'')))"

definition mouse_type :: "jsval \<Rightarrow> nat" where
  "mouse_type v = (if v = JStr ''down'' then 1 else if v = JStr ''up'' then 2 else if v = JStr ''wheel'' then 3 else 0)"

definition mouse_buttons :: "jsval \<Rightarrow> nat" where
  "mouse_buttons v =
     (if v = JStr ''left'' then push_bit 3 1
      else if v = JStr ''right'' then push_bit 3 2
      else if v = JStr ''wheel'' then push_bit 3 4 else 0)"

definition mouse_mask :: "obj \<Rightarrow> nat" where
  "mouse_mask o' = Bit_Operations.or (mouse_type (get o' ''type'')) (mouse_buttons (get o' ''buttons''))"

text \<open>
  The properties of a parsed argument: \<open>None\<close> when \<open>JSON.parse\<close> raises or gives \<open>null\<close>; other values
  that are not objects have no properties.
\<close>

definition parsed_arg :: "string \<Rightarrow> obj option" where
  "parsed_arg t = (case JSON_parse t of Parsed v \<Rightarrow> if nullish v then None else Some (as_obj v) | _ \<Rightarrow> None)"

definition modifiers :: "obj \<Rightarrow> bool list" where
  "modifiers o' = map (\<lambda>k. is_true (get o' k)) [''alt'', ''ctrl'', ''shift'', ''command'']"

definition set_option :: "obj \<Rightarrow> web \<Rightarrow> web" where
  "set_option o' w =
     (let w = w\<lparr>wstore := setItem (toStr (get o' ''name'')) (toStr (get o' ''value'')) (wstore w)\<rparr>
      in if get o' ''name'' = JStr ''access_token'' \<and> truthy (get o' ''value'')
         then getServerConf (toStr (get o' ''value'')) w else w)"

definition remove_peer :: "string \<Rightarrow> web \<Rightarrow> web" where
  "remove_peer i w = w\<lparr>wstore := setPeers (filter (\<lambda>p. fst p \<noteq> i) (getPeers (wstore w))) (wstore w)\<rparr>"

text \<open>
  \<open>setByName(name, value)\<close>: \<open>None\<close> is an exception, raised by a missing connection or a malformed
  argument before anything changed.
\<close>

definition setByName :: "string \<Rightarrow> string \<Rightarrow> web \<Rightarrow> web option" where
  "setByName name value w =
     (if name = ''remote_id'' then Some (set_id value w)
      else if name = ''connect'' then startConn value (newConn w)
      else if name = ''login'' then
        (case parsed_arg value of
           None \<Rightarrow> None
         | Some o' \<Rightarrow>
             (case conn_do (SetRemember (is_true (get o' ''remember''))) w of
                None \<Rightarrow> None
              | Some w \<Rightarrow> conn_do (Login (get o' ''password'')) w))
      else if name = ''close'' then Some (close_conn w)
      else if name = ''refresh'' then conn_do Refresh w
      else if name = ''reconnect'' then conn_do Reconnect w
      else if name = ''toggle_option'' then conn_do (ToggleOption value) w
      else if name = ''image_quality'' then conn_do (SetImageQuality value) w
      else if name = ''lock_screen'' then conn_do LockScreen w
      else if name = ''ctrl_alt_del'' then conn_do CtrlAltDel w
      else if name = ''switch_display'' then conn_do (SwitchDisplay value) w
      else if name = ''remove'' then Some (remove_peer value w)
      else if name = ''input_key'' then
        (case parsed_arg value of
           None \<Rightarrow> None
         | Some o' \<Rightarrow>
             conn_do (InputKey (get o' ''name'')
               (is_true (get o' ''down'') # is_true (get o' ''press'') # modifiers o')) w)
      else if name = ''input_string'' then conn_do (InputString value) w
      else if name = ''send_mouse'' then
        (case parsed_arg value of
           None \<Rightarrow> None
         | Some o' \<Rightarrow>
             conn_do (InputMouse (mouse_mask o') (coordinate (get o' ''x'')) (coordinate (get o' ''y'')) (modifiers o')) w)
      else if name = ''option'' then
        (case parsed_arg value of None \<Rightarrow> None | Some o' \<Rightarrow> Some (set_option o' w))
      else if name = ''peer_option'' then
        (case parsed_arg value of
           None \<Rightarrow> None
         | Some o' \<Rightarrow> conn_do (SetOption (get o' ''name'') (get o' ''value'')) w)
      else if name = ''input_os_password'' then conn_do (InputOsPassword value) w
      else Some w)"

subsection \<open>getByName\<close>

text \<open>
  What the connection and the generated code answer: \<open>getRemember\<close>, \<open>getOption\<close>, \<open>getImageQuality\<close>,
  \<open>translate\<close> and \<open>version\<close>.
\<close>

record answers =
  a_remember :: "nat \<Rightarrow> jsval"
  a_option :: "nat \<Rightarrow> string \<Rightarrow> jsval"
  a_quality :: "nat \<Rightarrow> jsval"
  a_translate :: "jsval \<Rightarrow> jsval \<Rightarrow> jsval"
  a_version :: jsval

definition opt_str :: "string option \<Rightarrow> jsval" where
  "opt_str v = (case v of None \<Rightarrow> JNull | Some s \<Rightarrow> JStr s)"

definition peers_value :: "storage \<Rightarrow> jsval" where
  "peers_value st = JArr (map (\<lambda>p. JArr [JStr (fst p), snd p]) (getPeersForDart st))"

definition get_by_name :: "answers \<Rightarrow> string \<Rightarrow> string \<Rightarrow> web \<Rightarrow> (jsval \<times> web) option" where
  "get_by_name a name arg w =
     (let conn = (\<lambda>f. map_option (\<lambda>i. (f i, w)) (curConn w))
      in if name = ''peers'' then Some (peers_value (wstore w), w)
         else if name = ''remote_id'' then Some (opt_str (getItem (wstore w) ''remote-id''), w)
         else if name = ''remember'' then conn (a_remember a)
         else if name = ''toggle_option'' then conn (\<lambda>i. js_or (a_option a i arg) (JBool False))
         else if name = ''option'' then
           (let v = getItem (wstore w) arg
            in Some (opt_str v,
                 if arg = ''access_token'' \<and> truthy (opt_str v) then getServerConf (toStr (opt_str v)) w else w))
         else if name = ''image_quality'' then conn (a_quality a)
         else if name = ''translate'' then
           (case parsed_arg arg of None \<Rightarrow> None | Some o' \<Rightarrow> Some (a_translate a (get o' ''locale'') (get o' ''text''), w))
         else if name = ''peer_option'' then conn (\<lambda>i. a_option a i arg)
         else if name = ''version'' then Some (a_version a, w)
         else Some (JStr '''', w))"

definition getByName :: "answers \<Rightarrow> string \<Rightarrow> string \<Rightarrow> web \<Rightarrow> (string \<times> web) option" where
  "getByName a name arg w =
     map_option (\<lambda>(v, w). (case v of JStr s \<Rightarrow> s | _ \<Rightarrow> if nullish v then [] else json_text v, w))
       (get_by_name a name arg w)"

subsection \<open>Lemmas: nonces\<close>

definition nonce_value :: "8 word list \<Rightarrow> nat" where
  "nonce_value bs = foldr (\<lambda>b a. unat b + 256 * a) bs 0"

lemma length_once_bytes: "length (once_bytes n v) = n"
  by (induction n v rule: once_bytes.induct) auto

lemma nonce_value_zero: "nonce_value (replicate n 0) = 0"
  by (induction n) (simp_all add: nonce_value_def)

lemma nonce_value_bytes: "v < 256 ^ n \<Longrightarrow> nonce_value (once_bytes n v) = v"
proof (induction n v rule: once_bytes.induct)
  case (2 n v)
  show ?case
  proof (cases "v > 0")
    case True
    have "v div 256 < 256 ^ n" using 2(2) by (simp add: div_less_iff_less_mult mult.commute)
    moreover have "(v - v mod 256) div 256 = v div 256" by (simp add: minus_mod_eq_div_mult)
    ultimately have "nonce_value (once_bytes n ((v - v mod 256) div 256)) = v div 256"
      using 2(1) [OF True] by simp
    moreover have "unat (word_of_nat (v mod 256) :: 8 word) = v mod 256"
      by (simp add: unat_of_nat)
    ultimately show ?thesis using True by (simp add: nonce_value_def)
  qed (use nonce_value_zero [of "Suc n"] in simp)
qed (simp add: nonce_value_def)

subsection \<open>Lemmas: the flipped frame\<close>

lemma length_set_at: "i + length ys \<le> length xs \<Longrightarrow> length (set_at xs i ys) = length xs"
  by (simp add: set_at_def)

lemma nth_set_at:
  "i + length ys \<le> length xs \<Longrightarrow> j < length xs \<Longrightarrow>
   set_at xs i ys ! j = (if i \<le> j \<and> j < i + length ys then ys ! (j - i) else xs ! j)"
  by (auto simp: set_at_def nth_append min_def)

text \<open>After \<open>k\<close> rows the last \<open>k\<close> rows of the output are the first ones of the input, reversed.\<close>

lemma flip_loop_rows:
  assumes "0 < row" "length pixels = height * row" "length out = height * row" "k \<le> height"
    and "\<And>r c. height - k \<le> r \<Longrightarrow> r < height \<Longrightarrow> c < row \<Longrightarrow> out ! (r * row + c) = pixels ! ((height - 1 - r) * row + c)"
    and "r < height" "c < row"
  shows "length (flip_loop (height * row) row ((height - 1) * row) pixels (k * row) out) = height * row
    \<and> flip_loop (height * row) row ((height - 1) * row) pixels (k * row) out ! (r * row + c)
        = pixels ! ((height - 1 - r) * row + c)"
  using assms(3-5)
proof (induction "height - k" arbitrary: k out)
  case 0
  then show ?case using assms(6,7) by (subst (1 2) flip_loop.simps) (simp add: assms(1))
next
  case (Suc n)
  then have k: "k < height" by simp
  let ?chunk = "take row (drop (k * row) pixels)"
  define at0 where "at0 = (height - 1) * row - k * row"
  let ?out = "set_at out at0 ?chunk"
  have at: "at0 = (height - 1 - k) * row" by (simp add: at0_def diff_mult_distrib)
  have le: "k * row + row \<le> height * row" using k mult_le_mono1 [of "Suc k" height row] by simp
  have lc: "length ?chunk = row" using le assms(2) by simp
  have "Suc (height - 1 - k) \<le> height" using k by simp
  from mult_le_mono1 [OF this, of row] have "(height - 1 - k) * row + row \<le> height * row"
    by (simp add: add.commute)
  then have fit: "at0 + length ?chunk \<le> length out" using lc at Suc.prems(1) by simp
  have step: "flip_loop (height * row) row ((height - 1) * row) pixels (k * row) out =
      flip_loop (height * row) row ((height - 1) * row) pixels (Suc k * row) ?out"
    using k assms(1) by (subst flip_loop.simps) (simp add: add.commute at0_def)
  have new: "?out ! (r * row + c) = pixels ! ((height - 1 - r) * row + c)"
    if r: "height - Suc k \<le> r" "r < height" "c < row" for r c
  proof -
    have j: "r * row + c < length out"
      using r(2,3) Suc.prems(1) mult_le_mono1 [of "Suc r" height row] by simp
    show ?thesis
    proof (cases "r = height - Suc k")
      case True
      then have "r * row = at0" "height - 1 - r = k" using at k by simp_all
      then show ?thesis using nth_set_at [OF fit j] r(3) lc le assms(2) by simp
    next
      case False
      then have gt: "height - k \<le> r" using r(1) k by simp
      then have "Suc (height - 1 - k) \<le> r" using k by simp
      from mult_le_mono1 [OF this, of row] have "at0 + row \<le> r * row" by (simp add: at add.commute)
      then show ?thesis using nth_set_at [OF fit j] lc Suc.prems(3) [OF gt r(2,3)] by simp
    qed
  qed
  show ?case
    unfolding step
  proof (rule Suc.hyps(1))
    show "n = height - Suc k" using Suc.hyps(2) by simp
    show "length ?out = height * row" using length_set_at [OF fit] Suc.prems(1) by simp
    show "Suc k \<le> height" using k by simp
  qed (rule new)
qed

subsection \<open>Lemmas: order of the peers\<close>

lemma show_nat_step: "10 \<le> n \<Longrightarrow> show_nat n = show_nat (n div 10) @ [digit (n mod 10)]"
  by (subst show_nat.simps) simp

lemma digit_less: "a < b \<Longrightarrow> b < 10 \<Longrightarrow> digit a < digit b"
  by (simp add: less_char_def digit_def chr_def)

lemma lex_append: "length s = length t \<Longrightarrow> (s :: string) < t \<Longrightarrow> s @ x < t @ y"
proof (induction s t rule: list_induct2)
  case (Cons a s b t)
  then show ?case by auto
qed simp

lemma lex_prefix: "(s :: string) @ x < s @ y \<longleftrightarrow> x < y"
  by (induction s) auto

lemma length_show_nat_div: "10 \<le> n \<Longrightarrow> length (show_nat n) = Suc (length (show_nat (n div 10)))"
  by (simp add: show_nat_step)

lemma show_nat_less:
  "length (show_nat m) = length (show_nat n) \<Longrightarrow> m < n \<Longrightarrow> show_nat m < show_nat n"
proof (induction n arbitrary: m rule: show_nat.induct)
  case (1 n)
  show ?case
  proof (cases "n < 10")
    case True
    then have "show_nat m = [digit m]" "show_nat n = [digit n]" using 1(3) by (simp_all add: show_nat.simps)
    then show ?thesis using digit_less [OF 1(3)] True by simp
  next
    case False
    have m: "10 \<le> m"
    proof (rule ccontr)
      assume "\<not> 10 \<le> m"
      then have "length (show_nat m) = 1" by (simp add: show_nat.simps)
      moreover have "length (show_nat n) = Suc (length (show_nat (n div 10)))" using False by (simp add: length_show_nat_div)
      ultimately show False using 1(2) by simp
    qed
    have len: "length (show_nat (m div 10)) = length (show_nat (n div 10))"
      using 1(2) m False by (simp add: length_show_nat_div)
    show ?thesis
    proof (cases "m div 10 < n div 10")
      case True
      then have "show_nat (m div 10) < show_nat (n div 10)" using 1(1) [OF False] len by simp
      then show ?thesis using lex_append [OF len] m False by (simp add: show_nat_step)
    next
      case eq: False
      then have e: "m div 10 = n div 10" using 1(3) div_le_mono [of m n 10] by simp
      then have "m mod 10 < n mod 10" using 1(3) by (metis div_mult_mod_eq nat_add_left_cancel_less)
      then have "digit (m mod 10) < digit (n mod 10)" by (intro digit_less) auto
      then show ?thesis using e m False by (simp add: show_nat_step lex_prefix)
    qed
  qed
qed

text \<open>The time of an entry, as a number.\<close>

fun tm_of :: "jsval \<times> string \<times> jsval \<Rightarrow> nat" where
  "tm_of (JNum n, i, x) = nat n"
| "tm_of _ = 0"

text \<open>A time stamp with \<open>d\<close> digits.\<close>

definition stamp :: "nat \<Rightarrow> jsval \<Rightarrow> bool" where
  "stamp d v = (\<exists>n \<ge> 0. v = JNum n \<and> length (show_nat (nat n)) = d)"

lemma entry_text_order:
  assumes "stamp d (fst a)" "stamp d (fst b)" "entry_text a \<le> entry_text b"
  shows "tm_of a \<le> tm_of b"
proof (rule ccontr)
  assume "\<not> tm_of a \<le> tm_of b"
  then have less: "tm_of b < tm_of a" by simp
  obtain i x where a: "a = (JNum (int (tm_of a)), i, x)" "length (show_nat (tm_of a)) = d"
    using assms(1) by (cases a) (auto simp: stamp_def)
  obtain j y where b: "b = (JNum (int (tm_of b)), j, y)" "length (show_nat (tm_of b)) = d"
    using assms(2) by (cases b) (auto simp: stamp_def)
  have "show_nat (tm_of b) < show_nat (tm_of a)" using show_nat_less [OF _ less] a(2) b(2) by simp
  then have "show_nat (tm_of b) @ u < show_nat (tm_of a) @ w" for u w
    using lex_append a(2) b(2) by metis
  moreover have "\<exists>u. entry_text e = show_nat (tm_of e) @ u" if "e = (JNum (int (tm_of e)), k, z)" for e k z
    by (subst (1) that) (simp add: entry_text_def show_int_def)
  ultimately have "entry_text b < entry_text a" using a(1) b(1) by metis
  then show False using assms(3) by simp
qed

subsection \<open>Lemmas: merging\<close>

lemma fill_password_get:
  "fill_password atob p = Some q \<Longrightarrow> k \<noteq> ''password'' \<Longrightarrow> k \<noteq> ''remember'' \<Longrightarrow> get q k = get p k"
  "fill_password atob p = Some q \<Longrightarrow> truthy (get p ''password'') \<Longrightarrow> q = p"
  by (auto simp: fill_password_def split: if_splits option.splits)

lemma merge_peer_get:
  assumes "merge_peer atob (k, peer) (old, u) = Some (new, u')"
  shows "j \<noteq> k \<Longrightarrow> get new j = get old j"
    and "\<exists>q. get new k = JObj q"
    and "u' = (u \<or> \<not> truthy (get old k))"
    and "truthy (get old k) \<Longrightarrow> opt_prop (get new k) ''info'' = opt_prop peer ''info''"
    and "get old k = JObj o' \<Longrightarrow> truthy (get o' ''password'') \<Longrightarrow>
           get new k = JObj (put o' ''info'' (opt_prop peer ''info''))"
  using assms fill_password_get
  by (auto simp: merge_peer_def add_or_refresh_def split: option.splits if_splits)

lemma merge_peers_other:
  "merge_peers atob ps (old, u) = Some (new, u') \<Longrightarrow> j \<notin> fst ` set ps \<Longrightarrow> get new j = get old j"
proof (induction ps arbitrary: old u)
  case (Cons p ps)
  obtain k peer where p: "p = (k, peer)" by (cases p)
  obtain mid v where m: "merge_peer atob p (old, u) = Some (mid, v)" "merge_peers atob ps (mid, v) = Some (new, u')"
    using Cons.prems(1) by (auto split: option.splits)
  then show ?case using Cons.IH [OF m(2)] merge_peer_get(1) [of atob k peer old u mid v j] Cons.prems(2) p by simp
qed simp

lemma merge_peers_need:
  "merge_peers atob ps (old, u) = Some (new, u') \<Longrightarrow> distinct (map fst ps) \<Longrightarrow>
   u' = (u \<or> (\<exists>k \<in> fst ` set ps. \<not> truthy (get old k)))"
proof (induction ps arbitrary: old u)
  case (Cons p ps)
  obtain k peer where p: "p = (k, peer)" by (cases p)
  obtain mid v where m: "merge_peer atob p (old, u) = Some (mid, v)" "merge_peers atob ps (mid, v) = Some (new, u')"
    using Cons.prems(1) by (auto split: option.splits)
  have "get mid j = get old j" if "j \<in> fst ` set ps" for j
    using merge_peer_get(1) [of atob k peer old u mid v j] m(1) p that Cons.prems(2) by auto
  moreover have "v = (u \<or> \<not> truthy (get old k))" using merge_peer_get(3) m(1) p by blast
  ultimately show ?case using Cons.IH [OF m(2)] Cons.prems(2) p by auto
qed simp

lemma merge_peers_object:
  "merge_peers atob ps (old, u) = Some (new, u') \<Longrightarrow> k \<in> fst ` set ps \<Longrightarrow> \<exists>q. get new k = JObj q"
proof (induction ps arbitrary: old u)
  case (Cons p ps)
  obtain j peer where p: "p = (j, peer)" by (cases p)
  obtain mid v where m: "merge_peer atob p (old, u) = Some (mid, v)" "merge_peers atob ps (mid, v) = Some (new, u')"
    using Cons.prems(1) by (auto split: option.splits)
  show ?case
  proof (cases "k \<in> fst ` set ps")
    case False
    then have "get new k = get mid k" "k = j" using merge_peers_other [OF m(2)] Cons.prems(2) p by auto
    then show ?thesis using merge_peer_get(2) m(1) p by metis
  qed (rule Cons.IH [OF m(2)])
qed simp

lemma merge_peers_password:
  "merge_peers atob ps (old, u) = Some (new, u') \<Longrightarrow> get old k = JObj o' \<Longrightarrow> truthy (get o' ''password'') \<Longrightarrow>
   \<exists>q. get new k = JObj q \<and> (\<forall>x. x \<noteq> ''info'' \<longrightarrow> get q x = get o' x)"
proof (induction ps arbitrary: old u o')
  case (Cons p ps)
  obtain j peer where p: "p = (j, peer)" by (cases p)
  obtain mid v where m: "merge_peer atob p (old, u) = Some (mid, v)" "merge_peers atob ps (mid, v) = Some (new, u')"
    using Cons.prems(1) by (auto split: option.splits)
  show ?case
  proof (cases "k = j")
    case True
    then have g: "get mid k = JObj (put o' ''info'' (opt_prop peer ''info''))"
      using merge_peer_get(5) m(1) p Cons.prems by metis
    from Cons.IH [OF m(2) g] Cons.prems(3) show ?thesis by auto
  next
    case False
    then have "get mid k = JObj o'" using merge_peer_get(1) m(1) p Cons.prems(2) by metis
    then show ?thesis using Cons.IH [OF m(2)] Cons.prems(3) by blast
  qed
qed auto

text \<open>Values stay fit for JSON.\<close>

lemma json_ok_put: "json_ok (JObj o') \<Longrightarrow> json_ok v \<Longrightarrow> json_ok (JObj (put o' k v))"
proof -
  assume a: "json_ok (JObj o')" "json_ok v"
  have "fst ` set (put o' k v) \<subseteq> insert k (fst ` set o')" by (induction o') auto
  moreover have "list_all (\<lambda>p. json_ok (snd p)) (put o' k v)" using a by (induction o') auto
  moreover have "distinct (map fst (put o' k v))"
    using put_wf [of o' k v] a(1) by (simp add: obj_wf_def keys_def)
  ultimately show ?thesis by simp
qed

lemma json_ok_get: "json_ok (JObj o') \<Longrightarrow> get o' k \<noteq> JUndef \<Longrightarrow> json_ok (get o' k)"
  by (auto simp: get_def list_all_iff split: option.splits dest!: map_of_SomeD)

lemma json_ok_as_obj: "json_ok v \<or> v = JUndef \<Longrightarrow> json_ok (JObj (as_obj v))"
  by (cases v) auto

text \<open>A peer of the server: an object with an \<open>info\<close> that JSON can carry.\<close>

definition good_peer :: "jsval \<Rightarrow> bool" where
  "good_peer v = (json_ok v \<and> opt_prop v ''info'' \<noteq> JUndef)"

lemma good_peer_info: "good_peer v \<Longrightarrow> json_ok (opt_prop v ''info'')"
  using json_ok_get by (cases v) (auto simp: good_peer_def)

lemma fill_password_ok: "fill_password atob p = Some q \<Longrightarrow> json_ok (JObj p) \<Longrightarrow> json_ok (JObj q)"
  by (auto simp: fill_password_def simp del: json_ok.simps(3) intro!: json_ok_put split: if_splits option.splits)

lemma merge_peer_ok:
  assumes "merge_peer atob (k, peer) (old, u) = Some (new, u')" "json_ok (JObj old)" "good_peer peer"
  shows "json_ok (JObj new)"
proof -
  obtain mid f where mid: "add_or_refresh old k peer = (mid, f)" by fastforce
  obtain q where q: "fill_password atob (as_obj (get mid k)) = Some q" "new = put mid k (JObj q)"
    using assms(1) mid by (auto simp: merge_peer_def split: option.splits)
  have "json_ok (JObj mid)"
  proof (cases "truthy (get old k)")
    case True
    then have "json_ok (get old k)" using json_ok_get [OF assms(2)] by force
    then show ?thesis using mid True assms(2) good_peer_info [OF assms(3)]
      by (auto simp: add_or_refresh_def simp del: json_ok.simps(3) intro!: json_ok_put json_ok_as_obj)
  next
    case False
    then show ?thesis using mid assms(2,3) by (auto simp: add_or_refresh_def good_peer_def simp del: json_ok.simps(3) intro!: json_ok_put)
  qed
  moreover from this have "json_ok (JObj (as_obj (get mid k)))" using json_ok_get json_ok_as_obj by metis
  ultimately show ?thesis using q fill_password_ok json_ok_put by metis
qed

lemma merge_peers_ok:
  "merge_peers atob ps (old, u) = Some (new, u') \<Longrightarrow> json_ok (JObj old) \<Longrightarrow> list_all (\<lambda>p. good_peer (snd p)) ps \<Longrightarrow>
   json_ok (JObj new)"
proof (induction ps arbitrary: old u)
  case (Cons p ps)
  obtain k peer where p: "p = (k, peer)" by (cases p)
  obtain mid v where m: "merge_peer atob p (old, u) = Some (mid, v)" "merge_peers atob ps (mid, v) = Some (new, u')"
    using Cons.prems(1) by (auto split: option.splits)
  have "json_ok (JObj mid)" using merge_peer_ok [of atob k peer old u mid v] m(1) p Cons.prems by simp
  then show ?case using Cons.IH [OF m(2)] Cons.prems(3) by simp
qed simp

lemma stored_setPeers [simp]: "json_ok (JObj ps) \<Longrightarrow> stored_peers (setPeers ps st) = Some ps"
  using JSON_round_trip [of "JObj ps"] by (simp add: stored_peers_def setPeers_def)

subsection \<open>The page as a step relation\<close>

inductive page_step :: "web \<Rightarrow> web \<Rightarrow> bool" where
  page_set: "setByName name value w = Some w' \<Longrightarrow> page_step w w'"
| page_get: "getByName a name arg w = Some (v, w') \<Longrightarrow> page_step w w'"
| page_conf: "page_step w (server_conf_answer atob res w)"

inductive page_reachable :: "storage \<Rightarrow> web \<Rightarrow> bool" for st where
  page_start: "page_reachable st (web_init st)"
| page_next: "page_reachable st w \<Longrightarrow> page_step w w' \<Longrightarrow> page_reachable st w'"

text \<open>Nothing is called on a connection after it was closed.\<close>

fun closed_silent :: "(nat \<times> conn_call) list \<Rightarrow> bool" where
  "closed_silent [] = True"
| "closed_silent (x # xs) = ((if snd x = CloseConn then \<forall>y \<in> set xs. fst y \<noteq> fst x else True) \<and> closed_silent xs)"

lemma closed_silent_snoc:
  "closed_silent (xs @ [y]) \<longleftrightarrow> closed_silent xs \<and> (fst y, CloseConn) \<notin> set xs"
  by (induction xs) auto

text \<open>The open connections: those made and not closed.\<close>

definition open_conns :: "web \<Rightarrow> nat set" where
  "open_conns w = {i. i < conns w \<and> (i, CloseConn) \<notin> set (conn_calls w)}"

definition conn_inv :: "web \<Rightarrow> bool" where
  "conn_inv w =
     ((\<forall>x \<in> set (conn_calls w). fst x < conns w) \<and> closed_silent (conn_calls w)
      \<and> open_conns w = (case curConn w of None \<Rightarrow> {} | Some i \<Rightarrow> {i}))"

lemma conn_inv_cong:
  "conn_calls w' = conn_calls w \<Longrightarrow> conns w' = conns w \<Longrightarrow> curConn w' = curConn w \<Longrightarrow> conn_inv w' = conn_inv w"
  by (simp add: conn_inv_def open_conns_def)

lemma conn_do_inv:
  assumes "conn_do c w = Some w'" "conn_inv w" "c \<noteq> CloseConn"
  shows "conn_inv w'"
proof -
  obtain i where i: "curConn w = Some i" "w' = w\<lparr>conn_calls := conn_calls w @ [(i, c)]\<rparr>"
    using assms(1) by (auto simp: conn_do_def split: option.splits)
  have o: "i \<in> open_conns w" using assms(2) i(1) by (simp add: conn_inv_def)
  have "open_conns w' = open_conns w" using assms(3) i(2) by (auto simp: open_conns_def)
  then show ?thesis using assms(2) i o by (auto simp: conn_inv_def closed_silent_snoc open_conns_def)
qed

lemma close_current_inv:
  assumes "conn_inv w"
  shows "conn_inv ((close_current w)\<lparr>curConn := None\<rparr>)"
proof (cases "curConn w")
  case None
  then show ?thesis using assms by (simp add: close_current_def conn_do_def conn_inv_def open_conns_def)
next
  case (Some i)
  have o: "open_conns w = {i}" using assms Some by (simp add: conn_inv_def)
  then have i: "i < conns w" "(i, CloseConn) \<notin> set (conn_calls w)" by (auto simp: open_conns_def)
  let ?w = "(close_current w)\<lparr>curConn := None\<rparr>"
  have c: "conn_calls ?w = conn_calls w @ [(i, CloseConn)]" "conns ?w = conns w" "curConn ?w = None"
    using Some by (simp_all add: close_current_def conn_do_def)
  have "open_conns ?w = {}" using o c by (auto simp: open_conns_def)
  then show ?thesis using assms i c by (auto simp: conn_inv_def closed_silent_snoc)
qed

lemma newConn_inv:
  assumes "conn_inv w"
  shows "conn_inv (newConn w)"
proof -
  let ?w = "(close_current w)\<lparr>curConn := None\<rparr>"
  have inv: "conn_inv ?w" by (rule close_current_inv [OF assms])
  have n: "conn_calls (newConn w) = conn_calls ?w" "conns (newConn w) = Suc (conns ?w)" "curConn (newConn w) = Some (conns ?w)"
    by (simp_all add: newConn_def Let_def)
  have fresh: "(conns ?w, CloseConn) \<notin> set (conn_calls ?w)" using inv by (auto simp: conn_inv_def)
  have "open_conns (newConn w) = insert (conns ?w) (open_conns ?w)" using fresh n by (auto simp: open_conns_def less_Suc_eq)
  then show ?thesis using inv n by (auto simp: conn_inv_def less_Suc_eq)
qed

lemma set_fields [simp]:
  "conn_calls (getServerConf t w) = conn_calls w" "conns (getServerConf t w) = conns w" "curConn (getServerConf t w) = curConn w"
  "conn_calls (set_id i w) = conn_calls w" "conns (set_id i w) = conns w" "curConn (set_id i w) = curConn w"
  "conn_calls (remove_peer i w) = conn_calls w" "conns (remove_peer i w) = conns w" "curConn (remove_peer i w) = curConn w"
  "conn_calls (set_option o' w) = conn_calls w" "conns (set_option o' w) = conns w" "curConn (set_option o' w) = curConn w"
  by (simp_all add: getServerConf_def set_id_def remove_peer_def set_option_def Let_def)

lemma server_conf_answer_fields [simp]:
  "conn_calls (server_conf_answer atob res w) = conn_calls w" "conns (server_conf_answer atob res w) = conns w"
  "curConn (server_conf_answer atob res w) = curConn w" "fetching (server_conf_answer atob res w) = False"
  by (simp_all add: server_conf_answer_def Let_def split: option.split)

lemma setByName_inv:
  assumes "setByName name value w = Some w'" "conn_inv w"
  shows "conn_inv w'"
proof -
  have close: "conn_inv (close_conn w)" unfolding close_conn_def by (rule close_current_inv [OF assms(2)])
  have start: "startConn value (newConn w) = Some w' \<Longrightarrow> conn_inv w'"
    using conn_do_inv [of "Start value" "set_id value (newConn w)" w'] newConn_inv [OF assms(2)]
      conn_inv_cong [of "set_id value (newConn w)" "newConn w"] by (simp add: startConn_def)
  have same: "conn_inv (set_id value w)" "conn_inv (remove_peer value w)" "conn_inv (set_option o' w)" for o'
    using conn_inv_cong [of "set_id value w" w] conn_inv_cong [of "remove_peer value w" w]
      conn_inv_cong [of "set_option o' w" w] assms(2) by simp_all
  note d = conn_do_inv [OF _ assms(2)]
  show ?thesis
    using assms close start same
    by (auto simp: setByName_def intro: d conn_do_inv split: if_splits option.splits)
qed

lemma getByName_fields:
  "getByName a name arg w = Some (v, w') \<Longrightarrow> conn_calls w' = conn_calls w \<and> conns w' = conns w \<and> curConn w' = curConn w"
  by (auto simp: getByName_def get_by_name_def Let_def split: if_splits option.splits)

lemma page_step_inv: "page_step w w' \<Longrightarrow> conn_inv w \<Longrightarrow> conn_inv w'"
proof (induction rule: page_step.induct)
  case page_set
  then show ?case using setByName_inv by blast
next
  case page_get
  then show ?case using getByName_fields conn_inv_cong by metis
next
  case page_conf
  then show ?case using conn_inv_cong by (metis server_conf_answer_fields(1,2,3))
qed

lemma page_reachable_inv: "page_reachable st w \<Longrightarrow> conn_inv w"
proof (induction rule: page_reachable.induct)
  case page_start
  then show ?case by (simp add: conn_inv_def web_init_def open_conns_def)
next
  case (page_next w w')
  then show ?case using page_step_inv by blast
qed

text \<open>The answer of the server as the page can merge it.\<close>

definition good_answer :: "obj \<Rightarrow> bool" where
  "good_answer res =
     (let ps = as_obj (get (as_obj (get res ''data'')) ''peers'')
      in distinct (map fst ps) \<and> list_all (\<lambda>p. good_peer (snd p)) ps)"

lemma stored_peers_server [simp]: "stored_peers (store_server data st) = stored_peers st"
  by (simp add: stored_peers_def store_server_def getItem_def setItem_def)

lemma truthy_object: "v = JObj o' \<Longrightarrow> truthy v"
  by simp

subsection \<open>Properties\<close>

text \<open>
  Distinct message counters give distinct nonces, for every counter a JavaScript number can
  count to; a nonce always has 24 bytes, and what is encrypted under a counter is decrypted under it.
\<close>

lemma nonces_distinct:
  assumes "m < 2 ^ 53" and "n < 2 ^ 53" and "\<And>x ns k. open_box (box x ns k) ns k = x"
  shows "(makeOnce m = makeOnce n \<longleftrightarrow> m = n) \<and> length (makeOnce m) = 24
    \<and> decrypt open_box (encrypt box x m k) m k = x"
proof -
  have "m < 256 ^ 24" "n < 256 ^ 24" using assms(1,2) by simp_all
  then have "nonce_value (makeOnce m) = m" "nonce_value (makeOnce n) = n"
    by (simp_all only: makeOnce_def nonce_value_bytes)
  then have "makeOnce m = makeOnce n \<longleftrightarrow> m = n" by metis
  then show ?thesis using assms(3) by (simp add: makeOnce_def length_once_bytes decrypt_def encrypt_def)
qed

text \<open>
  Drawing turns the frame upside down: whatever the buffer held before, row \<open>r\<close> of the result
  is row \<open>height - 1 - r\<close> of the pixels read, byte by byte, and nothing is read or written out of
  bounds.
\<close>

lemma frame_flipped:
  assumes "length pixels = width * height * 4" and "r < height" and "c < width * 4"
  shows "length (draw_flip width height old pixels) = width * height * 4
    \<and> draw_flip width height old pixels ! (r * (width * 4) + c) = pixels ! ((height - 1 - r) * (width * 4) + c)"
proof -
  define out where "out = (if length old \<noteq> width * height * 4 then replicate (width * height * 4) 0 else old)"
  have sz: "width * height * 4 = height * (width * 4)" by simp
  have lo: "length out = height * (width * 4)" by (simp add: out_def)
  have eq: "draw_flip width height old pixels =
      flip_loop (height * (width * 4)) (width * 4) ((height - 1) * (width * 4)) pixels (0 * (width * 4)) out"
    by (simp add: draw_flip_def Let_def out_def sz)
  show ?thesis
    unfolding eq sz
    by (rule flip_loop_rows) (use assms lo in \<open>simp_all add: ac_simps\<close>)
qed

text \<open>
  The list of known devices is handed to the program with the most recently used first, as
  long as the time stamps have the same number of digits: sorting the entries as texts, as the code
  does, then is sorting them by time; nothing is lost or added.
\<close>

lemma peers_newest_first:
  assumes "\<forall>e \<in> set (List.map_filter peer_entry (getPeers st)). stamp d (fst e)"
  shows "\<exists>es. getPeersForDart st = map snd es
    \<and> mset es = mset (List.map_filter peer_entry (getPeers st))
    \<and> sorted_wrt (\<lambda>a b. tm_of b \<le> tm_of a) es"
proof -
  let ?es = "sort_key entry_text (List.map_filter peer_entry (getPeers st))"
  have "sorted_wrt (\<lambda>a b. entry_text a \<le> entry_text b) ?es"
    using sorted_sort_key [of entry_text] by (simp add: sorted_map)
  then have "sorted_wrt (\<lambda>a b. tm_of a \<le> tm_of b) ?es"
    by (rule sorted_wrt_mono_rel [rotated]) (use assms in \<open>auto intro: entry_text_order\<close>)
  then show ?thesis
    by (intro exI [of _ "rev ?es"]) (simp add: getPeersForDart_def sorted_wrt_rev)
qed

text \<open>
  Merging the server's address book never costs the user a stored password: a device that has
  one keeps it and everything else but the server's \<open>info\<close>; devices the server does not list are
  untouched, and the page is reloaded exactly when a listed device was unknown.
\<close>

lemma merge_keeps_passwords:
  assumes "merge_peers atob ps (old, False) = Some (new, needUpdate)" and "distinct (map fst ps)"
  shows "(get old k = JObj o' \<and> truthy (get o' ''password'') \<longrightarrow>
        (\<exists>q. get new k = JObj q \<and> (\<forall>x. x \<noteq> ''info'' \<longrightarrow> get q x = get o' x)))
    \<and> (k \<notin> fst ` set ps \<longrightarrow> get new k = get old k)
    \<and> (needUpdate \<longleftrightarrow> (\<exists>j \<in> fst ` set ps. \<not> truthy (get old j)))"
  using merge_peers_password [OF assms(1)] merge_peers_other [OF assms(1)] merge_peers_need [OF assms] by auto

text \<open>
  C35: the reload after a merge cannot repeat itself: when the same answer of the server is merged
  again, as the reloaded page will do, no further reload is requested.
\<close>

theorem no_reload_loop:
  assumes "good_answer res" and "stored_peers (wstore w) = Some old" and "json_ok (JObj old)"
  shows "let w1 = server_conf_answer atob (Some res) w; w2 = server_conf_answer atob (Some res) w1
    in reloads w1 \<le> Suc (reloads w) \<and> reloads w2 = reloads w1"
proof -
  let ?data = "as_obj (get res ''data'')"
  let ?ps = "as_obj (get ?data ''peers'')"
  have good: "distinct (map fst ?ps)" "list_all (\<lambda>p. good_peer (snd p)) ?ps"
    using assms(1) by (simp_all add: good_answer_def Let_def)
  show ?thesis
  proof (cases "get res ''code'' = JNum 0 \<and> truthy (get ?data ''peers'')")
    case False
    then show ?thesis by (simp add: server_conf_answer_def Let_def)
  next
    case go: True
    show ?thesis
    proof (cases "merge_peers atob ?ps (old, False)")
      case None
      then show ?thesis using go assms(2) by (simp add: server_conf_answer_def Let_def)
    next
      case (Some nu)
      obtain new u where nu: "nu = (new, u)" by (cases nu)
      have ok: "json_ok (JObj new)" using merge_peers_ok [of atob ?ps old False new u] Some nu assms(3) good(2) by simp
      have "\<not> u2" if "merge_peers atob ?ps (new, False) = Some (n2, u2)" for n2 u2
      proof -
        have "\<forall>k \<in> fst ` set ?ps. truthy (get new k)"
          using merge_peers_object [of atob ?ps old False new u] Some nu truthy_object by blast
        then show ?thesis using merge_peers_need [OF that good(1)] by simp
      qed
      then show ?thesis using go assms(2) Some nu ok
        by (auto simp: server_conf_answer_def Let_def split: option.split)
    qed
  qed
qed

theorem no_reload_loop_witness:
  "let w1 = server_conf_answer Some (Some [(''code'', JNum 0), (''data'', JObj [(''peers'',
        JObj [(''7'', JObj [(''info'', JObj [(''id'', JStr ''7'')])])])])]) (web_init Map.empty)
    in reloads (server_conf_answer Some (Some [(''code'', JNum 0), (''data'', JObj [(''peers'',
        JObj [(''7'', JObj [(''info'', JObj [(''id'', JStr ''7'')])])])])]) w1) = reloads w1"
  using no_reload_loop [of "[(''code'', JNum 0), (''data'', JObj [(''peers'',
        JObj [(''7'', JObj [(''info'', JObj [(''id'', JStr ''7'')])])])])]" "web_init Map.empty" "[]" Some]
  by (simp add: good_answer_def good_peer_def stored_peers_def web_init_def getItem_def Let_def)

text \<open>
  C34: in every reachable state of the page at most one connection is open, namely the current one,
  and no connection has been used after it was closed, however connects, closes, inputs and answers
  of the server interleave.
\<close>

theorem closed_connections_silent:
  assumes "page_reachable st w"
  shows "closed_silent (conn_calls w) \<and> open_conns w = (case curConn w of None \<Rightarrow> {} | Some i \<Rightarrow> {i})"
  using page_reachable_inv [OF assms] by (simp add: conn_inv_def)

theorem closed_connections_silent_witness:
  "\<exists>w. page_reachable Map.empty w \<and> closed_silent (conn_calls w) \<and> open_conns w = {0}"
proof -
  have "setByName ''connect'' ''9'' (web_init Map.empty) =
      Some ((set_id ''9'' (newConn (web_init Map.empty)))\<lparr>conn_calls := [(0, Start ''9'')]\<rparr>)"
    by (simp add: setByName_def startConn_def conn_do_def newConn_def close_current_def web_init_def set_id_def Let_def)
  from page_next [OF page_start page_set [OF this]]
  obtain w where "page_reachable Map.empty w" "w = (set_id ''9'' (newConn (web_init Map.empty)))\<lparr>conn_calls := [(0, Start ''9'')]\<rparr>"
    by blast
  then have w: "page_reachable Map.empty w" "curConn w = Some 0"
    by (simp_all add: newConn_def web_init_def close_current_def conn_do_def set_id_def Let_def)
  show ?thesis using closed_connections_silent [OF w(1)] w by auto
qed

end
