(* ===== verification/ConnectPage.thy ===== *)
theory ConnectPage
  imports Auth
begin

text \<open>
  The development page of the browser client (\<open>api/resources/web/js/src/ui.js\<close>): four panels that
  are shown and hidden by the connection's messages. What the page asks of \<open>globals.js\<close> is recorded;
  \<open>connected\<close> is whether \<open>getConn()\<close> has a connection.
\<close>

datatype conn_request = NewConn | StartConn string | LoginWith string | CloseIt

record ui =
  connect_shown :: bool
  password_shown :: bool
  status_shown :: bool
  canvas_shown :: bool
  status_text :: string
  ui_store :: storage
  connected :: bool
  ui_requests :: "conn_request list"

definition ui_init :: "storage \<Rightarrow> ui" where
  "ui_init st =
     \<lparr>connect_shown = True, password_shown = False, status_shown = False, canvas_shown = False, status_text = [],
      ui_store = st, connected = False, ui_requests = []\<rparr>"

text \<open>The values the form starts with; an absent entry gives an empty field.\<close>

definition form_values :: "storage \<Rightarrow> string option \<times> string option \<times> string option" where
  "form_values st = (getItem st ''custom-rendezvous-server'', getItem st ''id'', getItem st ''key'')"

definition ui_connect :: "string \<Rightarrow> string \<Rightarrow> string \<Rightarrow> ui \<Rightarrow> ui" where
  "ui_connect host i k u =
     u\<lparr>ui_store := setItem ''key'' k (setItem ''id'' i (setItem ''custom-rendezvous-server'' host (ui_store u))),
       connected := True, ui_requests := ui_requests u @ [NewConn, StartConn i],
       status_shown := True, connect_shown := False, status_text := ''Connecting ...''\<rparr>"

definition ui_msgbox :: "string \<Rightarrow> string \<Rightarrow> ui \<Rightarrow> ui" where
  "ui_msgbox type text u =
     (if \<not> connected u then u
      else if type = ''input-password'' then u\<lparr>status_shown := False, password_shown := True\<rparr>
      else if type = [] then u\<lparr>canvas_shown := True, password_shown := False, status_shown := False\<rparr>
      else if type = ''error'' then
        u\<lparr>status_shown := True, canvas_shown := False,
          status_text := ''<div style=\"color: red; font-weight: bold;\">'' @ text @ ''</div>''\<rparr>
      else
        u\<lparr>password_shown := False, status_shown := True,
          status_text := ''<div style=\"font-weight: bold;\">'' @ text @ ''</div>''\<rparr>)"

definition ui_cancel :: "ui \<Rightarrow> ui" where
  "ui_cancel u =
     u\<lparr>connected := False, ui_requests := ui_requests u @ [CloseIt],
       connect_shown := True, password_shown := False, status_shown := False, canvas_shown := False\<rparr>"

text \<open>\<open>confirm\<close>: the password panel is only shown while there is a connection; without one \<open>login\<close> raises.\<close>

definition ui_confirm :: "string \<Rightarrow> ui \<Rightarrow> ui" where
  "ui_confirm password u =
     (if password = [] then u
      else
        (let u = u\<lparr>password_shown := False\<rparr>
         in if connected u then u\<lparr>ui_requests := ui_requests u @ [LoginWith password]\<rparr> else u))"

inductive ui_step :: "ui \<Rightarrow> ui \<Rightarrow> bool" where
  step_connect: "ui_step u (ui_connect host i k u)"
| step_msgbox: "ui_step u (ui_msgbox type text u)"
| step_cancel: "ui_step u (ui_cancel u)"
| step_confirm: "ui_step u (ui_confirm password u)"

text \<open>
  A message that arrives after the connection was closed changes nothing: without a connection
  exactly the connect panel is shown, and with one it is hidden.
\<close>

lemma panels_follow_connection:
  assumes "ui_step\<^sup>*\<^sup>* (ui_init st) u"
  shows "(connect_shown u \<longleftrightarrow> \<not> connected u)
    \<and> (if connected u then True else \<not> password_shown u \<and> \<not> status_shown u \<and> \<not> canvas_shown u)"
  using assms
proof (induction rule: rtranclp_induct)
  case base
  then show ?case by (simp add: ui_init_def)
next
  case (step u v)
  from step.hyps(2) step.IH show ?case
    by (cases rule: ui_step.cases) (auto simp: ui_connect_def ui_msgbox_def ui_cancel_def ui_confirm_def Let_def)
qed

end
