(* ===== verification/WebLinks.thy ===== *)
theory WebLinks
  imports AppStore
begin

text \<open>
  The links to the browser client and the lookup of a device's salt (\<open>utils/webclient.js\<close>).
\<close>

subsection \<open>Links to the web client\<close>

definition toWebClientLink :: "string \<Rightarrow> obj \<Rightarrow> string" where
  "toWebClientLink origin row = origin @ ''/webclient/#/'' @ toStr (get row ''id'')"

definition getV2ShareUrl :: "string \<Rightarrow> string \<Rightarrow> string" where
  "getV2ShareUrl origin token = origin @ ''/webclient/#/?share_token='' @ token"

subsection \<open>The salt of a device\<close>

text \<open>
  \<open>getPeerSlat\<close> talks to the rendezvous server and to the relay. The web socket and the messages are
  TypeScript: what is sent is recorded, what is received is an argument. \<open>AlertBox\<close> names the text.
\<close>

datatype salt_event =
    OpenSocket string
  | SendPunch jsval jsval
  | CloseSocket
  | AlertBox string
  | SendRelay jsval jsval
  | SendPublicKey

datatype salt_result = SaltUndefined | SaltFalse | SaltRaises | SaltHash jsval

text \<open>The failures of a punch hole response.\<close>

datatype punch_failure = ID_NOT_EXIST | OFFLINE | LICENSE_MISMATCH | LICENSE_OVERUSE | UNRECOGNIZED

datatype rendezvous_msg =
    PunchHoleResponse jsval punch_failure  \<comment> \<open>\<open>other_failure\<close> and \<open>failure\<close>\<close>
  | RelayResponse jsval
  | OtherMessage

definition punch_alert :: "punch_failure \<Rightarrow> salt_event list" where
  "punch_alert f =
     (case f of
        ID_NOT_EXIST \<Rightarrow> [AlertBox ''IDNotExist'']
      | OFFLINE \<Rightarrow> [AlertBox ''RemoteDesktopOffline'']
      | LICENSE_MISMATCH \<Rightarrow> [AlertBox ''KeyMismatch'']
      | LICENSE_OVERUSE \<Rightarrow> [AlertBox ''KeyOveruse'']
      | UNRECOGNIZED \<Rightarrow> [])"

text \<open>\<open>v || undefined\<close>\<close>

definition or_undefined :: "jsval \<Rightarrow> jsval" where
  "or_undefined v = js_or v JUndef"

text \<open>
  \<open>hash\<close> is the hash of the first relayed message that has one; without such a message the loop goes
  on for ever, which is not a case here. The address is the part of \<open>id_server\<close> before the first
  colon. \<open>rustdeskConfig.value\<close> is read without a check, and \<open>this\<close> is undefined in a module function.
\<close>

definition getPeerSlat :: "bool \<Rightarrow> obj \<Rightarrow> jsval \<Rightarrow> rendezvous_msg \<Rightarrow> jsval \<Rightarrow> salt_result \<times> salt_event list" where
  "getPeerSlat https cfg i msg hash =
     (case get cfg ''id_server'' of
        JStr s \<Rightarrow>
          (let addr = hd (split_on (CHR '':'') s);
               scheme = (if https then ''wss'' else ''ws'');
               opened = OpenSocket (scheme @ ''://'' @ addr @ '':21118'')
           in if addr = [] then (SaltUndefined, [])
              else if nullish (get cfg ''value'') then (SaltRaises, [opened])
              else
                (let sent = [opened, SendPunch i (or_undefined (opt_prop (get cfg ''value'') ''key'')), CloseSocket]
                 in case msg of
                      PunchHoleResponse other f \<Rightarrow>
                        if truthy other then (SaltRaises, sent) else (SaltFalse, sent @ punch_alert f)
                    | RelayResponse uuid \<Rightarrow>
                        (SaltHash hash,
                         sent @ [OpenSocket (scheme @ ''://'' @ addr @ '':21119''),
                           SendRelay (or_undefined (get cfg ''key'')) uuid, SendPublicKey, CloseSocket])
                    | OtherMessage \<Rightarrow> (SaltUndefined, sent)))
      | _ \<Rightarrow> (SaltRaises, []))"

subsection \<open>Lemmas\<close>

text \<open>
  With the configuration the server sends, which has no \<open>value\<close>, the salt lookup raises after it
  opened a socket, and never closes it.
\<close>

lemma salt_lookup_raises:
  assumes "get cfg ''id_server'' = JStr s" "hd (split_on (CHR '':'') s) \<noteq> []" "get cfg ''value'' = JUndef"
  shows "fst (getPeerSlat https cfg i msg hash) = SaltRaises \<and> CloseSocket \<notin> set (snd (getPeerSlat https cfg i msg hash))"
  using assms by (simp add: getPeerSlat_def Let_def)

end
