(* ===== verification/Common.thy ===== *)
theory Common
  imports JsString "HOL-Library.Word"
begin

text \<open>
  What the connection of the browser client draws on (\<open>api/resources/web/js/src\<close>): the control keys of
  the protocol (\<open>message.ts\<close>), the table of key names and the test for retries (\<open>gen_js_from_hbb.ts\<close>)
  and the helpers of \<open>common.ts\<close>. The enumeration \<open>ControlKey\<close> is a table of names and numbers. The
  catalogues \<open>LANGS\<close> and the decoder of the package \<open>zstddec\<close> are parameters.
\<close>

type_synonym bytes = "8 word list"

subsection \<open>Control keys\<close>

definition control_keys :: "(string \<times> int) list" where
  "control_keys = [
    (''Unknown'', 0), (''Alt'', 1), (''Backspace'', 2), (''CapsLock'', 3), (''Control'', 4), (''Delete'', 5),
    (''DownArrow'', 6), (''End'', 7), (''Escape'', 8), (''F1'', 9), (''F10'', 10), (''F11'', 11),
    (''F12'', 12), (''F2'', 13), (''F3'', 14), (''F4'', 15), (''F5'', 16), (''F6'', 17),
    (''F7'', 18), (''F8'', 19), (''F9'', 20), (''Home'', 21), (''LeftArrow'', 22), (''Meta'', 23),
    (''Option'', 24), (''PageDown'', 25), (''PageUp'', 26), (''Return'', 27), (''RightArrow'', 28), (''Shift'', 29),
    (''Space'', 30), (''Tab'', 31), (''UpArrow'', 32), (''Numpad0'', 33), (''Numpad1'', 34), (''Numpad2'', 35),
    (''Numpad3'', 36), (''Numpad4'', 37), (''Numpad5'', 38), (''Numpad6'', 39), (''Numpad7'', 40), (''Numpad8'', 41),
    (''Numpad9'', 42), (''Cancel'', 43), (''Clear'', 44), (''Menu'', 45), (''Pause'', 46), (''Kana'', 47),
    (''Hangul'', 48), (''Junja'', 49), (''Final'', 50), (''Hanja'', 51), (''Kanji'', 52), (''Convert'', 53),
    (''Select'', 54), (''Print'', 55), (''Execute'', 56), (''Snapshot'', 57), (''Insert'', 58), (''Help'', 59),
    (''Sleep'', 60), (''Separator'', 61), (''Scroll'', 62), (''NumLock'', 63), (''RWin'', 64), (''Apps'', 65),
    (''Multiply'', 66), (''Add'', 67), (''Subtract'', 68), (''Decimal'', 69), (''Divide'', 70), (''Equals'', 71),
    (''NumpadEnter'', 72), (''RShift'', 73), (''RControl'', 74), (''RAlt'', 75), (''CtrlAltDel'', 100), (''LockScreen'', 101)]"

definition UNRECOGNIZED :: int where "UNRECOGNIZED = -1"

fun controlKeyFromJSON :: "jsval \<Rightarrow> int" where
  "controlKeyFromJSON (JStr s) = (case map_of control_keys s of None \<Rightarrow> UNRECOGNIZED | Some n \<Rightarrow> n)"
| "controlKeyFromJSON (JNum n) = (if n \<in> snd ` set control_keys then n else UNRECOGNIZED)"
| "controlKeyFromJSON _ = UNRECOGNIZED"

definition controlKeyToJSON :: "int \<Rightarrow> string" where
  "controlKeyToJSON k = (case find (\<lambda>p. snd p = k) control_keys of None \<Rightarrow> ''UNRECOGNIZED'' | Some p \<Rightarrow> fst p)"

subsection \<open>Key names\<close>

definition KEY_MAP :: "(string \<times> string) list" where
  "KEY_MAP = [
    (''VK_A'', ''a''), (''VK_B'', ''b''), (''VK_C'', ''c''), (''VK_D'', ''d''),
    (''VK_E'', ''e''), (''VK_F'', ''f''), (''VK_G'', ''g''), (''VK_H'', ''h''),
    (''VK_I'', ''i''), (''VK_J'', ''j''), (''VK_K'', ''k''), (''VK_L'', ''l''),
    (''VK_M'', ''m''), (''VK_N'', ''n''), (''VK_O'', ''o''), (''VK_P'', ''p''),
    (''VK_Q'', ''q''), (''VK_R'', ''r''), (''VK_S'', ''s''), (''VK_T'', ''t''),
    (''VK_U'', ''u''), (''VK_V'', ''v''), (''VK_W'', ''w''), (''VK_X'', ''x''),
    (''VK_Y'', ''y''), (''VK_Z'', ''z''), (''VK_0'', ''0''), (''VK_1'', ''1''),
    (''VK_2'', ''2''), (''VK_3'', ''3''), (''VK_4'', ''4''), (''VK_5'', ''5''),
    (''VK_6'', ''6''), (''VK_7'', ''7''), (''VK_8'', ''8''), (''VK_9'', ''9''),
    (''VK_COMMA'', '',''), (''VK_SLASH'', ''/''), (''VK_SEMICOLON'', '';''), (''VK_QUOTE'', [CHR 0x27]),
    (''VK_LBRACKET'', ''[''), (''VK_RBRACKET'', '']''), (''VK_BACKSLASH'', [CHR 0x5C]), (''VK_MINUS'', ''-''),
    (''VK_PLUS'', ''=''), (''VK_DIVIDE'', ''Divide''), (''VK_MULTIPLY'', ''Multiply''), (''VK_SUBTRACT'', ''Subtract''),
    (''VK_ADD'', ''Add''), (''VK_DECIMAL'', ''Decimal''), (''VK_F1'', ''F1''), (''VK_F2'', ''F2''),
    (''VK_F3'', ''F3''), (''VK_F4'', ''F4''), (''VK_F5'', ''F5''), (''VK_F6'', ''F6''),
    (''VK_F7'', ''F7''), (''VK_F8'', ''F8''), (''VK_F9'', ''F9''), (''VK_F10'', ''F10''),
    (''VK_F11'', ''F11''), (''VK_F12'', ''F12''), (''VK_ENTER'', ''Return''), (''VK_CANCEL'', ''Cancel''),
    (''VK_BACK'', ''Backspace''), (''VK_TAB'', ''Tab''), (''VK_CLEAR'', ''Clear''), (''VK_RETURN'', ''Return''),
    (''VK_SHIFT'', ''Shift''), (''VK_CONTROL'', ''Control''), (''VK_MENU'', ''Alt''), (''VK_PAUSE'', ''Pause''),
    (''VK_CAPITAL'', ''CapsLock''), (''VK_KANA'', ''Kana''), (''VK_HANGUL'', ''Hangul''), (''VK_JUNJA'', ''Junja''),
    (''VK_FINAL'', ''Final''), (''VK_HANJA'', ''Hanja''), (''VK_KANJI'', ''Kanji''), (''VK_ESCAPE'', ''Escape''),
    (''VK_CONVERT'', ''Convert''), (''VK_SPACE'', ''Space''), (''VK_PRIOR'', ''PageUp''), (''VK_NEXT'', ''PageDown''),
    (''VK_END'', ''End''), (''VK_HOME'', ''Home''), (''VK_LEFT'', ''LeftArrow''), (''VK_UP'', ''UpArrow''),
    (''VK_RIGHT'', ''RightArrow''), (''VK_DOWN'', ''DownArrow''), (''VK_SELECT'', ''Select''), (''VK_PRINT'', ''Print''),
    (''VK_EXECUTE'', ''Execute''), (''VK_SNAPSHOT'', ''Snapshot''), (''VK_INSERT'', ''Insert''), (''VK_DELETE'', ''Delete''),
    (''VK_HELP'', ''Help''), (''VK_SLEEP'', ''Sleep''), (''VK_SEPARATOR'', ''Separator''), (''VK_NUMPAD0'', ''Numpad0''),
    (''VK_NUMPAD1'', ''Numpad1''), (''VK_NUMPAD2'', ''Numpad2''), (''VK_NUMPAD3'', ''Numpad3''), (''VK_NUMPAD4'', ''Numpad4''),
    (''VK_NUMPAD5'', ''Numpad5''), (''VK_NUMPAD6'', ''Numpad6''), (''VK_NUMPAD7'', ''Numpad7''), (''VK_NUMPAD8'', ''Numpad8''),
    (''VK_NUMPAD9'', ''Numpad9''), (''Apps'', ''Apps''), (''Meta'', ''Meta''), (''RAlt'', ''RAlt''),
    (''RWin'', ''RWin''), (''RControl'', ''RControl''), (''RShift'', ''RShift''), (''CTRL_ALT_DEL'', ''CtrlAltDel''),
    (''LOCK_SCREEN'', ''LockScreen'')]"

text \<open>\<open>KeyEvent\<close>: exactly one of the members of the union is set, or none.\<close>

datatype key_union = NoKey | ControlKey int | Chr nat | Unicode nat | Seq string

record key_event =
  down :: bool
  press :: bool
  key_is :: key_union
  modifier_keys :: "int list"

definition key_event_of :: "key_union \<Rightarrow> key_event" where
  "key_event_of k = \<lparr>down = False, press = False, key_is = k, modifier_keys = []\<rparr>"

text \<open>\<open>zCode\<close> and \<open>aCode\<close> are 122 and 97.\<close>

definition mapKey :: "string \<Rightarrow> bool \<Rightarrow> key_event" where
  "mapKey name isDesktop =
     (let tmp = (case map_of KEY_MAP name of None \<Rightarrow> name | Some t \<Rightarrow> t)
      in if length tmp = 1 then
           (let chr = char_code (hd tmp)
            in if \<not> isDesktop \<and> (122 < chr \<or> chr < 97) then key_event_of (Unicode chr) else key_event_of (Chr chr))
         else key_event_of (ControlKey (controlKeyFromJSON (JStr tmp))))"

subsection \<open>Retries, decompression, translation\<close>

definition checkIfRetry :: "string \<Rightarrow> string \<Rightarrow> string \<Rightarrow> bool" where
  "checkIfRetry msgtype title text =
     (msgtype = ''error'' \<and> title = ''Connection Error''
      \<and> \<not> str_includes (toLowerCase text) ''offline'' \<and> \<not> str_includes (toLowerCase text) ''exist''
      \<and> \<not> str_includes (toLowerCase text) ''handshake'' \<and> \<not> str_includes (toLowerCase text) ''failed''
      \<and> \<not> str_includes (toLowerCase text) ''resolve'' \<and> \<not> str_includes (toLowerCase text) ''mismatch''
      \<and> \<not> str_includes (toLowerCase text) ''manually'' \<and> \<not> str_includes (toLowerCase text) ''not allowed'')"

text \<open>The size of the buffer \<open>decompress\<close> gives to the decoder; \<open>None\<close> is a decoder that raises.\<close>

definition decompress_size :: "nat \<Rightarrow> nat" where
  "decompress_size len =
     (let most = 1024 * 1024 * 64; least = 1024 * 1024;
          n = 30 * len;
          n = (if n > most then most else n)
      in if n < least then least else n)"

definition decompress :: "(bytes \<Rightarrow> nat \<Rightarrow> bytes option) \<Rightarrow> bytes \<Rightarrow> bytes option" where
  "decompress decode compressed = decode compressed (decompress_size (length compressed))"

text \<open>
  \<open>translate\<close>: \<open>LANG\<close> is the parameter \<open>lang\<close> of the page's address; \<open>langs\<close> has the catalogues, the
  English one, \<open>en\<close>, apart.
\<close>

definition substring_from_end :: "nat \<Rightarrow> string \<Rightarrow> string" where
  "substring_from_end n s = drop (length s - n) s"

definition translate :: "(string \<rightharpoonup> (string \<rightharpoonup> string)) \<Rightarrow> (string \<rightharpoonup> string) \<Rightarrow> string \<Rightarrow> string \<Rightarrow> string \<Rightarrow> string" where
  "translate langs en LANG locale_name text =
     (let lang = (if LANG \<noteq> [] then LANG else toLowerCase (substring_from_end 2 locale_name));
          dict = (if lang = ''en'' then en else case langs lang of None \<Rightarrow> en | Some d \<Rightarrow> d);
          falsy = (\<lambda>r. r = None \<or> r = Some []);
          res = dict text;
          res = (if falsy res \<and> lang \<noteq> ''en'' then en text else res)
      in if falsy res then text else the res)"

subsection \<open>Facts\<close>

lemma control_keys_distinct: "distinct (map fst control_keys)" "distinct (map snd control_keys)"
  by (simp_all add: control_keys_def)

lemma control_keys_range: "(s, n) \<in> set control_keys \<Longrightarrow> n \<noteq> UNRECOGNIZED"
  by (auto simp: control_keys_def UNRECOGNIZED_def)

text \<open>A number of the enumeration and its name determine each other.\<close>

lemma find_by_number: "distinct (map snd xs) \<Longrightarrow> (s, n) \<in> set xs \<Longrightarrow> find (\<lambda>p. snd p = n) xs = Some (s, n)"
  by (induction xs) force+

lemma controlKey_round_trip:
  "(s, n) \<in> set control_keys \<Longrightarrow> controlKeyToJSON n = s \<and> controlKeyFromJSON (JStr s) = n"
  using find_by_number [OF control_keys_distinct(2)] map_of_is_SomeI [OF control_keys_distinct(1)]
  by (simp add: controlKeyToJSON_def)

text \<open>Every entry of the key map is one character or the name of a control key.\<close>

lemma KEY_MAP_known:
  "list_all (\<lambda>p. length (snd p) = 1 \<or> map_of control_keys (snd p) \<noteq> None) KEY_MAP"
  by code_simp

lemma mapKey_known:
  assumes "(name, t) \<in> set KEY_MAP"
  shows "key_is (mapKey name d) \<noteq> ControlKey UNRECOGNIZED"
proof -
  obtain u where u: "map_of KEY_MAP name = Some u"
    using assms by (meson weak_map_of_SomeI)
  then have "length u = 1 \<or> map_of control_keys u \<noteq> None"
    using KEY_MAP_known map_of_SomeD by (fastforce simp: list_all_iff)
  then show ?thesis
    using u control_keys_range map_of_SomeD [of control_keys u]
    by (auto simp: mapKey_def key_event_of_def Let_def)
qed

lemma mapKey_one_key: "key_is (mapKey name d) \<noteq> NoKey"
  by (simp add: mapKey_def key_event_of_def Let_def)

lemma decompress_size_bounds: "1048576 \<le> decompress_size n" "decompress_size n \<le> 67108864"
  by (simp_all add: decompress_size_def Let_def)

lemma translate_falls_back:
  assumes "en text = None" and l: "\<And>l d. langs l = Some d \<Longrightarrow> d text = None"
  shows "translate langs en LANG loc text = text"
  using assms(1) by (auto simp: translate_def Let_def split: option.splits dest!: l)

end
