(* ===== verification/Websock.thy ===== *)
theory Websock
  imports WebClient Common "HOL-Library.Sublist"
begin

text \<open>
  The socket of the browser client (\<open>api/resources/web/js/src/websock.ts\<close>) and its copy in the console
  (\<open>admin-ui/src/utils/webclient/websock.ts\<close>), which does not encrypt. A socket is a record of what the
  class keeps and of the browser's \<open>WebSocket\<close> below it; the callbacks of the latter are events.

  The messages are those the client sends and reads. Their encodings are generated by \<open>ts-proto\<close> on
  top of the package \<open>protobufjs\<close>, and libsodium is a package: they are the fields of \<open>env\<close>, the
  argument of every definition that uses them. A decoder that raises gives \<open>None\<close>.
\<close>

subsection \<open>Messages\<close>

datatype bool_option = NotSet | No | Yes

datatype image_quality = QualityNotSet | Low | Balanced | Best

record option_message =
  om_image_quality :: image_quality
  om_lock_after_session_end :: bool_option
  om_show_remote_cursor :: bool_option
  om_privacy_mode :: bool_option
  om_block_input :: bool_option
  om_disable_audio :: bool_option
  om_disable_clipboard :: bool_option

datatype outmsg =
    PublicKey bytes bytes
  | TestDelayOut int bool
  | LoginRequest string string string bytes "option_message option" bool
  | RefreshVideo
  | VideoReceived
  | OptionOut option_message
  | SwitchDisplayOut jsval
  | KeyOut key_event
  | MouseOut nat "int option" "int option" "int list"

datatype misc_in =
    AudioFormat int int
  | ChatMessage string
  | PermissionInfo int bool
  | SwitchDisplayIn obj
  | CloseReason string
  | OtherMisc

record cursor =
  cd_id :: int
  cd_hotx :: int
  cd_hoty :: int
  cd_width :: int
  cd_height :: int
  cd_colors :: bytes

datatype inmsg =
    SignedId bytes
  | HashIn string string
  | TestDelayIn int bool
  | LoginResponse "string option" "obj option"
  | VideoFrame "bytes list option"
  | ClipboardIn bool bytes
  | CursorData cursor
  | CursorId int
  | CursorPosition obj
  | MiscIn misc_in
  | AudioFrame bytes
  | OtherMsg

record relay_response =
  rr_pk :: "bytes option"
  rr_server :: string
  rr_uuid :: string
  rr_version :: string

datatype rdv_out = PunchHoleRequest string string int int string | RequestRelay string string

datatype rdv_in = PunchHoleResponse string int | RelayResponse relay_response | OtherRendezvous

datatype inbound = Rdv rdv_in | Msg inmsg

subsection \<open>The environment\<close>

datatype js_error = TypeError | SyntaxError | InvalidStateError | DecodeError | SodiumError

record env =
  msg_encode :: "outmsg \<Rightarrow> bytes"
  msg_decode :: "bytes \<Rightarrow> inmsg option"
  rdv_encode :: "rdv_out \<Rightarrow> bytes"
  rdv_decode :: "bytes \<Rightarrow> rdv_in option"
  idpk_decode :: "bytes \<Rightarrow> (string \<times> bytes) option"
  secretbox_easy :: "bytes \<Rightarrow> bytes \<Rightarrow> bytes \<Rightarrow> bytes"
  secretbox_open_easy :: "bytes \<Rightarrow> bytes \<Rightarrow> bytes \<Rightarrow> bytes option"
  crypto_box_easy :: "bytes \<Rightarrow> bytes \<Rightarrow> bytes \<Rightarrow> bytes \<Rightarrow> bytes option"
  crypto_sign_open :: "bytes \<Rightarrow> bytes \<Rightarrow> bytes option"
  from_base64 :: "string \<Rightarrow> bytes option"
  sha256 :: "bytes \<Rightarrow> bytes"
  zstd_decode :: "bytes \<Rightarrow> nat \<Rightarrow> bytes option"
  text_decode :: "bytes \<Rightarrow> string"
  error_text :: "js_error \<Rightarrow> string"

subsection \<open>State of a socket\<close>

datatype ws_event = CloseEvent | ErrorEvent

text \<open>\<open>_status\<close> is the empty string, \<open>'open'\<close> or an event.\<close>

datatype ws_status = Unset | Opened | Event ws_event

datatype ready_state = CONNECTING | OPEN | CLOSING | CLOSED

text \<open>What a promise is rejected with, and what an exception carries.\<close>

datatype reason = Text string | Ev ws_event | Thrown js_error

datatype promise = Pending | Resolved | Rejected reason

record sock =
  s_uri :: string
  isRendezvous :: bool
  status :: ws_status
  buf :: "inbound list"
  secretKey :: "(bytes \<times> nat \<times> nat) option"
  readyState :: ready_state
  listening :: bool
  open_promise :: promise
  sent :: "bytes list"

text \<open>The constructor, followed by \<open>open()\<close>, which installs the callbacks, as every user does.\<close>

definition ws_new :: "string \<Rightarrow> bool \<Rightarrow> sock" where
  "ws_new uri rendezvous =
     \<lparr>s_uri = uri, isRendezvous = rendezvous, status = Unset, buf = [], secretKey = None,
      readyState = CONNECTING, listening = True, open_promise = Pending, sent = []\<rparr>"

subsection \<open>Sending\<close>

text \<open>
  \<open>WebSocket.send\<close> of the browser: it raises before the connection is open (\<open>None\<close>) and discards the
  data when the socket is closing or closed.
\<close>

definition ws_send :: "bytes \<Rightarrow> sock \<Rightarrow> sock option" where
  "ws_send data s =
     (case readyState s of
        CONNECTING \<Rightarrow> None
      | OPEN \<Rightarrow> Some (s\<lparr>sent := sent s @ [data]\<rparr>)
      | _ \<Rightarrow> Some s)"

definition setSecretKey :: "bytes \<Rightarrow> sock \<Rightarrow> sock" where
  "setSecretKey k s = s\<lparr>secretKey := Some (k, 0, 0)\<rparr>"

text \<open>The counter is raised before \<open>send\<close> can raise.\<close>

definition sendMessage :: "env \<Rightarrow> outmsg \<Rightarrow> sock \<Rightarrow> sock \<times> reason option" where
  "sendMessage e m s =
     (let data = msg_encode e m;
          (data, s) =
            (case secretKey s of
               None \<Rightarrow> (data, s)
             | Some (k, n1, n2) \<Rightarrow>
                 (encrypt (secretbox_easy e) data (n1 + 1) k, s\<lparr>secretKey := Some (k, n1 + 1, n2)\<rparr>))
      in case ws_send data s of None \<Rightarrow> (s, Some (Thrown InvalidStateError)) | Some s \<Rightarrow> (s, None))"

definition sendRendezvous :: "env \<Rightarrow> rdv_out \<Rightarrow> sock \<Rightarrow> sock \<times> reason option" where
  "sendRendezvous e m s =
     (case ws_send (rdv_encode e m) s of None \<Rightarrow> (s, Some (Thrown InvalidStateError)) | Some s \<Rightarrow> (s, None))"

subsection \<open>Receiving\<close>

definition parse :: "env \<Rightarrow> bool \<Rightarrow> bytes \<Rightarrow> inbound option" where
  "parse e rendezvous data =
     (if rendezvous then map_option Rdv (rdv_decode e data) else map_option Msg (msg_decode e data))"

text \<open>
  \<open>_recv_message\<close> for binary data: the counter is raised first; when decryption or decoding raises,
  the exception ends the callback and nothing is stored.
\<close>

definition recv_message :: "env \<Rightarrow> bytes \<Rightarrow> sock \<Rightarrow> sock" where
  "recv_message e data s =
     (let (plain, s) =
            (case secretKey s of
               None \<Rightarrow> (Some data, s)
             | Some (k, n1, n2) \<Rightarrow>
                 (decrypt (secretbox_open_easy e) data (n2 + 1) k, s\<lparr>secretKey := Some (k, n1, n2 + 1)\<rparr>))
      in case Option.bind plain (parse e (isRendezvous s)) of
           None \<Rightarrow> s
         | Some m \<Rightarrow> s\<lparr>buf := buf s @ [m]\<rparr>)"

subsection \<open>Opening and closing\<close>

text \<open>A promise is settled once.\<close>

definition settle :: "promise \<Rightarrow> sock \<Rightarrow> sock" where
  "settle p s = (if open_promise s = Pending then s\<lparr>open_promise := p\<rparr> else s)"

fun status_reason :: "ws_status \<Rightarrow> reason" where
  "status_reason Unset = Text []"
| "status_reason Opened = Text ''open''"
| "status_reason (Event v) = Ev v"

datatype ws_input = WsOpen | WsClose | WsError | OpenTimeout | WsMessage bytes

definition server_kind :: "sock \<Rightarrow> string" where
  "server_kind s = (if isRendezvous s then ''rendezvous'' else ''relay'')"

definition on_open :: "sock \<Rightarrow> sock" where
  "on_open s = settle Resolved (s\<lparr>status := Opened, readyState := OPEN\<rparr>)"

definition on_close :: "sock \<Rightarrow> sock" where
  "on_close s = settle (Rejected (Text ''Reset by the peer'')) (s\<lparr>status := Event CloseEvent, readyState := CLOSED\<rparr>)"

definition on_error :: "sock \<Rightarrow> sock" where
  "on_error s =
     (if status s = Unset
      then settle (Rejected (Text (''Failed to connect to '' @ server_kind s @ '' server''))) s
      else s\<lparr>status := Event ErrorEvent\<rparr>)"

definition on_timeout :: "sock \<Rightarrow> sock" where
  "on_timeout s =
     (if status s = Opened then s
      else settle (Rejected (if status s = Unset then Text ''Timeout'' else status_reason (status s))) s)"

text \<open>
  The callbacks. The browser opens a socket only while it is connecting, closes it once, and delivers
  data only to an open one; \<open>close\<close> takes the callback for messages away.
\<close>

definition ws_input :: "env \<Rightarrow> ws_input \<Rightarrow> sock \<Rightarrow> sock" where
  "ws_input e i s =
     (case i of
        WsOpen \<Rightarrow> if readyState s = CONNECTING then on_open s else s
      | WsClose \<Rightarrow> if readyState s = CLOSED then s else on_close s
      | WsError \<Rightarrow> if readyState s = CLOSED then s else on_error s
      | OpenTimeout \<Rightarrow> on_timeout s
      | WsMessage data \<Rightarrow> if readyState s = OPEN \<and> listening s then recv_message e data s else s)"

definition ws_close :: "sock \<Rightarrow> sock" where
  "ws_close s =
     s\<lparr>status := Unset, readyState := (if readyState s \<in> {OPEN, CONNECTING} then CLOSING else readyState s),
       listening := False\<rparr>"

subsection \<open>Reading\<close>

text \<open>One round of \<open>next\<close>, begun at \<open>tm0\<close>; times are in milliseconds.\<close>

datatype poll = Got inbound | Fail reason | Again

definition next_poll :: "nat \<Rightarrow> nat \<Rightarrow> sock \<Rightarrow> poll \<times> sock" where
  "next_poll tm0 now s =
     (case buf s of
        m # ms \<Rightarrow> (Got m, s\<lparr>buf := ms\<rparr>)
      | [] \<Rightarrow>
          if status s \<noteq> Opened then (Fail (status_reason (status s)), s)
          else if now > tm0 + 12000 then (Fail (Text ''Timeout''), s)
          else (Again, s))"

subsection \<open>The copy of the console\<close>

definition plain_sendMessage :: "env \<Rightarrow> outmsg \<Rightarrow> sock \<Rightarrow> sock \<times> reason option" where
  "plain_sendMessage e m s =
     (case ws_send (msg_encode e m) s of None \<Rightarrow> (s, Some (Thrown InvalidStateError)) | Some s \<Rightarrow> (s, None))"

definition plain_recv_message :: "env \<Rightarrow> bytes \<Rightarrow> sock \<Rightarrow> sock" where
  "plain_recv_message e data s =
     (case parse e (isRendezvous s) data of None \<Rightarrow> s | Some m \<Rightarrow> s\<lparr>buf := buf s @ [m]\<rparr>)"

subsection \<open>Sealed frames\<close>

text \<open>The frames a socket with a key puts on the wire for a list of messages.\<close>

definition seal_frame :: "env \<Rightarrow> bytes \<Rightarrow> nat \<Rightarrow> bytes \<Rightarrow> bytes" where
  "seal_frame e k n plain = encrypt (secretbox_easy e) plain n k"

definition sealed_frames :: "env \<Rightarrow> bytes \<Rightarrow> nat \<Rightarrow> bytes list \<Rightarrow> bytes list" where
  "sealed_frames e k n ps = map (\<lambda>i. seal_frame e k (n + i + 1) (ps ! i)) [0..<length ps]"

lemma sealed_frames_Cons:
  "sealed_frames e k n (p # ps) = seal_frame e k (n + 1) p # sealed_frames e k (n + 1) ps"
  by (rule nth_equalityI) (auto simp: sealed_frames_def nth_Cons' simp del: upt_Suc)

lemma sendMessage_sealed:
  assumes "secretKey s = Some (k, n1, n2)" "readyState s = OPEN"
  shows "sendMessage e m s =
     (s\<lparr>secretKey := Some (k, n1 + 1, n2), sent := sent s @ [seal_frame e k (n1 + 1) (msg_encode e m)]\<rparr>, None)"
  using assms by (simp add: sendMessage_def ws_send_def seal_frame_def)

definition send_all :: "env \<Rightarrow> outmsg list \<Rightarrow> sock \<Rightarrow> sock" where
  "send_all e ms s = fold (\<lambda>m s. fst (sendMessage e m s)) ms s"

lemma send_all_sealed:
  assumes "secretKey s = Some (k, n1, n2)" "readyState s = OPEN"
  shows "sent (send_all e ms s) = sent s @ sealed_frames e k n1 (map (msg_encode e) ms)
    \<and> secretKey (send_all e ms s) = Some (k, n1 + length ms, n2)"
  using assms
proof (induction ms arbitrary: s n1)
  case (Cons m ms)
  let ?s = "fst (sendMessage e m s)"
  have "secretKey ?s = Some (k, n1 + 1, n2)" "readyState ?s = OPEN"
    using Cons.prems by (simp_all add: sendMessage_sealed)
  from Cons.IH [OF this] Cons.prems show ?case
    by (simp add: send_all_def sealed_frames_Cons sendMessage_sealed)
qed (simp add: send_all_def sealed_frames_def)

subsection \<open>Receiving from an adversary\<close>

definition recv_all :: "env \<Rightarrow> bytes list \<Rightarrow> sock \<Rightarrow> sock" where
  "recv_all e fs s = fold (recv_message e) fs s"

text \<open>
  What an adversary can do against the sealing of \<open>ps\<close> under the key: only what was sealed opens, and
  only under the nonce it was sealed with.
\<close>

definition unforgeable :: "env \<Rightarrow> bytes \<Rightarrow> bytes list \<Rightarrow> bool" where
  "unforgeable e k ps =
     (\<forall>c n p. secretbox_open_easy e c n k = Some p \<longrightarrow> (\<exists>i < length ps. n = makeOnce (i + 1) \<and> p = ps ! i))"

lemma makeOnce_inj: "m < 256 ^ 24 \<Longrightarrow> n < 256 ^ 24 \<Longrightarrow> makeOnce m = makeOnce n \<longleftrightarrow> m = n"
  using nonce_value_bytes [of m 24] nonce_value_bytes [of n 24] by (metis makeOnce_def)

lemma unforgeableD:
  assumes "unforgeable e k ps" "length ps < 256 ^ 24" "n < 256 ^ 24"
    and "decrypt (secretbox_open_easy e) c n k = Some p"
  shows "0 < n \<and> n \<le> length ps \<and> p = ps ! (n - 1)"
proof -
  obtain i where i: "i < length ps" "makeOnce n = makeOnce (i + 1)" "p = ps ! i"
    using assms(1,4) unfolding unforgeable_def decrypt_def by blast
  have "i + 1 < 256 ^ 24" using i(1) assms(2) by linarith
  then have "n = i + 1" using makeOnce_inj [OF assms(3)] i(2) by blast
  then show ?thesis using i by simp
qed

text \<open>
  Whatever is delivered, what a keyed socket stores is read off the sealed plaintexts from left to
  right: nothing twice, nothing in another order, nothing that was not sealed.
\<close>

lemma recv_message_keyed:
  assumes "secretKey s = Some (k, n1, n2)"
  shows "secretKey (recv_message e f s) = Some (k, n1, n2 + 1)"
    and "isRendezvous (recv_message e f s) = isRendezvous s"
    and "buf (recv_message e f s) = buf s @
      (case Option.bind (decrypt (secretbox_open_easy e) f (n2 + 1) k) (parse e (isRendezvous s)) of
         None \<Rightarrow> [] | Some m \<Rightarrow> [m])"
  using assms by (auto simp: recv_message_def split: option.splits)

lemma recv_all_subseq:
  assumes "unforgeable e k ps" "length ps < 256 ^ 24"
  shows "secretKey s = Some (k, n1, n2) \<Longrightarrow> n2 + length fs < 256 ^ 24 \<Longrightarrow>
    \<exists>got. buf (recv_all e fs s) = buf s @ got \<and> subseq got (List.map_filter (parse e (isRendezvous s)) (drop n2 ps))"
proof (induction fs arbitrary: s n2)
  case (Cons f fs)
  let ?s = "recv_message e f s"
  let ?P = "parse e (isRendezvous s)"
  note s = recv_message_keyed [OF Cons.prems(1), of e f]
  obtain got where got: "buf (recv_all e (f # fs) s) = buf ?s @ got"
      "subseq got (List.map_filter ?P (drop (n2 + 1) ps))"
    using Cons.IH [OF s(1)] Cons.prems(2) s(2) by (auto simp: recv_all_def)
  show ?case
  proof (cases "decrypt (secretbox_open_easy e) f (n2 + 1) k")
    case None
    have "subseq (List.map_filter ?P (drop (n2 + 1) ps)) (List.map_filter ?P (drop n2 ps))"
      by (cases "n2 < length ps") (auto simp: Cons_nth_drop_Suc [symmetric] map_filter_simps split: option.splits)
    then show ?thesis using got s(3) None subseq_order.trans by fastforce
  next
    case (Some p)
    have p: "n2 < length ps" "p = ps ! n2"
      using unforgeableD [OF assms _ Some] Cons.prems(2) by auto
    then have "List.map_filter ?P (drop n2 ps) =
        (case ?P p of None \<Rightarrow> [] | Some m \<Rightarrow> [m]) @ List.map_filter ?P (drop (n2 + 1) ps)"
      by (simp add: Cons_nth_drop_Suc [symmetric] map_filter_simps split: option.splits)
    then show ?thesis using got s(3) Some
      by (auto intro!: exI [of _ "(case ?P p of None \<Rightarrow> [] | Some m \<Rightarrow> [m]) @ got"] simp: list_emb_append_mono split: option.splits)
  qed
qed (simp add: recv_all_def)

text \<open>Honest delivery: the sealed frames in order are all stored.\<close>

definition opens :: "env \<Rightarrow> bytes \<Rightarrow> nat \<Rightarrow> bytes list \<Rightarrow> bool" where
  "opens e k n ps =
     (\<forall>i < length ps. secretbox_open_easy e (seal_frame e k (n + i + 1) (ps ! i)) (makeOnce (n + i + 1)) k = Some (ps ! i))"

lemma opens_Cons:
  "opens e k n (p # ps) \<longleftrightarrow> decrypt (secretbox_open_easy e) (seal_frame e k (n + 1) p) (n + 1) k = Some p \<and> opens e k (n + 1) ps"
  by (auto simp: opens_def decrypt_def nth_Cons' less_Suc_eq_0_disj)

lemma recv_all_honest:
  "secretKey s = Some (k, n1, n2) \<Longrightarrow> opens e k n2 ps \<Longrightarrow>
    buf (recv_all e (sealed_frames e k n2 ps) s) = buf s @ List.map_filter (parse e (isRendezvous s)) ps"
proof (induction ps arbitrary: s n2)
  case (Cons p ps)
  let ?s = "recv_message e (seal_frame e k (n2 + 1) p) s"
  note s = recv_message_keyed [OF Cons.prems(1), of e "seal_frame e k (n2 + 1) p"]
  have "buf (recv_all e (sealed_frames e k (n2 + 1) ps) ?s) = buf ?s @ List.map_filter (parse e (isRendezvous s)) ps"
    using Cons.IH [OF s(1)] s(2) Cons.prems(2) by (simp add: opens_Cons)
  then show ?case using s(3) Cons.prems(2)
    by (simp add: recv_all_def sealed_frames_Cons opens_Cons map_filter_simps split: option.splits)
qed (simp add: recv_all_def sealed_frames_def map_filter_simps)


definition tiny_env :: env where
  "tiny_env =
     \<lparr>msg_encode = (\<lambda>m. []), msg_decode = (\<lambda>b. Some (SignedId b)), rdv_encode = (\<lambda>m. []), rdv_decode = (\<lambda>b. None),
      idpk_decode = (\<lambda>b. None), secretbox_easy = (\<lambda>m n k. n @ m),
      secretbox_open_easy = (\<lambda>c n k. if n = makeOnce 1 \<and> c = makeOnce 1 @ [5] then Some [5] else None),
      crypto_box_easy = (\<lambda>m n p k. None), crypto_sign_open = (\<lambda>m k. None), from_base64 = (\<lambda>t. None),
      sha256 = (\<lambda>b. b), zstd_decode = (\<lambda>b n. None), text_decode = (\<lambda>b. []), error_text = (\<lambda>x. [])\<rparr>"


subsection \<open>The two copies\<close>

lemma plain_send_same: "secretKey s = None \<Longrightarrow> plain_sendMessage e m s = sendMessage e m s"
  by (simp add: plain_sendMessage_def sendMessage_def)

lemma plain_recv_same: "secretKey s = None \<Longrightarrow> plain_recv_message e d s = recv_message e d s"
  by (simp add: plain_recv_message_def recv_message_def)

end
