(* ===== verification/Connection.thy ===== *)
theory Connection
  imports Websock
begin

text \<open>
  A connection of the browser client (\<open>api/resources/web/js/src/connection.ts\<close>): from the rendezvous
  server over the relay and the handshake to the loop over the peer's messages.

  The asynchronous functions \<open>start\<close>, \<open>_start\<close>, \<open>connectRelay\<close>, \<open>secure\<close> and \<open>msgLoop\<close> form one routine
  that is suspended where it awaits a socket; the record keeps the sockets made so far and the phase of
  every routine, because \<open>reconnect\<close> starts a second one while the first may still be suspended. One
  event resumes one routine, delivers one event to a socket or is one call from the page. (The awaits
  of libsodium's and zstd's loading, and the one inside \<open>clipboard\<close> and \<open>cursor_data\<close>, do not wait for
  the outside and are not suspensions here.)

  An operation returns the new connection and the exception it ended with, if any; what it did before
  the exception stays. What it asks of the page is recorded in order.
\<close>

subsection \<open>State\<close>

datatype effect =
    Box string string string
  | Push string "(string \<times> payload) list"
  | Copy string
  | Decode bytes
  | DrawCallback
  | DrawGlobal
  | InitAudio int int
  | PlayAudio bytes
  | LoadDecoder
  | CloseDecoder

text \<open>Where a routine is suspended: the socket, and when the reading began.\<close>

datatype phase =
    OpeningRdv nat
  | AwaitPunch nat nat
  | OpeningRelay nat "bytes option" string
  | AwaitSignedId nat nat bytes
  | Looping nat nat
  | Finished

record conn =
  cid :: string
  copts :: "obj option"
  cpass :: "bytes option"
  chash :: "(string \<times> string) option"
  cpeer :: "obj option"
  cfirst :: bool
  cspeed :: "nat \<times> nat"
  cdecoder :: bool
  cmsgs :: "outmsg list"
  cinterval :: bool
  socks :: "sock list"
  cws :: "nat option"
  routines :: "phase list"
  batches :: "(nat \<times> nat \<times> nat) list"
  typing :: "(nat \<times> string) list"
  cstore :: storage
  cout :: "effect list"

definition new_conn :: "storage \<Rightarrow> conn" where
  "new_conn st =
     \<lparr>cid = [], copts = None, cpass = None, chash = None, cpeer = None, cfirst = False, cspeed = (0, 0),
      cdecoder = False, cmsgs = [], cinterval = False, socks = [], cws = None, routines = [], batches = [],
      typing = [], cstore = st, cout = []\<rparr>"

text \<open>The address of the page: its protocol, and the host found when the module was loaded.\<close>

record site =
  https :: bool
  hostname :: string

type_synonym answer = "conn \<times> reason option"

abbreviation pass :: "conn \<Rightarrow> answer" where
  "pass c \<equiv> (c, None)"

text \<open>Statements in order, until one raises.\<close>

fun steps :: "(conn \<Rightarrow> answer) list \<Rightarrow> conn \<Rightarrow> answer" where
  "steps [] c = (c, None)"
| "steps (f # fs) c = (case f c of (c, None) \<Rightarrow> steps fs c | (c, Some r) \<Rightarrow> (c, Some r))"

definition emit :: "effect \<Rightarrow> conn \<Rightarrow> conn" where
  "emit x c = c\<lparr>cout := cout c @ [x]\<rparr>"

definition box :: "string \<Rightarrow> string \<Rightarrow> string \<Rightarrow> conn \<Rightarrow> conn" where
  "box type title text = emit (Box type title text)"

definition put_sock :: "nat \<Rightarrow> sock \<Rightarrow> conn \<Rightarrow> conn" where
  "put_sock j s c = c\<lparr>socks := (socks c)[j := s]\<rparr>"

definition on_sock :: "nat \<Rightarrow> (sock \<Rightarrow> sock \<times> reason option) \<Rightarrow> conn \<Rightarrow> answer" where
  "on_sock j f c = (let (s, r) = f (socks c ! j) in (put_sock j s c, r))"

text \<open>\<open>this._ws?.sendMessage(m)\<close>.\<close>

definition send :: "env \<Rightarrow> outmsg \<Rightarrow> conn \<Rightarrow> answer" where
  "send e m c = (case cws c of None \<Rightarrow> pass c | Some j \<Rightarrow> on_sock j (sendMessage e m) c)"

subsection \<open>Addresses\<close>

definition show_port :: "int option \<Rightarrow> string" where
  "show_port p = (case p of None \<Rightarrow> ''NaN'' | Some n \<Rightarrow> show_int n)"

definition getrUriFromRs :: "site \<Rightarrow> string \<Rightarrow> bool \<Rightarrow> nat \<Rightarrow> string" where
  "getrUriFromRs p uri isRelay roffset =
     (let schema = (if https p then ''wss://'' else ''ws://'');
          offset = (if isRelay then (if roffset = 0 then 3 else roffset) else 2);
          uri =
            (if (case indexOf uri '':'' of Some i \<Rightarrow> 0 < i | None \<Rightarrow> False)
             then (case split_on (CHR '':'') uri of
                     h # t # _ \<Rightarrow> h @ '':'' @ show_port (map_option (\<lambda>n. n + int offset) (parseInt t))
                   | _ \<Rightarrow> uri)
             else uri @ '':'' @ show_nat (21116 + (if isRelay then 3 else 2)))
      in schema @ uri)"

text \<open>\<open>localStorage.getItem(k) || d\<close>.\<close>

definition item_or :: "storage \<Rightarrow> string \<Rightarrow> string \<Rightarrow> string" where
  "item_or st k d = (case getItem st k of None \<Rightarrow> d | Some s \<Rightarrow> if s = [] then d else s)"

definition getDefaultUri :: "site \<Rightarrow> storage \<Rightarrow> bool \<Rightarrow> string" where
  "getDefaultUri p st isRelay =
     getrUriFromRs p (item_or st ''custom-rendezvous-server'' (item_or st ''rendezvous-server'' (hostname p))) isRelay 0"

text \<open>\<open>HOST\<close>; \<open>url_host\<close> is \<open>new URL(apiServer).hostname\<close>.\<close>

definition module_host :: "(string \<Rightarrow> string) \<Rightarrow> string \<Rightarrow> storage \<Rightarrow> string" where
  "module_host url_host location_host st =
     (let apiServer = item_or st ''api-server'' [];
          defaultHost = (if apiServer \<noteq> [] then url_host apiServer else location_host)
      in item_or st ''rendezvous-server'' (item_or st ''custom-rendezvous-server'' defaultHost))"

subsection \<open>Options\<close>

text \<open>\<open>this._options\<close> is undefined before \<open>start\<close>; reading a property of it then raises.\<close>

definition with_opts :: "(obj \<Rightarrow> conn \<Rightarrow> answer) \<Rightarrow> conn \<Rightarrow> answer" where
  "with_opts f c = (case copts c of None \<Rightarrow> (c, Some (Thrown TypeError)) | Some o' \<Rightarrow> f o' c)"

definition drop_key :: "string \<Rightarrow> obj \<Rightarrow> obj" where
  "drop_key k o' = filter (\<lambda>p. fst p \<noteq> k) o'"

definition changed_options :: "int \<Rightarrow> string \<Rightarrow> jsval \<Rightarrow> obj \<Rightarrow> obj" where
  "changed_options now name value o' =
     put (if nullish value then drop_key name o' else put o' name value) ''tm'' (JNum now)"

definition setOption :: "int \<Rightarrow> string \<Rightarrow> jsval \<Rightarrow> conn \<Rightarrow> answer" where
  "setOption now name value =
     with_opts (\<lambda>o' c.
       let o' = changed_options now name value o'
       in pass (c\<lparr>copts := Some o', cstore := setPeers (put (getPeers (cstore c)) (cid c) (JObj o')) (cstore c)\<rparr>))"

definition setRemember :: "int \<Rightarrow> bool \<Rightarrow> conn \<Rightarrow> answer" where
  "setRemember now v = setOption now ''remember'' (JBool v)"

definition getRemember :: "obj \<Rightarrow> bool" where
  "getRemember o' = truthy (get o' ''remember'')"

definition getImageQualityEnum :: "jsval \<Rightarrow> bool \<Rightarrow> image_quality option" where
  "getImageQualityEnum value ignoreDefault =
     (if value = JStr ''low'' then Some Low
      else if value = JStr ''best'' then Some Best
      else if value = JStr ''balanced'' then (if ignoreDefault then None else Some Balanced)
      else None)"

definition empty_option :: option_message where
  "empty_option =
     \<lparr>om_image_quality = QualityNotSet, om_lock_after_session_end = NotSet, om_show_remote_cursor = NotSet,
      om_privacy_mode = NotSet, om_block_input = NotSet, om_disable_audio = NotSet, om_disable_clipboard = NotSet\<rparr>"

definition getOptionMessage :: "obj \<Rightarrow> option_message option" where
  "getOptionMessage o' =
     (let q = getImageQualityEnum (get o' ''image-quality'') True;
          yes = (\<lambda>k. if truthy (get o' k) then Yes else NotSet);
          msg = \<lparr>om_image_quality = (case q of None \<Rightarrow> QualityNotSet | Some q \<Rightarrow> q),
                 om_lock_after_session_end = yes ''lock-after-session-end'',
                 om_show_remote_cursor = yes ''show-remote-cursor'', om_privacy_mode = yes ''privacy-mode'',
                 om_block_input = NotSet, om_disable_audio = yes ''disable-audio'',
                 om_disable_clipboard = yes ''disable-clipboard''\<rparr>
      in if q \<noteq> None \<or> list_ex (\<lambda>k. truthy (get o' k))
              [''show-remote-cursor'', ''lock-after-session-end'', ''privacy-mode'', ''disable-audio'', ''disable-clipboard'']
         then Some msg else None)"

text \<open>\<open>None\<close>: a name the switch does not know.\<close>

definition toggled_message :: "string \<Rightarrow> bool \<Rightarrow> option_message option" where
  "toggled_message name v =
     (let v2 = (if v then Yes else No)
      in if name = ''show-remote-cursor'' then Some (empty_option\<lparr>om_show_remote_cursor := v2\<rparr>)
         else if name = ''disable-audio'' then Some (empty_option\<lparr>om_disable_audio := v2\<rparr>)
         else if name = ''disable-clipboard'' then Some (empty_option\<lparr>om_disable_clipboard := v2\<rparr>)
         else if name = ''lock-after-session-end'' then Some (empty_option\<lparr>om_lock_after_session_end := v2\<rparr>)
         else if name = ''privacy-mode'' then Some (empty_option\<lparr>om_privacy_mode := v2\<rparr>)
         else if name = ''block-input'' then Some (empty_option\<lparr>om_block_input := Yes\<rparr>)
         else if name = ''unblock-input'' then Some (empty_option\<lparr>om_block_input := No\<rparr>)
         else None)"

definition toggleOption :: "env \<Rightarrow> int \<Rightarrow> string \<Rightarrow> conn \<Rightarrow> answer" where
  "toggleOption e now name =
     with_opts (\<lambda>o' c.
       let v = \<not> truthy (get o' name)
       in case toggled_message name v of
            None \<Rightarrow> pass c
          | Some msg \<Rightarrow>
              steps [if str_includes name ''block-input'' then pass else setOption now name (JBool v),
                     send e (OptionOut msg)] c)"

definition setImageQuality :: "env \<Rightarrow> int \<Rightarrow> string \<Rightarrow> conn \<Rightarrow> answer" where
  "setImageQuality e now value =
     steps [setOption now ''image-quality'' (JStr value),
            case getImageQualityEnum (JStr value) False of
              None \<Rightarrow> pass
            | Some q \<Rightarrow> send e (OptionOut (empty_option\<lparr>om_image_quality := q\<rparr>))]"

subsection \<open>Input\<close>

definition getMod :: "bool \<Rightarrow> bool \<Rightarrow> bool \<Rightarrow> bool \<Rightarrow> int list" where
  "getMod alt ctrl shift command =
     (if alt then [1] else []) @ (if ctrl then [4] else []) @ (if shift then [29] else []) @ (if command then [23] else [])"

definition key_of_input :: "bool \<Rightarrow> string \<Rightarrow> bool \<Rightarrow> bool \<Rightarrow> bool \<Rightarrow> bool \<Rightarrow> bool \<Rightarrow> bool \<Rightarrow> key_event" where
  "key_of_input isDesktop name dn pr alt ctrl shift command =
     (let alt = (alt \<and> name \<notin> {''VK_MENU'', ''RAlt''});
          ctrl = (ctrl \<and> name \<notin> {''VK_CONTROL'', ''RControl''});
          shift = (shift \<and> name \<notin> {''VK_SHIFT'', ''RShift''});
          command = (command \<and> name \<notin> {''Meta'', ''RWin''})
      in (mapKey name isDesktop)\<lparr>down := dn, press := pr, modifier_keys := getMod alt ctrl shift command\<rparr>)"

definition inputKey :: "env \<Rightarrow> bool \<Rightarrow> string \<Rightarrow> bool \<Rightarrow> bool \<Rightarrow> bool \<Rightarrow> bool \<Rightarrow> bool \<Rightarrow> bool \<Rightarrow> conn \<Rightarrow> answer" where
  "inputKey e isDesktop name dn pr alt ctrl shift command =
     send e (KeyOut (key_of_input isDesktop name dn pr alt ctrl shift command))"

definition ctrlAltDel :: "env \<Rightarrow> conn \<Rightarrow> answer" where
  "ctrlAltDel e c =
     send e (KeyOut (if opt_prop (case cpeer c of None \<Rightarrow> JUndef | Some pi \<Rightarrow> JObj pi) ''platform'' = JStr ''Windows''
                     then (key_event_of (ControlKey 100))\<lparr>down := True\<rparr>
                     else (key_event_of (ControlKey 5))\<lparr>down := True, modifier_keys := getMod True True False False\<rparr>)) c"

definition inputString :: "env \<Rightarrow> string \<Rightarrow> conn \<Rightarrow> answer" where
  "inputString e s = send e (KeyOut (key_event_of (Seq s)))"

definition lockScreen :: "env \<Rightarrow> conn \<Rightarrow> answer" where
  "lockScreen e = send e (KeyOut ((key_event_of (ControlKey 101))\<lparr>down := True\<rparr>))"

definition switchDisplay :: "env \<Rightarrow> jsval \<Rightarrow> conn \<Rightarrow> answer" where
  "switchDisplay e display = send e (SwitchDisplayOut display)"

text \<open>A coordinate \<open>None\<close> is \<open>NaN\<close>.\<close>

definition inputMouse :: "env \<Rightarrow> nat \<Rightarrow> int option \<Rightarrow> int option \<Rightarrow> bool \<Rightarrow> bool \<Rightarrow> bool \<Rightarrow> bool \<Rightarrow> conn \<Rightarrow> answer" where
  "inputMouse e bs x y alt ctrl shift command = send e (MouseOut bs x y (getMod alt ctrl shift command))"

definition click :: "env \<Rightarrow> nat \<Rightarrow> int \<Rightarrow> int \<Rightarrow> conn \<Rightarrow> answer" where
  "click e bs x y = inputMouse e bs (Some x) (Some y) False False False False"

text \<open>
  \<open>inputOsPassword\<close> is not awaited: it runs to its first \<open>sleep\<close> and is continued by timers
  (\<open>type_next\<close>); an exception ends it and is not seen by the caller. Stage 4 is the end.
\<close>

definition inputOsPassword :: "env \<Rightarrow> string \<Rightarrow> conn \<Rightarrow> conn" where
  "inputOsPassword e seq c =
     (case click e 0 0 0 c of (c, None) \<Rightarrow> c\<lparr>typing := typing c @ [(1, seq)]\<rparr> | (c, Some _) \<Rightarrow> c)"

definition type_stage :: "env \<Rightarrow> nat \<Rightarrow> string \<Rightarrow> conn \<Rightarrow> answer" where
  "type_stage e stage seq =
     (if stage = 1 then click e 0 3 3
      else if stage = 2 then steps [click e (Bit_Operations.or 1 (push_bit 3 1)) 0 0, click e (Bit_Operations.or 2 (push_bit 3 1)) 0 0]
      else if stage = 3 then send e (KeyOut ((key_event_of (Seq seq))\<lparr>press := True\<rparr>))
      else pass)"

definition type_next :: "env \<Rightarrow> nat \<Rightarrow> conn \<Rightarrow> conn" where
  "type_next e i c =
     (let (stage, seq) = typing c ! i;
          (c, r) = type_stage e stage seq c
      in c\<lparr>typing := (typing c)[i := (if r = None then min 4 (stage + 1) else 4, seq)]\<rparr>)"

subsection \<open>Logging in\<close>

text \<open>\<open>new TextEncoder().encode(s)\<close> for code units below 256.\<close>

definition utf8 :: "string \<Rightarrow> bytes" where
  "utf8 s = concat (map (\<lambda>c. let n = char_code c in
     if n < 128 then [word_of_nat n] else [word_of_nat (192 + n div 64), word_of_nat (128 + n mod 64)]) s)"

text \<open>\<open>hash\<close>: successive updates hash the concatenation.\<close>

definition hash :: "env \<Rightarrow> bytes list \<Rightarrow> bytes" where
  "hash e datas = sha256 e (concat datas)"

definition sendLoginMessage :: "env \<Rightarrow> bytes \<Rightarrow> conn \<Rightarrow> answer" where
  "sendLoginMessage e password =
     with_opts (\<lambda>o' c. send e (LoginRequest (cid c) ''web'' ''web'' password (getOptionMessage o') True) c)"

text \<open>\<open>login(password)\<close>: an empty password is none; without a salt \<open>hash\<close> raises.\<close>

definition login :: "env \<Rightarrow> string \<Rightarrow> conn \<Rightarrow> answer" where
  "login e password c =
     (if password \<noteq> [] then
        (case chash c of
           None \<Rightarrow> (c, Some (Thrown TypeError))
         | Some (salt, challenge) \<Rightarrow>
             (let p = hash e [utf8 password, utf8 salt];
                  c = box ''connecting'' ''Connecting...'' ''Logging in...'' (c\<lparr>cpass := Some p\<rparr>)
              in sendLoginMessage e (hash e [p, utf8 challenge]) c))
      else
        (case cpass c of
           None \<Rightarrow> sendLoginMessage e [] c
         | Some p \<Rightarrow>
             (case chash c of
                None \<Rightarrow> (c, Some (Thrown TypeError))
              | Some (salt, challenge) \<Rightarrow> sendLoginMessage e (hash e [p, utf8 challenge]) c)))"

text \<open>
  \<open>Uint8Array.from(JSON.parse('[' + t + ']'))\<close>, where the text is numbers with commas; \<open>None\<close> is an
  exception.
\<close>

definition parse_bytes :: "string \<Rightarrow> bytes option" where
  "parse_bytes t =
     (case JSON_parse (''['' @ t @ '']'') of
        Parsed (JArr vs) \<Rightarrow>
          if list_all (\<lambda>v. case v of JNum n \<Rightarrow> True | _ \<Rightarrow> False) vs
          then Some (map (\<lambda>v. case v of JNum n \<Rightarrow> word_of_int n | _ \<Rightarrow> 0) vs)
          else None
      | _ \<Rightarrow> None)"

definition use_tmppwd :: "int \<Rightarrow> conn \<Rightarrow> answer" where
  "use_tmppwd now =
     with_opts (\<lambda>o' c.
       let tmp = get o' ''tmppwd''
       in if cpass c = None \<and> truthy tmp then
            (case parse_bytes (toStr tmp) of
               None \<Rightarrow> (c, Some (Thrown SyntaxError))
             | Some p \<Rightarrow> setOption now ''tmppwd'' (JStr []) (c\<lparr>cpass := Some p\<rparr>))
          else pass c)"

definition handleHash :: "env \<Rightarrow> int \<Rightarrow> string \<Rightarrow> string \<Rightarrow> conn \<Rightarrow> answer" where
  "handleHash e now salt challenge c =
     steps [use_tmppwd now,
            \<lambda>c. pass (if cpass c = None then box ''input-password'' ''Password Required'' [] c else c),
            login e []] (c\<lparr>chash := Some (salt, challenge)\<rparr>)"

subsection \<open>The peer is known\<close>

definition data_payload :: "obj \<Rightarrow> (string \<times> payload) list" where
  "data_payload o' = map (\<lambda>p. (fst p, Data (snd p))) o'"

definition shouldAutoLogin :: "obj \<Rightarrow> string" where
  "shouldAutoLogin o' =
     (if truthy (get o' ''os-password'') \<and> truthy (get o' ''lock-after-session-end'') \<and> truthy (get o' ''auto-login'')
      then toStr (get o' ''os-password'') else [])"

definition auto_login :: "env \<Rightarrow> conn \<Rightarrow> answer" where
  "auto_login e =
     with_opts (\<lambda>o' c. let p = shouldAutoLogin o' in pass (if p \<noteq> [] then inputOsPassword e p c else c))"

text \<open>The object is kept as \<open>_peerInfo\<close> and as the option \<open>info\<close>: a user name filled in shows in both.\<close>

definition keep_info :: "int \<Rightarrow> obj \<Rightarrow> conn \<Rightarrow> answer" where
  "keep_info now info =
     with_opts (\<lambda>o' c.
       let username = opt_prop (get o' ''info'') ''username'';
           info = (if truthy username \<and> \<not> truthy (get info ''username'') then put info ''username'' username else info)
       in setOption now ''info'' (JObj info) (c\<lparr>cpeer := Some info\<rparr>))"

definition keep_password :: "int \<Rightarrow> conn \<Rightarrow> answer" where
  "keep_password now =
     with_opts (\<lambda>o' c.
       if getRemember o' then
         (case cpass c of
            None \<Rightarrow> pass c
          | Some p \<Rightarrow>
              if p \<noteq> [] \<and> get o' ''password'' \<noteq> JStr (bytes_text p)
              then setOption now ''password'' (JStr (bytes_text p)) c else pass c)
       else setOption now ''password'' JUndef c)"

definition handlePeerInfo :: "env \<Rightarrow> int \<Rightarrow> obj \<Rightarrow> conn \<Rightarrow> answer" where
  "handlePeerInfo e now info c =
     (let c = c\<lparr>cpeer := Some info\<rparr>
      in if get info ''displays'' = JArr [] then pass (box ''error'' ''Remote Error'' ''No Display'' c)
         else steps [auto_login e, keep_info now info, keep_password now]
                (emit (Push ''peer_info'' (data_payload info))
                  (box ''success'' ''Successful'' ''Connected, waiting for image...'' c)))"

subsection \<open>Video\<close>

definition loadVideoDecoder :: "conn \<Rightarrow> conn" where
  "loadVideoDecoder c = emit LoadDecoder (if cdecoder c then emit CloseDecoder c else c)"

definition decoder_loaded :: "conn \<Rightarrow> conn" where
  "decoder_loaded c = c\<lparr>cdecoder := True\<rparr>"

text \<open>
  The frames of a message are given to the decoder, which raises when there is none yet; what it
  answers for each comes later (\<open>frame_decoded\<close>). A batch is what the callback closes over: frames
  answered, frames in all, the time.
\<close>

definition first_frame :: "conn \<Rightarrow> conn" where
  "first_frame c = (if cfirst c then c else (box [] [] [] c)\<lparr>cfirst := True\<rparr>)"

definition handleVideoFrame :: "nat \<Rightarrow> bytes list option \<Rightarrow> conn \<Rightarrow> answer" where
  "handleVideoFrame now vp9s c =
     (let c = first_frame c
      in case vp9s of
           None \<Rightarrow> pass c
         | Some frames \<Rightarrow>
             if frames \<noteq> [] \<and> \<not> cdecoder c then (c, Some (Thrown TypeError))
             else pass (fold (\<lambda>f. emit (Decode f)) frames (c\<lparr>batches := batches c @ [(0, length frames, now)]\<rparr>)))"

definition draw :: "conn \<Rightarrow> conn" where
  "draw c = emit DrawGlobal (emit DrawCallback c)"

definition count_frame :: "nat \<Rightarrow> nat \<times> nat \<Rightarrow> nat \<times> nat" where
  "count_frame elapsed s =
     (let s = (fst s + 1, snd s + elapsed) in if fst s \<ge> 30 then (0, 0) else s)"

definition sendVideoReceived :: "env \<Rightarrow> conn \<Rightarrow> answer" where
  "sendVideoReceived e = send e VideoReceived"

definition frame_decoded :: "env \<Rightarrow> nat \<Rightarrow> bool \<Rightarrow> bool \<Rightarrow> nat \<Rightarrow> conn \<Rightarrow> conn" where
  "frame_decoded e now ok frameBuffer b c =
     (let (i, n, tm) = batches c ! b;
          i = i + 1
      in fst (steps
           [if i = n then sendVideoReceived e else pass,
            \<lambda>c. pass (if ok \<and> frameBuffer \<and> n = i then (draw c)\<lparr>cspeed := count_frame (now - tm) (cspeed c)\<rparr> else c)]
           (c\<lparr>batches := (batches c)[b := (i, n, tm)]\<rparr>)))"

subsection \<open>Closing\<close>

definition close :: "conn \<Rightarrow> conn" where
  "close c =
     (let c = c\<lparr>cmsgs := [], cinterval := False\<rparr>;
          c = (case cws c of None \<Rightarrow> c | Some j \<Rightarrow> put_sock j (ws_close (socks c ! j)) c)
      in if cdecoder c then emit CloseDecoder c else c)"

definition refresh :: "env \<Rightarrow> conn \<Rightarrow> answer" where
  "refresh e = send e RefreshVideo"

text \<open>The body of the interval: the queue is sent and emptied.\<close>

fun flush :: "env \<Rightarrow> outmsg list \<Rightarrow> conn \<Rightarrow> conn" where
  "flush e [] c = c\<lparr>cmsgs := []\<rparr>"
| "flush e (m # ms) c =
     (case send e m (c\<lparr>cmsgs := m # ms\<rparr>) of (c, None) \<Rightarrow> flush e ms c | (c, Some _) \<Rightarrow> c)"

definition interval :: "env \<Rightarrow> conn \<Rightarrow> conn" where
  "interval e c = (if cinterval c then flush e (cmsgs c) c else c)"

subsection \<open>Messages of the peer\<close>

text \<open>\<open>handleMisc\<close> returns whether the loop goes on; \<open>undefined\<close> counts as no.\<close>

definition permission_name :: "int \<Rightarrow> string option" where
  "permission_name p =
     (if p = 0 then Some ''keyboard'' else if p = 2 then Some ''clipboard'' else if p = 3 then Some ''audio'' else None)"

fun handleMisc :: "misc_in \<Rightarrow> conn \<Rightarrow> conn \<times> bool" where
  "handleMisc (AudioFormat channels rate) c = (emit (InitAudio channels rate) c, True)"
| "handleMisc (ChatMessage text) c = (emit (Push ''chat'' [(''text'', Data (JStr text))]) c, True)"
| "handleMisc (PermissionInfo p enabled) c =
     (case permission_name p of
        None \<Rightarrow> (c, False)
      | Some name \<Rightarrow> (emit (Push ''permission'' [(name, Data (JBool enabled))]) c, True))"
| "handleMisc (SwitchDisplayIn sd) c =
     (emit (Push ''switch_display'' (data_payload sd)) (loadVideoDecoder c), True)"
| "handleMisc (CloseReason r) c =
     (if r \<noteq> [] then (close (box ''error'' ''Connection Error'' r c), False) else (c, True))"
| "handleMisc OtherMisc c = (c, True)"

definition handleLogin :: "env \<Rightarrow> int \<Rightarrow> string option \<Rightarrow> obj option \<Rightarrow> conn \<Rightarrow> answer" where
  "handleLogin e now error peer_info c =
     (case error of
        Some (x # xs) \<Rightarrow>
          pass (if x # xs = ''Wrong Password''
                then box ''re-input-password'' (x # xs) ''Do you want to enter again?'' (c\<lparr>cpass := None\<rparr>)
                else box ''error'' ''Login Error'' (x # xs) c)
      | _ \<Rightarrow> (case peer_info of None \<Rightarrow> pass c | Some info \<Rightarrow> handlePeerInfo e now info c))"

definition cursor_payload :: "cursor \<Rightarrow> bytes \<Rightarrow> (string \<times> payload) list" where
  "cursor_payload cd colors =
     [(''id'', Data (JNum (cd_id cd))), (''hotx'', Data (JNum (cd_hotx cd))), (''hoty'', Data (JNum (cd_hoty cd))),
      (''width'', Data (JNum (cd_width cd))), (''height'', Data (JNum (cd_height cd))), (''colors'', Bytes colors)]"

definition decompressed :: "env \<Rightarrow> bytes \<Rightarrow> bytes option" where
  "decompressed e = decompress (zstd_decode e)"

text \<open>One round of \<open>msgLoop\<close>: the answer, and whether the loop goes on.\<close>

definition handle_msg :: "env \<Rightarrow> nat \<Rightarrow> inmsg \<Rightarrow> conn \<Rightarrow> answer \<times> bool" where
  "handle_msg e now m c =
     (case m of
        HashIn salt challenge \<Rightarrow> (handleHash e (int now) salt challenge c, True)
      | TestDelayIn tm from_client \<Rightarrow> (if from_client then pass c else send e (TestDelayOut tm from_client) c, True)
      | LoginResponse error peer_info \<Rightarrow> (handleLogin e (int now) error peer_info c, True)
      | VideoFrame vp9s \<Rightarrow> (handleVideoFrame now vp9s c, True)
      | ClipboardIn compressed content \<Rightarrow>
          (case (if compressed then decompressed e content else Some content) of
             None \<Rightarrow> (pass c, True)
           | Some content \<Rightarrow> (pass (emit (Copy (text_decode e content)) c), True))
      | CursorData cd \<Rightarrow>
          (case decompressed e (cd_colors cd) of
             None \<Rightarrow> (pass c, True)
           | Some colors \<Rightarrow> (pass (emit (Push ''cursor_data'' (cursor_payload cd colors)) c), True))
      | CursorId i \<Rightarrow> (pass (if i \<noteq> 0 then emit (Push ''cursor_id'' [(''id'', Data (JNum i))]) c else c), True)
      | CursorPosition pos \<Rightarrow> (pass (emit (Push ''cursor_position'' (data_payload pos)) c), True)
      | MiscIn misc \<Rightarrow> (let (c, go) = handleMisc misc c in (pass c, go))
      | AudioFrame data \<Rightarrow> (pass (emit (PlayAudio data) c), True)
      | _ \<Rightarrow> (pass c, True))"

subsection \<open>The handshake\<close>

definition verify_text :: "env \<Rightarrow> bytes \<Rightarrow> string \<Rightarrow> bytes option" where
  "verify_text e sig pk = (case from_base64 e pk of None \<Rightarrow> None | Some pk \<Rightarrow> crypto_sign_open e sig pk)"

definition RS_PK :: string where
  "RS_PK = ''OeVuKk5nlHiXp+APNn0Y3pC1Iwpwn44JGqrQCsWqmBw=''"

text \<open>
  The key the first half of \<open>secure\<close> arrives at: of the record signed by the rendezvous server the key
  when it is for this connection's peer, and otherwise the record itself; \<open>None\<close> unless 32 bytes.
\<close>

definition server_key :: "env \<Rightarrow> string \<Rightarrow> string \<Rightarrow> bytes option \<Rightarrow> bytes option" where
  "server_key e key i pk =
     (case pk of
        None \<Rightarrow> None
      | Some sig \<Rightarrow>
          (case verify_text e sig key of
             None \<Rightarrow> None
           | Some record \<Rightarrow>
               (case idpk_decode e record of
                  None \<Rightarrow> None
                | Some (peer, peer_pk) \<Rightarrow>
                    (let pk = (if peer = i then peer_pk else record)
                     in if length pk = 32 then Some pk else None))))"

text \<open>The keys made anew: a box key pair and a symmetric key.\<close>

record fresh =
  f_sk :: bytes
  f_pk :: bytes
  f_secret :: bytes

text \<open>
  The second half, for the peer's first message: the keys agreed on are \<open>Inr (Some (box key of the
  peer))\<close>, falling back to an unprotected connection is \<open>Inr None\<close>, an exception \<open>Inl\<close>.
\<close>

definition peer_box_key :: "env \<Rightarrow> string \<Rightarrow> bytes \<Rightarrow> inmsg \<Rightarrow> reason + bytes option" where
  "peer_box_key e i pk m =
     (case m of
        SignedId sig \<Rightarrow>
          (case crypto_sign_open e sig pk of
             None \<Rightarrow> Inr None
           | Some record \<Rightarrow>
               (case idpk_decode e record of
                  None \<Rightarrow> Inl (Thrown DecodeError)
                | Some (peer, theirPk) \<Rightarrow>
                    if peer \<noteq> i then Inr None
                    else if length theirPk \<noteq> 32 then Inr None
                    else Inr (Some theirPk)))
      | _ \<Rightarrow> Inr None)"

definition set_ws_key :: "bytes \<Rightarrow> conn \<Rightarrow> answer" where
  "set_ws_key k c = (case cws c of None \<Rightarrow> pass c | Some j \<Rightarrow> on_sock j (\<lambda>s. (setSecretKey k s, None)) c)"

definition send_clear_key :: "env \<Rightarrow> conn \<Rightarrow> answer" where
  "send_clear_key e = send e (PublicKey [] [])"

definition agree_keys :: "env \<Rightarrow> fresh \<Rightarrow> bytes \<Rightarrow> conn \<Rightarrow> answer" where
  "agree_keys e f theirPk c =
     (case seal (crypto_box_easy e) (f_secret f) theirPk (f_sk f) of
        None \<Rightarrow> (c, Some (Thrown SodiumError))
      | Some sealed \<Rightarrow> steps [send e (PublicKey (f_pk f) sealed), set_ws_key (f_secret f)] c)"

subsection \<open>The routine\<close>

definition set_phase :: "nat \<Rightarrow> phase \<Rightarrow> conn \<Rightarrow> conn" where
  "set_phase r p c = c\<lparr>routines := (routines c)[r := p]\<rparr>"

fun reason_text :: "env \<Rightarrow> reason \<Rightarrow> string" where
  "reason_text e (Text s) = s"
| "reason_text e (Ev CloseEvent) = ''Reset by the peer''"
| "reason_text e (Ev ErrorEvent) = ''[object Event]''"
| "reason_text e (Thrown x) = error_text e x"

text \<open>The handler of \<open>start\<close>, and the end of a stretch: the next phase, unless it raised.\<close>

definition failed :: "env \<Rightarrow> nat \<Rightarrow> reason \<Rightarrow> conn \<Rightarrow> conn" where
  "failed e r why c = set_phase r Finished (box ''error'' ''Connection Error'' (reason_text e why) c)"

definition go_on :: "env \<Rightarrow> nat \<Rightarrow> (conn \<Rightarrow> conn) \<Rightarrow> answer \<Rightarrow> conn" where
  "go_on e r k a = (case a of (c, None) \<Rightarrow> k c | (c, Some why) \<Rightarrow> failed e r why c)"

text \<open>The loop awaits the socket the connection has then.\<close>

definition await_next :: "nat \<Rightarrow> (nat \<Rightarrow> phase) \<Rightarrow> conn \<Rightarrow> conn" where
  "await_next r p c = (case cws c of None \<Rightarrow> set_phase r Finished c | Some j \<Rightarrow> set_phase r (p j) c)"

definition ready_event :: "bool \<Rightarrow> effect" where
  "ready_event secured =
     Push ''connection_ready'' [(''secure'', Data (JBool secured)), (''direct'', Data (JBool False))]"

definition begin_loop :: "nat \<Rightarrow> nat \<Rightarrow> bool \<Rightarrow> conn \<Rightarrow> conn" where
  "begin_loop r now secured c =
     await_next r (\<lambda>j. Looping j now) (emit (ready_event secured) c)"

definition stored_password :: "conn \<Rightarrow> bytes option" where
  "stored_password c =
     (let p = (case copts c of None \<Rightarrow> JUndef | Some o' \<Rightarrow> get o' ''password'')
      in if cpass c = None \<and> truthy p then parse_bytes (toStr p) else cpass c)"

text \<open>
  \<open>start\<close> up to its first suspension. What is stored for a peer is an object.
\<close>

definition start :: "site \<Rightarrow> string \<Rightarrow> conn \<Rightarrow> conn" where
  "start p i c =
     (let c = (if copts c = None then c\<lparr>copts := Some (as_obj (get (getPeers (cstore c)) i))\<rparr> else c);
          c = c\<lparr>cpass := stored_password c, cinterval := True\<rparr>;
          c = loadVideoDecoder c;
          j = length (socks c)
      in c\<lparr>socks := socks c @ [ws_new (getDefaultUri p (cstore c) False) True], cws := Some j, cid := i,
           routines := routines c @ [OpeningRdv j]\<rparr>)"

definition reconnect :: "site \<Rightarrow> conn \<Rightarrow> conn" where
  "reconnect p c = start p (cid c) (close c)"

definition punch_hole_request :: "conn \<Rightarrow> rdv_out" where
  "punch_hole_request c =
     PunchHoleRequest (cid c) (item_or (cstore c) ''key'' []) 0 2 (item_or (cstore c) ''access_token'' [])"

definition punch_failure :: "int \<Rightarrow> string option" where
  "punch_failure f =
     (if f = 0 then Some ''ID does not exist''
      else if f = 2 then Some ''Remote desktop is offline''
      else if f = 3 then Some ''Key mismatch''
      else if f = 4 then Some ''Key overuse'' else None)"

text \<open>A new socket for the relay; the connection does not have it before it is open.\<close>

definition connectRelay :: "site \<Rightarrow> nat \<Rightarrow> relay_response \<Rightarrow> conn \<Rightarrow> conn" where
  "connectRelay p r rr c =
     (let uri = (if rr_server rr \<noteq> [] then getrUriFromRs p (rr_server rr) True 2
                 else getDefaultUri p (cstore c) True);
          j = length (socks c)
      in set_phase r (OpeningRelay j (rr_pk rr) (rr_uuid rr)) (c\<lparr>socks := socks c @ [ws_new uri False]\<rparr>))"

definition punched :: "site \<Rightarrow> nat \<Rightarrow> nat \<Rightarrow> inbound \<Rightarrow> conn \<Rightarrow> conn" where
  "punched p r j m c =
     (let c = put_sock j (ws_close (socks c ! j)) c
      in case m of
           Rdv (PunchHoleResponse other_failure failure) \<Rightarrow>
             set_phase r Finished
               (if other_failure \<noteq> [] then box ''error'' ''Error'' other_failure c
                else case punch_failure failure of None \<Rightarrow> c | Some text \<Rightarrow> box ''error'' ''Error'' text c)
         | Rdv (RelayResponse rr) \<Rightarrow>
             if rr_version rr = []
             then set_phase r Finished (box ''error'' ''Error'' ''Remote version is low, not support web'' c)
             else connectRelay p r rr c
         | _ \<Rightarrow> set_phase r Finished c)"

definition relay_open :: "env \<Rightarrow> nat \<Rightarrow> nat \<Rightarrow> nat \<Rightarrow> bytes option \<Rightarrow> string \<Rightarrow> conn \<Rightarrow> conn" where
  "relay_open e now r j pk uuid c =
     go_on e r
       (\<lambda>c. case server_key e (item_or (cstore c) ''key'' RS_PK) (cid c) pk of
              Some pk \<Rightarrow> await_next r (\<lambda>j. AwaitSignedId j now pk) c
            | None \<Rightarrow> go_on e r (begin_loop r now False) (send_clear_key e c))
       (on_sock j (sendRendezvous e (RequestRelay (item_or (cstore c) ''key'' []) uuid)) (c\<lparr>cws := Some j\<rparr>))"

fun peer_msg :: "inbound \<Rightarrow> inmsg" where
  "peer_msg (Msg m) = m"
| "peer_msg (Rdv m) = OtherMsg"

definition signed_id :: "env \<Rightarrow> nat \<Rightarrow> fresh \<Rightarrow> nat \<Rightarrow> bytes \<Rightarrow> inmsg \<Rightarrow> conn \<Rightarrow> conn" where
  "signed_id e now f r pk m c =
     (case peer_box_key e (cid c) pk m of
        Inl why \<Rightarrow> failed e r why c
      | Inr None \<Rightarrow> go_on e r (begin_loop r now False) (send_clear_key e c)
      | Inr (Some theirPk) \<Rightarrow> go_on e r (begin_loop r now True) (agree_keys e f theirPk c))"

definition looped :: "env \<Rightarrow> nat \<Rightarrow> nat \<Rightarrow> inmsg \<Rightarrow> conn \<Rightarrow> conn" where
  "looped e now r m c =
     (let (a, go) = handle_msg e now m c
      in go_on e r (if go then await_next r (\<lambda>j. Looping j now) else set_phase r Finished) a)"

text \<open>
  \<open>await ws.open()\<close> and \<open>await ws.next()\<close>: while a routine runs its phase is that of one that has ended,
  until it is suspended again.
\<close>

definition opened :: "env \<Rightarrow> nat \<Rightarrow> nat \<Rightarrow> (conn \<Rightarrow> conn) \<Rightarrow> conn \<Rightarrow> conn" where
  "opened e r j k c =
     (case open_promise (socks c ! j) of Pending \<Rightarrow> c | Rejected why \<Rightarrow> failed e r why c | Resolved \<Rightarrow> k (set_phase r Finished c))"

definition polled :: "env \<Rightarrow> nat \<Rightarrow> nat \<Rightarrow> nat \<Rightarrow> nat \<Rightarrow> (inbound \<Rightarrow> conn \<Rightarrow> conn) \<Rightarrow> conn \<Rightarrow> conn" where
  "polled e r j since now k c =
     (case next_poll since now (socks c ! j) of
        (Again, s) \<Rightarrow> c
      | (Fail why, s) \<Rightarrow> failed e r why c
      | (Got m, s) \<Rightarrow> k m (set_phase r Finished (put_sock j s c)))"

definition resume :: "env \<Rightarrow> site \<Rightarrow> nat \<Rightarrow> fresh \<Rightarrow> nat \<Rightarrow> conn \<Rightarrow> conn" where
  "resume e p now f r c =
     (case routines c ! r of
        OpeningRdv j \<Rightarrow>
          opened e r j (\<lambda>c. go_on e r (set_phase r (AwaitPunch j now)) (on_sock j (sendRendezvous e (punch_hole_request c)) c)) c
      | AwaitPunch j since \<Rightarrow> polled e r j since now (\<lambda>m. punched p r j m) c
      | OpeningRelay j pk uuid \<Rightarrow> opened e r j (relay_open e now r j pk uuid) c
      | AwaitSignedId j since pk \<Rightarrow> polled e r j since now (\<lambda>m. signed_id e now f r pk (peer_msg m)) c
      | Looping j since \<Rightarrow> polled e r j since now (\<lambda>m. looped e now r (peer_msg m)) c
      | Finished \<Rightarrow> c)"

subsection \<open>The calls of the page\<close>

text \<open>
  What \<open>setByName\<close> and \<open>getByName\<close> call on the current connection. Values that are not of the declared
  type (a password or a key name that is no string) are left aside: \<open>typed_call\<close> excludes them.
\<close>

definition typed_call :: "conn_call \<Rightarrow> bool" where
  "typed_call k =
     (case k of
        Login v \<Rightarrow> (case v of JStr s \<Rightarrow> True | _ \<Rightarrow> \<not> truthy v)
      | InputKey v bs \<Rightarrow> (case v of JStr s \<Rightarrow> length bs = 6 | _ \<Rightarrow> False)
      | InputMouse bs x y ms \<Rightarrow> length ms = 4
      | _ \<Rightarrow> True)"

fun do_call :: "env \<Rightarrow> site \<Rightarrow> bool \<Rightarrow> int \<Rightarrow> conn_call \<Rightarrow> conn \<Rightarrow> answer" where
  "do_call e p desktop now (Start i) c = pass (start p i c)"
| "do_call e p desktop now CloseConn c = pass (close c)"
| "do_call e p desktop now (SetRemember b) c = setRemember now b c"
| "do_call e p desktop now (Login v) c = login e (case v of JStr s \<Rightarrow> s | _ \<Rightarrow> []) c"
| "do_call e p desktop now Refresh c = refresh e c"
| "do_call e p desktop now Reconnect c = pass (reconnect p c)"
| "do_call e p desktop now (ToggleOption name) c = toggleOption e now name c"
| "do_call e p desktop now (SetImageQuality v) c = setImageQuality e now v c"
| "do_call e p desktop now LockScreen c = lockScreen e c"
| "do_call e p desktop now CtrlAltDel c = ctrlAltDel e c"
| "do_call e p desktop now (SwitchDisplay d) c = switchDisplay e (JStr d) c"
| "do_call e p desktop now (InputKey v bs) c =
     (case (v, bs) of
        (JStr name, [dn, pr, alt, ctrl, shift, command]) \<Rightarrow> inputKey e desktop name dn pr alt ctrl shift command c
      | _ \<Rightarrow> pass c)"
| "do_call e p desktop now (InputString s) c = inputString e s c"
| "do_call e p desktop now (InputMouse bs x y ms) c =
     (case ms of [alt, ctrl, shift, command] \<Rightarrow> inputMouse e bs x y alt ctrl shift command c | _ \<Rightarrow> pass c)"
| "do_call e p desktop now (SetOption name v) c = setOption now (toStr name) v c"
| "do_call e p desktop now (InputOsPassword s) c = pass (inputOsPassword e s c)"

text \<open>
  The steps of a started connection: an event of one of its sockets, the resumption of a routine, a
  call of the page, an answer of the decoder (at most one for each frame), a timer.
\<close>

inductive conn_step :: "env \<Rightarrow> site \<Rightarrow> conn \<Rightarrow> conn \<Rightarrow> bool" for e p where
  step_wire: "conn_step e p c (put_sock j (ws_input e x (socks c ! j)) c)"
| step_resume: "r < length (routines c) \<Longrightarrow> conn_step e p c (resume e p now f r c)"
| step_call: "(\<And>i. k \<noteq> Start i) \<Longrightarrow> conn_step e p c (fst (do_call e p desktop now k c))"
| step_loaded: "conn_step e p c (decoder_loaded c)"
| step_decoded: "b < length (batches c) \<Longrightarrow> fst (batches c ! b) < fst (snd (batches c ! b)) \<Longrightarrow>
    conn_step e p c (frame_decoded e now ok fb b c)"
| step_typing: "i < length (typing c) \<Longrightarrow> conn_step e p c (type_next e i c)"
| step_interval: "conn_step e p c (interval e c)"

text \<open>A connection as \<open>startConn\<close> makes it: new, and started at once.\<close>

inductive conn_reachable :: "env \<Rightarrow> site \<Rightarrow> string \<Rightarrow> conn \<Rightarrow> bool" for e p i where
  reach_start: "conn_reachable e p i (start p i (new_conn st))"
| reach_step: "conn_reachable e p i c \<Longrightarrow> conn_step e p c d \<Longrightarrow> conn_reachable e p i d"

end
