(* ===== verification/Handshake.thy ===== *)
theory Handshake
  imports Connection
begin

text \<open>
  Invariants of a connection over all its steps. The locale \<open>wire_invariant\<close> states once what a property
  of sockets, phases and effects must satisfy to hold throughout; it is interpreted for the shape of
  the state, for the authenticity of keys and for the sealing of frames.
\<close>

subsection \<open>The shape of the state\<close>

fun relay_of :: "phase \<Rightarrow> nat option" where
  "relay_of (OpeningRelay j pk uuid) = Some j"
| "relay_of _ = None"

definition relays :: "conn \<Rightarrow> nat list" where
  "relays c = List.map_filter relay_of (routines c)"

fun phase_wf :: "sock list \<Rightarrow> phase \<Rightarrow> bool" where
  "phase_wf ss (OpeningRdv j) = (j < length ss \<and> isRendezvous (ss ! j))"
| "phase_wf ss (AwaitPunch j since) = (j < length ss)"
| "phase_wf ss (OpeningRelay j pk uuid) = (j < length ss \<and> \<not> isRendezvous (ss ! j) \<and> secretKey (ss ! j) = None)"
| "phase_wf ss (AwaitSignedId j since pk) = (j < length ss)"
| "phase_wf ss (Looping j since) = (j < length ss)"
| "phase_wf ss Finished = True"

definition conn_wf :: "conn \<Rightarrow> bool" where
  "conn_wf c =
     (copts c \<noteq> None \<and> cmsgs c = [] \<and> fst (cspeed c) < 30
      \<and> (\<exists>j < length (socks c). cws c = Some j \<and> j \<notin> set (relays c))
      \<and> distinct (relays c) \<and> list_all (phase_wf (socks c)) (routines c))"

lemma conn_wfI:
  assumes "copts c \<noteq> None" "cmsgs c = []" "fst (cspeed c) < 30" "cws c = Some j" "j < length (socks c)"
    "j \<notin> set (relays c)" "distinct (relays c)" "list_all (phase_wf (socks c)) (routines c)"
  shows "conn_wf c"
  using assms by (auto simp: conn_wf_def)

text \<open>A step of a socket that gives it no key and leaves its kind.\<close>

definition tame :: "sock \<Rightarrow> sock \<Rightarrow> bool" where
  "tame s t = (isRendezvous t = isRendezvous s \<and> (secretKey s = None \<longrightarrow> secretKey t = None))"

lemma tame_refl [simp]: "tame s s"
  by (simp add: tame_def)

lemma ws_send_Some: "ws_send d s = Some t \<Longrightarrow> \<exists>l. t = s\<lparr>sent := l\<rparr>"
proof -
  assume "ws_send d s = Some t"
  then have "t = s\<lparr>sent := sent s @ [d]\<rparr> \<or> t = s\<lparr>sent := sent s\<rparr>"
    by (auto simp: ws_send_def split: ready_state.splits)
  then show ?thesis by blast
qed

lemma sendMessage_open: "sendMessage e m s = (t, None) \<Longrightarrow> readyState t \<noteq> CONNECTING"
  by (auto simp: sendMessage_def ws_send_def Let_def split: option.splits ready_state.splits)

lemma send_open:
  "send e m c = (d, None) \<Longrightarrow> cws d = Some j \<Longrightarrow> j < length (socks d) \<Longrightarrow> readyState (socks d ! j) \<noteq> CONNECTING"
  by (auto simp: send_def on_sock_def put_sock_def split_beta Let_def prod_eq_iff intro!: sendMessage_open split: option.splits)

lemma tame_socks:
  "tame s (fst (sendMessage e m s))" "tame s (fst (sendRendezvous e q s))" "tame s (ws_close s)"
  "tame s (s\<lparr>buf := b\<rparr>)" "tame s (ws_input e x s)"
proof -
  show "tame s (fst (sendMessage e m s))"
    by (auto simp: tame_def sendMessage_def Let_def split: option.split dest!: ws_send_Some)
  show "tame s (fst (sendRendezvous e q s))"
    by (auto simp: tame_def sendRendezvous_def split: option.split dest!: ws_send_Some)
  show "tame s (ws_close s)" "tame s (s\<lparr>buf := b\<rparr>)" by (simp_all add: tame_def ws_close_def)
  show "tame s (ws_input e x s)"
    by (cases x) (auto simp: tame_def ws_input_def on_open_def on_close_def on_error_def on_timeout_def settle_def
        recv_message_def Let_def split: option.split)
qed

lemma phase_wf_tame:
  "tame (ss ! j) t \<Longrightarrow> phase_wf ss ph \<Longrightarrow> phase_wf (ss[j := t]) ph"
proof -
  assume t: "tame (ss ! j) t" and wf: "phase_wf ss ph"
  have "i < length ss \<Longrightarrow> tame (ss ! i) (ss[j := t] ! i)" for i
    using t by (cases "i = j") auto
  then show ?thesis using wf by (cases ph) (auto simp: tame_def)
qed

lemma phase_wf_more: "phase_wf ss ph \<Longrightarrow> phase_wf (ss @ [s]) ph"
  by (cases ph) (auto simp: nth_append)

lemma set_relays: "j \<in> set (relays c) \<longleftrightarrow> (\<exists>pk uuid. OpeningRelay j pk uuid \<in> set (routines c))"
proof -
  have "relay_of ph = Some j \<longleftrightarrow> (\<exists>pk uuid. ph = OpeningRelay j pk uuid)" for ph by (cases ph) auto
  moreover have "j \<in> set (List.map_filter relay_of xs) \<longleftrightarrow> (\<exists>ph \<in> set xs. relay_of ph = Some j)" for xs
    by (induction xs) (auto simp: map_filter_simps split: option.split)
  ultimately show ?thesis by (auto simp: relays_def)
qed

lemma map_filter_update_None:
  assumes "f x = None" "r < length xs"
  shows "List.map_filter f (xs[r := x]) = List.map_filter f (take r xs) @ List.map_filter f (drop (Suc r) xs)"
  using assms by (simp add: upd_conv_take_nth_drop map_filter_def)

lemma map_filter_split:
  "r < length xs \<Longrightarrow> List.map_filter f xs =
    List.map_filter f (take r xs) @ (case f (xs ! r) of None \<Rightarrow> [] | Some y \<Rightarrow> [y]) @ List.map_filter f (drop (Suc r) xs)"
  by (subst id_take_nth_drop [of r xs]) (auto simp: map_filter_def split: option.split)

lemma relays_set_phase:
  assumes "relay_of ph = None" "distinct (relays c)"
  shows "set (relays (set_phase r ph c)) \<subseteq> set (relays c)" "distinct (relays (set_phase r ph c))"
proof -
  have "set (relays (set_phase r ph c)) \<subseteq> set (relays c) \<and> distinct (relays (set_phase r ph c))"
  proof (cases "r < length (routines c)")
    case True
    then show ?thesis
      using assms map_filter_split [OF True, of relay_of] map_filter_update_None [of relay_of ph, OF assms(1) True]
      by (auto simp: relays_def set_phase_def)
  qed (use assms in \<open>simp add: relays_def set_phase_def list_update_beyond\<close>)
  then show "set (relays (set_phase r ph c)) \<subseteq> set (relays c)" "distinct (relays (set_phase r ph c))" by auto
qed

lemma relays_set_phase_relay:
  assumes "relay_of ph = Some j" "distinct (relays c)" "j \<notin> set (relays c)"
  shows "set (relays (set_phase r ph c)) \<subseteq> insert j (set (relays c))" "distinct (relays (set_phase r ph c))"
proof -
  have "set (relays (set_phase r ph c)) \<subseteq> insert j (set (relays c)) \<and> distinct (relays (set_phase r ph c))"
  proof (cases "r < length (routines c)")
    case True
    then have "relays (set_phase r ph c) =
        List.map_filter relay_of (take r (routines c)) @ j # List.map_filter relay_of (drop (Suc r) (routines c))"
      using assms(1) by (simp add: relays_def set_phase_def upd_conv_take_nth_drop map_filter_def)
    then show ?thesis using assms map_filter_split [OF True, of relay_of] by (auto simp: relays_def)
  qed (use assms in \<open>auto simp: relays_def set_phase_def list_update_beyond\<close>)
  then show "set (relays (set_phase r ph c)) \<subseteq> insert j (set (relays c))" "distinct (relays (set_phase r ph c))" by auto
qed

lemma relay_taken:
  assumes "r < length (routines c)" "routines c ! r = OpeningRelay j pk uuid" "distinct (relays c)"
  shows "j \<notin> set (relays (set_phase r Finished c))"
  using assms map_filter_split [OF assms(1), of relay_of] map_filter_update_None [of relay_of Finished, OF _ assms(1)]
  by (auto simp: relays_def set_phase_def)

declare steps.simps [simp del]

lemma put_sock_quiet:
  "put_sock j s (c\<lparr>cmsgs := [], cinterval := f\<rparr>) = (put_sock j s c)\<lparr>cmsgs := [], cinterval := f\<rparr>"
  by (simp add: put_sock_def)

subsection \<open>What the operations may do\<close>

text \<open>
  Every operation but the resumption of a routine and the start of one is made of sending, of effects
  other than the report of a protected connection, of closing the current socket and of changes of
  fields that no routine reads. What these keep, all operations keep.
\<close>

locale conn_frame =
  fixes e :: env and inv :: "conn \<Rightarrow> bool"
  assumes inv_send: "inv c \<Longrightarrow> inv (fst (send e m c))"
    and inv_emit: "inv c \<Longrightarrow> x \<noteq> ready_event True \<Longrightarrow> inv (emit x c)"
    and inv_ws_close: "inv c \<Longrightarrow> inv (put_sock j (ws_close (socks c ! j)) c)"
    and inv_opts: "inv c \<Longrightarrow> inv (c\<lparr>copts := Some o', cstore := st\<rparr>)"
    and inv_login_fields: "inv c \<Longrightarrow> inv (c\<lparr>cpass := a\<rparr>)" "inv c \<Longrightarrow> inv (c\<lparr>chash := h\<rparr>)" "inv c \<Longrightarrow> inv (c\<lparr>cpeer := q\<rparr>)"
    and inv_video_fields: "inv c \<Longrightarrow> inv (c\<lparr>cfirst := f\<rparr>)" "inv c \<Longrightarrow> inv (c\<lparr>batches := bs\<rparr>)"
      "inv c \<Longrightarrow> inv (c\<lparr>cdecoder := f\<rparr>)"
    and inv_typing: "inv c \<Longrightarrow> inv (c\<lparr>typing := ts\<rparr>)"
    and inv_quiet: "inv c \<Longrightarrow> inv (c\<lparr>cmsgs := [], cinterval := f\<rparr>)"
    and inv_speed: "inv c \<Longrightarrow> inv (c\<lparr>cspeed := count_frame n (cspeed c)\<rparr>)"
begin

lemmas inv_fields [simp] = inv_opts inv_login_fields inv_video_fields inv_typing inv_quiet

lemma inv_box: "inv c \<Longrightarrow> inv (box t ti tx c)"
  by (simp add: box_def inv_emit ready_event_def)

lemma inv_steps: "inv c \<Longrightarrow> (\<And>f c. f \<in> set fs \<Longrightarrow> inv c \<Longrightarrow> inv (fst (f c))) \<Longrightarrow> inv (fst (steps fs c))"
proof (induction fs arbitrary: c)
  case (Cons f fs)
  have "inv (fst (f c))" using Cons.prems by simp
  then show ?case using Cons.IH Cons.prems(2) by (auto simp: steps.simps split: prod.split option.split)
qed (simp add: steps.simps)

lemma inv_with_opts: "inv c \<Longrightarrow> (\<And>o'. copts c = Some o' \<Longrightarrow> inv (fst (f o' c))) \<Longrightarrow> inv (fst (with_opts f c))"
  by (auto simp: with_opts_def split: option.split)

lemma inv_setOption: "inv c \<Longrightarrow> inv (fst (setOption now n v c))"
  by (simp add: setOption_def Let_def inv_with_opts)

lemma inv_input:
  assumes "inv c"
  shows "inv (fst (inputKey e d n dn pr a ct sh co c))" "inv (fst (ctrlAltDel e c))" "inv (fst (inputString e s c))"
    "inv (fst (lockScreen e c))" "inv (fst (switchDisplay e v c))" "inv (fst (inputMouse e bs x y a ct sh co c))"
    "inv (fst (click e bs x' y' c))" "inv (fst (refresh e c))" "inv (fst (sendVideoReceived e c))"
    "inv (fst (send_clear_key e c))"
  using assms by (simp_all add: inputKey_def ctrlAltDel_def inputString_def lockScreen_def switchDisplay_def
      inputMouse_def click_def refresh_def sendVideoReceived_def send_clear_key_def inv_send)

lemma inv_options:
  assumes "inv c"
  shows "inv (fst (setRemember now b c))" "inv (fst (toggleOption e now n c))" "inv (fst (setImageQuality e now q c))"
  using assms
  by (auto simp: setRemember_def toggleOption_def setImageQuality_def Let_def inv_setOption inv_send
      intro!: inv_with_opts inv_steps split: option.splits if_splits)

lemma inv_inputOsPassword: "inv c \<Longrightarrow> inv (inputOsPassword e s c)"
  using inv_input(7) [of c 0 0 0] by (auto simp: inputOsPassword_def split: prod.split option.split)

lemma inv_type_next: "inv c \<Longrightarrow> inv (type_next e n c)"
proof -
  assume c: "inv c"
  obtain stage s where t: "typing c ! n = (stage, s)" by fastforce
  have "inv (fst (type_stage e stage s c))"
    using c by (auto simp: type_stage_def inv_input inv_send intro!: inv_steps)
  then show ?thesis by (simp add: type_next_def t Let_def split_beta)
qed

lemma inv_login: "inv c \<Longrightarrow> inv (fst (login e s c))"
  by (auto simp: login_def sendLoginMessage_def Let_def inv_send inv_box intro!: inv_with_opts split: option.split prod.split)

lemma inv_handleHash: "inv c \<Longrightarrow> inv (fst (handleHash e now salt ch c))"
  by (auto simp: handleHash_def use_tmppwd_def Let_def inv_login inv_box inv_setOption
      intro!: inv_steps inv_with_opts split: option.split)

lemma inv_handlePeerInfo: "inv c \<Longrightarrow> inv (fst (handlePeerInfo e now info c))"
proof -
  assume c: "inv c"
  have "inv (emit (Push ''peer_info'' (data_payload info)) (box ''success'' ''Successful'' ''Connected, waiting for image...'' (c\<lparr>cpeer := Some info\<rparr>)))"
    using c by (simp add: inv_emit inv_box ready_event_def)
  then show ?thesis using c
    by (auto simp: handlePeerInfo_def auto_login_def keep_info_def keep_password_def Let_def inv_box inv_setOption
        inv_inputOsPassword intro!: inv_steps inv_with_opts split: option.split)
qed

lemma inv_decode: "inv c \<Longrightarrow> inv (fold (\<lambda>f. emit (Decode f)) fs c)"
  by (induction fs arbitrary: c) (simp_all add: inv_emit ready_event_def)

lemma inv_loadVideoDecoder: "inv c \<Longrightarrow> inv (loadVideoDecoder c)"
  by (simp add: loadVideoDecoder_def inv_emit ready_event_def)

lemma inv_handleVideoFrame: "inv c \<Longrightarrow> inv (fst (handleVideoFrame now vp9s c))"
  by (auto simp: handleVideoFrame_def first_frame_def Let_def inv_box inv_decode split: option.split)

lemma inv_frame_decoded: "inv c \<Longrightarrow> inv (frame_decoded e now ok fb n c)"
proof -
  assume c: "inv c"
  have "inv d \<Longrightarrow> inv ((draw d)\<lparr>cspeed := count_frame k (cspeed d)\<rparr>)" for d k
  proof -
    assume "inv d"
    then have "inv (draw d)" by (simp add: draw_def inv_emit ready_event_def)
    moreover have "cspeed (draw d) = cspeed d" by (simp add: draw_def emit_def)
    ultimately show ?thesis using inv_speed [of "draw d" k] by simp
  qed
  then show ?thesis using c
    by (auto simp: frame_decoded_def Let_def inv_input intro!: inv_steps split: prod.split)
qed

lemma inv_close: "inv c \<Longrightarrow> inv (close c)"
  by (auto simp: close_def Let_def ready_event_def put_sock_quiet intro!: inv_emit inv_quiet inv_ws_close split: option.split)

lemma inv_handleMisc: "inv c \<Longrightarrow> inv (fst (handleMisc m c))"
  by (cases m) (auto simp: inv_emit inv_box inv_close inv_loadVideoDecoder ready_event_def split: option.split)

lemma inv_handle_msg: "inv c \<Longrightarrow> inv (fst (fst (handle_msg e now m c)))"
proof -
  assume c: "inv c"
  have misc: "inv (fst (handleMisc x c))" for x using c by (rule inv_handleMisc)
  have "inv (fst (handleLogin e n err info c))" for n err info
    using c by (auto simp: handleLogin_def inv_box inv_handlePeerInfo split: option.split list.split)
  then show ?thesis using c misc
    by (cases m) (auto simp: handle_msg_def inv_handleHash inv_send inv_handleVideoFrame inv_emit ready_event_def Let_def
        split_beta split: option.split)
qed

end

subsection \<open>Invariants of the wire\<close>

text \<open>
  A property \<open>S\<close> of sockets, one \<open>P\<close> of phases and one \<open>E\<close> of effects, for a peer \<open>id0\<close>; the laws are
  what the steps need.
\<close>

locale wire_invariant =
  fixes e :: env and id0 :: string and S :: "sock \<Rightarrow> bool" and P :: "phase \<Rightarrow> bool" and E :: "effect \<Rightarrow> bool"
  assumes law_new: "S (ws_new uri b)"
    and law_message: "S s \<Longrightarrow> S (fst (sendMessage e m s))"
    and law_rdv: "S s \<Longrightarrow> isRendezvous s \<or> secretKey s = None \<Longrightarrow> S (fst (sendRendezvous e q s))"
    and law_close: "S s \<Longrightarrow> S (ws_close s)"
    and law_read: "S s \<Longrightarrow> S (s\<lparr>buf := l\<rparr>)"
    and law_input: "S s \<Longrightarrow> S (ws_input e x s)"
    and law_key: "P (AwaitSignedId j since pk) \<Longrightarrow> peer_box_key e id0 pk im = Inr (Some theirPk) \<Longrightarrow> S s \<Longrightarrow>
      readyState s \<noteq> CONNECTING \<Longrightarrow> S (setSecretKey k s)"
    and law_phase: "(\<And>j since pk. ph \<noteq> AwaitSignedId j since pk) \<Longrightarrow> P ph"
    and law_await: "server_key e key id0 pk0 = Some pk \<Longrightarrow> P (AwaitSignedId j since pk)"
    and law_effect: "y \<noteq> ready_event True \<Longrightarrow> E y"
    and law_ready: "P (AwaitSignedId j since pk) \<Longrightarrow> peer_box_key e id0 pk im = Inr (Some theirPk) \<Longrightarrow> E (ready_event True)"
begin

definition inv :: "conn \<Rightarrow> bool" where
  "inv c = (cid c = id0 \<and> conn_wf c \<and> list_all S (socks c) \<and> list_all P (routines c) \<and> list_all E (cout c))"

lemma inv_frame:
  assumes "inv c" "cid d = cid c" "socks d = socks c" "routines d = routines c" "cws d = cws c"
    "copts d \<noteq> None" "cmsgs d = []" "fst (cspeed d) < 30" "list_all E (cout d)"
  shows "inv d"
  using assms by (simp add: inv_def conn_wf_def relays_def)

lemma wire_emit: "inv c \<Longrightarrow> x \<noteq> ready_event True \<Longrightarrow> inv (emit x c)"
  by (simp add: inv_def conn_wf_def relays_def emit_def law_effect)

lemma inv_sock:
  assumes "inv c" "tame (socks c ! j) t" "j < length (socks c) \<Longrightarrow> S t"
  shows "inv (put_sock j t c)"
proof -
  have "list_all S ((socks c)[j := t])"
    using assms(1,3) set_update_subset_insert [of "socks c" j t]
    by (cases "j < length (socks c)") (auto simp: inv_def list_all_iff list_update_beyond)
  moreover have "list_all (phase_wf ((socks c)[j := t])) (routines c)"
    using assms(1,2) phase_wf_tame by (auto simp: inv_def conn_wf_def list_all_iff)
  ultimately show ?thesis using assms(1) by (simp add: inv_def conn_wf_def put_sock_def relays_def)
qed

lemma sock_S: "inv c \<Longrightarrow> j < length (socks c) \<Longrightarrow> S (socks c ! j)"
  by (simp add: inv_def list_all_length)

lemma wire_send: "inv c \<Longrightarrow> inv (fst (send e m c))"
  by (auto simp: send_def on_sock_def Let_def split_beta intro!: inv_sock law_message tame_socks sock_S split: option.split)

lemma wire_fields:
  assumes "inv c"
  shows "inv (c\<lparr>cpass := a\<rparr>)" "inv (c\<lparr>chash := b\<rparr>)" "inv (c\<lparr>cpeer := d\<rparr>)" "inv (c\<lparr>cfirst := f\<rparr>)"
    "inv (c\<lparr>cdecoder := f\<rparr>)" "inv (c\<lparr>cinterval := f\<rparr>)" "inv (c\<lparr>batches := bs\<rparr>)" "inv (c\<lparr>typing := ts\<rparr>)"
    "inv (c\<lparr>cmsgs := []\<rparr>)" "inv (c\<lparr>cmsgs := [], cinterval := f\<rparr>)" "inv (c\<lparr>copts := Some o', cstore := st\<rparr>)"
  using assms by (simp_all add: inv_def conn_wf_def relays_def)

lemma wire_speed: "inv c \<Longrightarrow> inv (c\<lparr>cspeed := count_frame n (cspeed c)\<rparr>)"
  by (simp add: inv_def conn_wf_def relays_def count_frame_def Let_def)

end

sublocale wire_invariant \<subseteq> conn_frame e inv
  by unfold_locales
    (auto simp: wire_send wire_emit wire_fields wire_speed intro!: inv_sock law_close sock_S tame_socks)

context wire_invariant
begin

lemma inv_close_fields: "inv c \<Longrightarrow> copts (close c) = copts c \<and> cid (close c) = cid c"
  by (simp add: close_def Let_def emit_def put_sock_def split: option.split)

lemma inv_interval: "inv c \<Longrightarrow> inv (interval e c)"
  by (simp add: interval_def inv_def conn_wf_def relays_def)

subsubsection \<open>Routines\<close>

lemma inv_set_phase:
  assumes "inv c" "relay_of ph = None" "phase_wf (socks c) ph" "P ph"
  shows "inv (set_phase r ph c)"
proof -
  have c: "conn_wf c" using assms(1) by (simp add: inv_def)
  then obtain j where j: "j < length (socks c)" "cws c = Some j" "j \<notin> set (relays c)" by (auto simp: conn_wf_def)
  have sub: "set ((routines c)[r := ph]) \<subseteq> insert ph (set (routines c))" by (rule set_update_subset_insert)
  have "conn_wf (set_phase r ph c)"
  proof (rule conn_wfI)
    show "j \<notin> set (relays (set_phase r ph c))" "distinct (relays (set_phase r ph c))"
      using relays_set_phase [OF assms(2)] c j(3) by (auto simp: conn_wf_def)
    show "list_all (phase_wf (socks (set_phase r ph c))) (routines (set_phase r ph c))"
      using c assms(3) sub by (auto simp: conn_wf_def set_phase_def list_all_iff)
  qed (use c j in \<open>auto simp: conn_wf_def set_phase_def\<close>)
  then show ?thesis using assms(1,4) sub by (auto simp: inv_def set_phase_def list_all_iff)
qed

lemma inv_finish: "inv c \<Longrightarrow> inv (set_phase r Finished c)"
  by (rule inv_set_phase) (auto intro: law_phase)

lemma inv_failed: "inv c \<Longrightarrow> inv (failed e r why c)"
  by (simp add: failed_def inv_finish inv_box)

lemma inv_go_on: "inv (fst a) \<Longrightarrow> (\<And>c. inv c \<Longrightarrow> snd a = None \<Longrightarrow> c = fst a \<Longrightarrow> inv (k c)) \<Longrightarrow> inv (go_on e r k a)"
  by (auto simp: go_on_def inv_failed split: prod.split option.split)

lemma inv_await:
  assumes "inv c" "\<And>j. relay_of (p j) = None" "\<And>j ss. phase_wf ss (p j) = (j < length ss)" "\<And>j. P (p j)"
  shows "inv (await_next r p c)"
proof -
  obtain j where j: "j < length (socks c)" "cws c = Some j" using assms(1) by (auto simp: inv_def conn_wf_def)
  have "inv (set_phase r (p j) c)" using assms j(1) by (intro inv_set_phase) auto
  then show ?thesis by (simp add: await_next_def j(2))
qed

lemma inv_begin_loop: "inv c \<Longrightarrow> (b \<Longrightarrow> E (ready_event True)) \<Longrightarrow> inv (begin_loop r now b c)"
proof -
  assume c: "inv c" and b: "b \<Longrightarrow> E (ready_event True)"
  have "E (ready_event b)" using b law_effect [of "ready_event False"] by (cases b) (auto simp: ready_event_def)
  then have "inv (emit (ready_event b) c)" using c by (simp add: inv_def conn_wf_def relays_def emit_def)
  then show ?thesis by (auto simp: begin_loop_def intro!: inv_await law_phase)
qed

lemma inv_connectRelay:
  assumes "inv c"
  shows "inv (connectRelay p r rr c)"
proof -
  let ?j = "length (socks c)"
  have c: "conn_wf c" using assms by (simp add: inv_def)
  have fresh: "?j \<notin> set (relays c)"
    using c by (fastforce simp: set_relays conn_wf_def list_all_iff)
  define d where "d uri = c\<lparr>socks := socks c @ [ws_new uri False]\<rparr>" for uri
  define ph where "ph = OpeningRelay ?j (rr_pk rr) (rr_uuid rr)"
  have new: "inv (set_phase r ph (d uri))" for uri
  proof -
    have eq: "relays (d uri) = relays c" "relays (set_phase r ph (d uri)) = relays (set_phase r ph c)"
      "routines (set_phase r ph (d uri)) = routines (set_phase r ph c)"
      by (simp_all add: d_def relays_def set_phase_def)
    have rel: "set (relays (set_phase r ph c)) \<subseteq> insert ?j (set (relays c))" "distinct (relays (set_phase r ph c))"
      using relays_set_phase_relay [of ph ?j c r] fresh c by (simp_all add: ph_def conn_wf_def)
    have sub: "set (routines (set_phase r ph c)) \<subseteq> insert ph (set (routines c))"
      by (simp add: set_phase_def set_update_subset_insert)
    obtain j where j: "j < ?j" "cws c = Some j" "j \<notin> set (relays c)" using c by (auto simp: conn_wf_def)
    have "conn_wf (set_phase r ph (d uri))"
    proof (rule conn_wfI)
      show "j \<notin> set (relays (set_phase r ph (d uri)))" using eq(2) rel(1) j by auto
      show "distinct (relays (set_phase r ph (d uri)))" using eq(2) rel(2) by simp
      have "phase_wf (socks c @ [ws_new uri False]) ph" by (simp add: ph_def nth_append ws_new_def)
      then show "list_all (phase_wf (socks (set_phase r ph (d uri)))) (routines (set_phase r ph (d uri)))"
        unfolding eq(3) using c sub phase_wf_more by (fastforce simp: conn_wf_def list_all_iff d_def set_phase_def)
    qed (use c j in \<open>auto simp: conn_wf_def d_def set_phase_def\<close>)
    moreover have "P ph" by (rule law_phase) (simp add: ph_def)
    ultimately show ?thesis using assms sub
      by (auto simp: inv_def list_all_iff d_def set_phase_def law_new)
  qed
  then show ?thesis by (simp add: connectRelay_def Let_def d_def ph_def)
qed

lemma inv_punched: "inv c \<Longrightarrow> inv (punched p r j m c)"
proof -
  assume c: "inv c"
  have "inv (put_sock j (ws_close (socks c ! j)) c)" using c by (intro inv_sock law_close sock_S tame_socks)
  then show ?thesis
    by (auto simp: punched_def Let_def inv_finish inv_box inv_connectRelay split: inbound.split rdv_in.split option.split)
qed

lemma inv_ws: "inv c \<Longrightarrow> j < length (socks c) \<Longrightarrow> j \<notin> set (relays c) \<Longrightarrow> inv (c\<lparr>cws := Some j\<rparr>)"
  by (simp add: inv_def conn_wf_def relays_def)

lemma inv_relay_open:
  assumes "inv c" "j < length (socks c)" "j \<notin> set (relays c)" "secretKey (socks c ! j) = None"
  shows "inv (relay_open e now r j pk uuid c)"
proof -
  let ?a = "on_sock j (sendRendezvous e (RequestRelay (item_or (cstore c) ''key'' []) uuid)) (c\<lparr>cws := Some j\<rparr>)"
  have "inv (c\<lparr>cws := Some j\<rparr>)" using assms(1-3) by (rule inv_ws)
  then have "inv (fst ?a)" using assms(2,4)
    by (auto simp: on_sock_def Let_def split_beta intro!: inv_sock tame_socks law_rdv sock_S [of "c\<lparr>cws := Some j\<rparr>", simplified])
  moreover have "inv (case server_key e (item_or (cstore d) ''key'' RS_PK) (cid d) pk of
      Some pk \<Rightarrow> await_next r (\<lambda>j. AwaitSignedId j now pk) d
    | None \<Rightarrow> go_on e r (begin_loop r now False) (send_clear_key e d))" if "inv d" for d
  proof -
    have "P (AwaitSignedId j now pk')" if "server_key e key (cid d) pk = Some pk'" for j key pk'
      using law_await that \<open>inv d\<close> by (simp add: inv_def)
    then show ?thesis
      using that by (auto intro!: inv_await inv_go_on inv_input inv_begin_loop split: option.split)
  qed
  ultimately show ?thesis unfolding relay_open_def by (intro inv_go_on)
qed

lemma send_cid: "cid (fst (send e m c)) = cid c"
  by (simp add: send_def on_sock_def put_sock_def Let_def split_beta split: option.split)

lemma inv_agree_keys:
  assumes "inv c" "P (AwaitSignedId j since pk)" "peer_box_key e (cid c) pk im = Inr (Some theirPk)"
  shows "inv (fst (agree_keys e f theirPk c)) \<and> cid (fst (agree_keys e f theirPk c)) = cid c"
proof -
  have id: "cid c = id0" using assms(1) by (simp add: inv_def)
  have key: "inv (fst (set_ws_key k d)) \<and> cid (fst (set_ws_key k d)) = cid d"
    if d: "inv d" "cid d = cid c" "\<And>j. cws d = Some j \<Longrightarrow> j < length (socks d) \<Longrightarrow> readyState (socks d ! j) \<noteq> CONNECTING" for k d
  proof -
    obtain j' where j': "j' < length (socks d)" "cws d = Some j'" "j' \<notin> set (relays d)"
      using d(1) by (auto simp: inv_def conn_wf_def)
    let ?t = "setSecretKey k (socks d ! j')"
    have "S ?t" using law_key [OF assms(2) assms(3) [unfolded id]] sock_S [OF d(1) j'(1)] d(3) [OF j'(2,1)] by simp
    moreover have "phase_wf ((socks d)[j' := ?t]) ph" if "ph \<in> set (routines d)" for ph
    proof -
      have wf: "phase_wf (socks d) ph" using d(1) that by (auto simp: inv_def conn_wf_def list_all_iff)
      have "i < length (socks d) \<Longrightarrow> isRendezvous ((socks d)[j' := ?t] ! i) = isRendezvous (socks d ! i)" for i
        by (cases "i = j'") (auto simp: setSecretKey_def)
      moreover have "ph \<noteq> OpeningRelay j' x y" for x y using that j'(3) set_relays by blast
      ultimately show ?thesis using wf by (cases ph) (auto simp: nth_list_update j'(1))
    qed
    ultimately have "inv (put_sock j' ?t d)"
      using d(1) j' set_update_subset_insert [of "socks d" j' ?t]
      by (auto simp: inv_def conn_wf_def put_sock_def relays_def list_all_iff)
    then show ?thesis by (simp add: set_ws_key_def j' on_sock_def put_sock_def)
  qed
  show ?thesis
  proof (cases "seal (crypto_box_easy e) (f_secret f) theirPk (f_sk f)")
    case (Some sealed)
    obtain d r where d: "send e (PublicKey (f_pk f) sealed) c = (d, r)" by fastforce
    then have "inv d" "cid d = cid c" using inv_send [OF assms(1)] send_cid by (metis fst_conv)+
    moreover have "r = None \<Longrightarrow> cws d = Some j \<Longrightarrow> j < length (socks d) \<Longrightarrow> readyState (socks d ! j) \<noteq> CONNECTING" for j
      using d send_open by metis
    ultimately show ?thesis using key [of d "f_secret f"]
      by (auto simp: agree_keys_def Some steps.simps d split: option.split prod.split)
  qed (simp add: agree_keys_def assms(1))
qed

lemma inv_signed_id:
  assumes "inv c" "P (AwaitSignedId j since pk)"
  shows "inv (signed_id e now f r pk m c)"
proof (cases "peer_box_key e (cid c) pk m")
  case (Inl why)
  then show ?thesis using assms(1) by (simp add: signed_id_def inv_failed)
next
  case (Inr k)
  show ?thesis
  proof (cases k)
    case None
    then show ?thesis using Inr assms(1) by (auto simp: signed_id_def intro!: inv_go_on inv_input inv_begin_loop)
  next
    case (Some theirPk)
    with Inr have eq: "peer_box_key e (cid c) pk m = Inr (Some theirPk)" by simp
    then have "E (ready_event True)" using law_ready [OF assms(2), of m theirPk] assms(1) by (simp add: inv_def)
    then show ?thesis
      using inv_agree_keys [OF assms eq] by (auto simp: signed_id_def eq intro!: inv_go_on inv_begin_loop)
  qed
qed

lemma inv_looped: "inv c \<Longrightarrow> inv (looped e now r m c)"
  using inv_handle_msg [of c now m] by (auto simp: looped_def split_beta Let_def intro!: inv_go_on inv_await inv_finish law_phase)

lemma inv_resume:
  assumes "inv c" "r < length (routines c)"
  shows "inv (resume e p now f r c)"
proof -
  have fin: "inv (set_phase r Finished (put_sock j s c))"
    if "next_poll since now (socks c ! j) = (Got m, s)" "j < length (socks c)" for j s m since
  proof -
    have "\<exists>l. s = (socks c ! j)\<lparr>buf := l\<rparr>" using that(1) by (auto simp: next_poll_def split: list.splits if_splits)
    then show ?thesis using assms(1) that(2) by (auto intro!: inv_finish inv_sock law_read tame_socks sock_S)
  qed
  have wf: "phase_wf (socks c) (routines c ! r)" "P (routines c ! r)" "distinct (relays c)"
    using assms by (auto simp: inv_def conn_wf_def list_all_length)
  note polls = polled_def inv_failed inv_punched inv_looped
  show ?thesis
  proof (cases "routines c ! r")
    case (OpeningRdv j)
    have "inv (go_on e r (set_phase r (AwaitPunch j now)) (on_sock j (sendRendezvous e (punch_hole_request d)) d))"
      if "d = set_phase r Finished c" for d
    proof -
      have d: "inv d" "socks d = socks c" using that assms(1) inv_finish by (auto simp: set_phase_def)
      then have "inv (fst (on_sock j (sendRendezvous e (punch_hole_request d)) d))"
        using wf(1) OpeningRdv sock_S [of d j]
        by (auto simp: on_sock_def Let_def split_beta intro!: inv_sock tame_socks law_rdv)
      then show ?thesis using wf(1) OpeningRdv d(2)
        by (intro inv_go_on) (auto simp: on_sock_def put_sock_def Let_def split_beta intro!: inv_set_phase law_phase)
    qed
    then show ?thesis using assms(1) by (auto simp: resume_def OpeningRdv opened_def inv_failed split: promise.split)
  next
    case (AwaitPunch j since)
    then show ?thesis using fin wf(1) assms(1) by (auto simp: resume_def polls split: poll.split prod.split)
  next
    case (OpeningRelay j pk uuid)
    have "inv (relay_open e now r j pk uuid (set_phase r Finished c))"
      using wf assms(1) relay_taken [OF assms(2) OpeningRelay wf(3)] OpeningRelay inv_finish
      by (intro inv_relay_open) (auto simp: set_phase_def)
    then show ?thesis using assms(1) by (auto simp: resume_def OpeningRelay opened_def inv_failed split: promise.split)
  next
    case (AwaitSignedId j since pk)
    have "inv (signed_id e now f r pk m' (set_phase r Finished (put_sock j s c)))"
      if "next_poll since now (socks c ! j) = (Got m, s)" for m s m'
      using fin [OF that] wf AwaitSignedId by (intro inv_signed_id) (auto simp: set_phase_def put_sock_def)
    then show ?thesis using assms(1) by (auto simp: resume_def AwaitSignedId polls split: poll.split prod.split)
  next
    case (Looping j since)
    then show ?thesis using fin wf(1) assms(1) by (auto simp: resume_def polls split: poll.split prod.split)
  qed (simp add: resume_def assms(1))
qed

lemma inv_restart:
  assumes "inv c"
  shows "inv (start p (cid c) c)"
proof -
  let ?j = "length (socks c)"
  obtain j where j: "j < ?j" "cws c = Some j" using assms by (auto simp: inv_def conn_wf_def)
  have fresh: "?j \<notin> set (relays c)" using assms by (fastforce simp: set_relays inv_def conn_wf_def list_all_iff)
  define d where "d = loadVideoDecoder (c\<lparr>cpass := stored_password c, cinterval := True\<rparr>)"
  have d: "inv d" "socks d = socks c" "routines d = routines c" "cid d = cid c" "relays d = relays c" "cstore d = cstore c"
    using assms inv_loadVideoDecoder [of "c\<lparr>cpass := stored_password c, cinterval := True\<rparr>"]
    by (simp_all add: d_def loadVideoDecoder_def emit_def relays_def inv_def conn_wf_def)
  define n where "n u = d\<lparr>socks := socks c @ [ws_new u True], cws := Some ?j, cid := cid c,
    routines := routines c @ [OpeningRdv ?j]\<rparr>" for u
  have "inv (n u)" for u
  proof -
    have rel: "relays (n u) = relays c" by (simp add: n_def relays_def map_filter_def)
    have "conn_wf (n u)"
    proof (rule conn_wfI)
      show "list_all (phase_wf (socks (n u))) (routines (n u))"
        using d(1) phase_wf_more by (auto simp: n_def inv_def conn_wf_def d(2,3) list_all_iff ws_new_def)
      show "?j \<notin> set (relays (n u))" "distinct (relays (n u))"
        using fresh assms by (simp_all add: rel inv_def conn_wf_def)
    qed (use d(1) in \<open>auto simp: n_def inv_def conn_wf_def\<close>)
    then show ?thesis using d(1) law_new law_phase [of "OpeningRdv ?j"]
      by (auto simp: inv_def n_def d(2,3,4) list_all_iff)
  qed
  moreover have "\<exists>u. start p (cid c) c = n u"
    using assms d by (auto simp: start_def n_def d_def inv_def conn_wf_def Let_def)
  ultimately show ?thesis by auto
qed

lemma inv_started: "inv (start p id0 (new_conn st))"
proof -
  have "E LoadDecoder" by (rule law_effect) (simp add: ready_event_def)
  moreover have "isRendezvous (ws_new u True)" for u by (simp add: ws_new_def)
  ultimately show ?thesis
    by (simp add: inv_def conn_wf_def start_def new_conn_def loadVideoDecoder_def emit_def relays_def map_filter_simps
        law_new law_phase)
qed

lemma inv_do_call: "inv c \<Longrightarrow> (\<And>i. k \<noteq> Start i) \<Longrightarrow> inv (fst (do_call e p desktop now k c))"
proof -
  assume c: "inv c" and k: "\<And>i. k \<noteq> Start i"
  have "inv (reconnect p c)"
    using inv_restart [OF inv_close [OF c]] inv_close_fields [OF c] by (simp add: reconnect_def)
  then show ?thesis using c k
    by (cases k) (auto simp: inv_close inv_options inv_login inv_input inv_setOption inv_inputOsPassword
        split: jsval.split list.split)
qed

lemma inv_step: "conn_step e p c d \<Longrightarrow> inv c \<Longrightarrow> inv d"
  by (induction rule: conn_step.induct)
    (auto simp: inv_resume inv_do_call inv_frame_decoded inv_type_next inv_interval decoder_loaded_def
      intro!: inv_sock tame_socks law_input sock_S)

theorem reachable_inv: "conn_reachable e p id0 c \<Longrightarrow> inv c"
  by (induction rule: conn_reachable.induct) (auto simp: inv_started inv_step)

end

end
