(* ===== verification/Session.thy ===== *)
theory Session
  imports Handshake
begin

text \<open>
  What holds of every connection, however its sockets, its peer and the page behave: the shape of its
  state, the authenticity of its keys, the sealing of what it sends, and the order of its phases, which
  refines an abstract protocol.
\<close>

subsection \<open>Executable runs\<close>

datatype event = Wire nat ws_input | Resume nat nat fresh | Call int conn_call | Loaded

fun do_event :: "env \<Rightarrow> site \<Rightarrow> event \<Rightarrow> conn \<Rightarrow> conn" where
  "do_event e p (Wire j x) c = put_sock j (ws_input e x (socks c ! j)) c"
| "do_event e p (Resume r now f) c = (if r < length (routines c) then resume e p now f r c else c)"
| "do_event e p (Call now k) c = (case k of Start i \<Rightarrow> c | _ \<Rightarrow> fst (do_call e p True now k c))"
| "do_event e p Loaded c = decoder_loaded c"

definition run :: "env \<Rightarrow> site \<Rightarrow> event list \<Rightarrow> conn \<Rightarrow> conn" where
  "run e p xs c = fold (do_event e p) xs c"

lemma do_event_step: "do_event e p x c = c \<or> conn_step e p c (do_event e p x c)"
proof (cases x)
  case (Call now k)
  then show ?thesis using step_call [of k e p c True now] by (cases k) auto
qed (auto intro: conn_step.intros)

lemma run_reachable: "conn_reachable e p i c \<Longrightarrow> conn_reachable e p i (run e p xs c)"
proof (induction xs arbitrary: c)
  case (Cons x xs)
  then show ?case using do_event_step [of e p x c] reach_step by (fastforce simp: run_def)
qed (simp add: run_def)

lemma run_start: "conn_reachable e p i (run e p xs (start p i (new_conn st)))"
  by (rule run_reachable) (rule reach_start)

subsection \<open>The shape of the state\<close>

interpretation shape: wire_invariant e i "\<lambda>_. True" "\<lambda>_. True" "\<lambda>_. True" for e i
  by unfold_locales auto

lemma reachable_wf: "conn_reachable e p i c \<Longrightarrow> conn_wf c \<and> cid c = i"
  using shape.reachable_inv unfolding shape.inv_def by blast

subsection \<open>Keys\<close>

text \<open>
  What the connection may take for the peer's key: a record the rendezvous server signed leads to a
  signing key, and a record signed with that one names the peer and its box key.
\<close>

definition trusted_key :: "env \<Rightarrow> string \<Rightarrow> bytes \<Rightarrow> bool" where
  "trusted_key e i pk = (\<exists>key sig. server_key e key i (Some sig) = Some pk)"

definition authenticated :: "env \<Rightarrow> string \<Rightarrow> bytes \<Rightarrow> bool" where
  "authenticated e i theirPk =
     (\<exists>pk sig record. trusted_key e i pk \<and> crypto_sign_open e sig pk = Some record
        \<and> idpk_decode e record = Some (i, theirPk) \<and> length theirPk = 32)"

lemma peer_box_key_authentic:
  "trusted_key e i pk \<Longrightarrow> peer_box_key e i pk m = Inr (Some theirPk) \<Longrightarrow> authenticated e i theirPk"
proof -
  assume k: "trusted_key e i pk" and m: "peer_box_key e i pk m = Inr (Some theirPk)"
  from m obtain sig msg where "crypto_sign_open e sig pk = Some msg" "idpk_decode e msg = Some (i, theirPk)"
    "length theirPk = 32"
    by (auto simp: peer_box_key_def split: inmsg.splits option.splits if_splits)
  with k show ?thesis unfolding authenticated_def by blast
qed

lemma server_key_Some: "server_key e key i pk0 = Some pk \<Longrightarrow> trusted_key e i pk"
  by (cases pk0) (auto simp: trusted_key_def, simp add: server_key_def)

definition auth_sock :: "env \<Rightarrow> string \<Rightarrow> sock \<Rightarrow> bool" where
  "auth_sock e i s = (secretKey s = None \<or> (\<exists>theirPk. authenticated e i theirPk))"

fun auth_phase :: "env \<Rightarrow> string \<Rightarrow> phase \<Rightarrow> bool" where
  "auth_phase e i (AwaitSignedId j since pk) = trusted_key e i pk"
| "auth_phase e i _ = True"

definition auth_effect :: "env \<Rightarrow> string \<Rightarrow> effect \<Rightarrow> bool" where
  "auth_effect e i x = (x \<noteq> ready_event True \<or> (\<exists>theirPk. authenticated e i theirPk))"

lemma tame_auth: "tame s t \<Longrightarrow> auth_sock e i s \<Longrightarrow> auth_sock e i t"
  by (auto simp: tame_def auth_sock_def)

interpretation auth: wire_invariant e i "auth_sock e i" "auth_phase e i" "auth_effect e i" for e i
proof unfold_locales
  show "auth_phase e i ph" if "\<And>j since pk. ph \<noteq> AwaitSignedId j since pk" for ph
    using that by (cases ph) auto
  show "auth_sock e i (setSecretKey k s)" "auth_effect e i (ready_event True)"
    if "auth_phase e i (AwaitSignedId j since pk)" "peer_box_key e i pk im = Inr (Some theirPk)" for j since pk im theirPk k s
    using peer_box_key_authentic [of e i pk im theirPk] that by (auto simp: auth_sock_def auth_effect_def)
  show "auth_sock e i (ws_new uri b)" for uri b by (simp add: auth_sock_def ws_new_def)
qed (auto simp: auth_effect_def server_key_Some intro: tame_auth tame_socks)

subsection \<open>Sealing\<close>

text \<open>
  A relay socket with a key: it was opened, and while it is open the last frames it sent, as many as
  its counter says, are sealed under the nonces 1, 2, and so on.
\<close>

definition sealed_sock :: "env \<Rightarrow> sock \<Rightarrow> bool" where
  "sealed_sock e s =
     (isRendezvous s \<or> (case secretKey s of None \<Rightarrow> True
        | Some (k, n1, n2) \<Rightarrow> readyState s \<noteq> CONNECTING
            \<and> (readyState s = OPEN \<longrightarrow> (\<exists>pre ps. sent s = pre @ sealed_frames e k 0 ps \<and> length ps = n1))))"

lemma sealed_frames_snoc: "sealed_frames e k n (ps @ [p]) = sealed_frames e k n ps @ [seal_frame e k (n + length ps + 1) p]"
  by (simp add: sealed_frames_def nth_append)

lemma sealed_message:
  assumes "sealed_sock e s"
  shows "sealed_sock e (fst (sendMessage e m s))"
proof (cases "secretKey s")
  case None
  then show ?thesis using tame_socks(1) [of s e m] by (auto simp: sealed_sock_def tame_def)
next
  case (Some key)
  obtain k n1 n2 where k: "secretKey s = Some (k, n1, n2)" using Some by (cases key) auto
  show ?thesis
  proof (cases "isRendezvous s")
    case False
    then have c: "readyState s \<noteq> CONNECTING" using assms k by (simp add: sealed_sock_def)
    show ?thesis
    proof (cases "readyState s = OPEN")
      case True
      then obtain pre ps where "sent s = pre @ sealed_frames e k 0 ps" "length ps = n1"
        using assms k False by (auto simp: sealed_sock_def)
      then have "sent s @ [seal_frame e k (n1 + 1) (msg_encode e m)] = pre @ sealed_frames e k 0 (ps @ [msg_encode e m])"
        by (simp add: sealed_frames_snoc)
      then show ?thesis using True k \<open>length ps = n1\<close>
        by (auto simp: sealed_sock_def sendMessage_sealed intro!: exI [of _ pre, OF exI [of _ "ps @ [msg_encode e m]"]])
    qed (use c k in \<open>auto simp: sealed_sock_def sendMessage_def ws_send_def split: ready_state.split\<close>)
  qed (use tame_socks(1) [of s e m] in \<open>auto simp: sealed_sock_def tame_def\<close>)
qed

lemma recv_message_fields:
  "sent (recv_message e d s) = sent s" "readyState (recv_message e d s) = readyState s"
  "isRendezvous (recv_message e d s) = isRendezvous s"
  "secretKey (recv_message e d s) = map_option (\<lambda>(k, n1, n2). (k, n1, n2 + 1)) (secretKey s)"
  by (auto simp: recv_message_def Let_def split: option.split)

lemma sealed_input: "sealed_sock e s \<Longrightarrow> sealed_sock e (ws_input e x s)"
  by (cases x) (auto simp: sealed_sock_def ws_input_def on_open_def on_close_def on_error_def on_timeout_def settle_def
      recv_message_fields split: option.splits)

interpretation sealing: wire_invariant e i "sealed_sock e" "\<lambda>_. True" "\<lambda>_. True" for e i
proof unfold_locales
  show "sealed_sock e (setSecretKey k s)" if "readyState s \<noteq> CONNECTING" for k s
    using that by (auto simp: sealed_sock_def setSecretKey_def sealed_frames_def)
  show "sealed_sock e (fst (sendRendezvous e q s))" if "sealed_sock e s" "isRendezvous s \<or> secretKey s = None" for q s
    using tame_socks(2) [of s e q] that by (auto simp: sealed_sock_def tame_def)
  show "sealed_sock e (ws_close s)" if "sealed_sock e s" for s
    using that by (auto simp: sealed_sock_def ws_close_def split: option.splits)
  show "sealed_sock e (s\<lparr>buf := l\<rparr>)" if "sealed_sock e s" for s l
    using that by (auto simp: sealed_sock_def split: option.splits)
qed (auto simp: sealed_message sealed_input, simp add: sealed_sock_def ws_new_def)

subsection \<open>The order of the phases\<close>

text \<open>
  The abstract protocol: a list of attempts, each of which goes through its stages in order or ends.
  Only an attempt whose key is verified waits for the peer's identity.
\<close>

datatype stage = Dialling | Punching | Relaying | Verifying | Talking | Ended

inductive advance :: "stage \<Rightarrow> stage \<Rightarrow> bool" where
  "advance Dialling Punching"
| "advance Punching Relaying"
| "advance Relaying Verifying"
| "advance Relaying Talking"
| "advance Verifying Talking"
| "advance Talking Talking"
| "advance s Ended"

inductive attempts :: "stage list \<Rightarrow> stage list \<Rightarrow> bool" where
  idle: "attempts ss ss"
| dial: "attempts ss (ss @ [Dialling])"
| move: "r < length ss \<Longrightarrow> advance (ss ! r) s \<Longrightarrow> attempts ss (ss[r := s])"

fun stage_of :: "phase \<Rightarrow> stage" where
  "stage_of (OpeningRdv j) = Dialling"
| "stage_of (AwaitPunch j since) = Punching"
| "stage_of (OpeningRelay j pk uuid) = Relaying"
| "stage_of (AwaitSignedId j since pk) = Verifying"
| "stage_of (Looping j since) = Talking"
| "stage_of Finished = Ended"

definition stages :: "conn \<Rightarrow> stage list" where
  "stages c = map stage_of (routines c)"

interpretation quiet: conn_frame e "\<lambda>c. routines c = rs" for e rs
  by unfold_locales (auto simp: send_def on_sock_def put_sock_def emit_def Let_def split_beta split: option.split)

lemma interval_routines: "routines (interval e c) = routines c"
proof -
  have "routines (flush e ms d) = rs" if "routines d = rs" for ms d rs
    using that
  proof (induction ms arbitrary: d)
    case (Cons m ms)
    have "routines (fst (send e m (d\<lparr>cmsgs := m # ms\<rparr>))) = rs"
      by (rule quiet.inv_send) (simp add: Cons.prems)
    then show ?case using Cons.IH by (auto split: prod.split option.split)
  qed simp
  then show ?thesis by (simp add: interval_def)
qed

text \<open>What a resumed routine may become; the others stay.\<close>

definition others :: "nat \<Rightarrow> phase list \<Rightarrow> conn \<Rightarrow> bool" where
  "others r rs c = (\<exists>ph. routines c = rs[r := ph])"

definition becomes :: "nat \<Rightarrow> phase list \<Rightarrow> (phase \<Rightarrow> bool) \<Rightarrow> conn \<Rightarrow> bool" where
  "becomes r rs Q d = (\<exists>ph. routines d = rs[r := ph] \<and> (Q ph \<or> ph = Finished))"

lemma others_frame: "routines d = routines c \<Longrightarrow> others r rs d = others r rs c"
  by (simp add: others_def)

lemma becomes_set: "others r rs c \<Longrightarrow> Q ph \<or> ph = Finished \<Longrightarrow> becomes r rs Q (set_phase r ph c)"
  by (auto simp: becomes_def set_phase_def others_def)

lemma others_emit [simp]: "others r rs (emit x c) = others r rs c"
  by (simp add: others_def emit_def)

lemma others_send: "others r rs c \<Longrightarrow> others r rs (fst (send e m c))"
  using quiet.inv_send others_frame by metis

lemma becomes_failed: "others r rs c \<Longrightarrow> becomes r rs Q (failed e r why c)"
  by (simp add: failed_def box_def becomes_set)

lemma becomes_go_on:
  "others r rs (fst a) \<Longrightarrow> (\<And>c. others r rs c \<Longrightarrow> becomes r rs Q (k c)) \<Longrightarrow> becomes r rs Q (go_on e r k a)"
  by (cases a; cases "snd a") (auto simp: go_on_def becomes_failed)

lemma becomes_await: "others r rs c \<Longrightarrow> (\<And>j. Q (p j)) \<Longrightarrow> becomes r rs Q (await_next r p c)"
  by (simp add: await_next_def becomes_set split: option.split)

lemma becomes_loop: "others r rs c \<Longrightarrow> (\<And>j. Q (Looping j now)) \<Longrightarrow> becomes r rs Q (begin_loop r now b c)"
  by (simp add: begin_loop_def becomes_await)

lemma others_sock: "others r rs (fst (on_sock j f c)) = others r rs c" "others r rs (put_sock j s c) = others r rs c"
  by (simp_all add: on_sock_def put_sock_def others_def Let_def split_beta)

lemma becomes_clear:
  "others r rs c \<Longrightarrow> (\<And>j. Q (Looping j now)) \<Longrightarrow> becomes r rs Q (go_on e r (begin_loop r now False) (send_clear_key e c))"
  by (simp add: becomes_go_on becomes_loop send_clear_key_def others_send)

lemma becomes_relay_open:
  assumes "others r rs c" "\<And>j. Q (Looping j now)" "\<And>j pk. Q (AwaitSignedId j now pk)"
  shows "becomes r rs Q (relay_open e now r j pk uuid c)"
proof -
  have "others r rs (c\<lparr>cws := Some j\<rparr>)" using assms(1) by (simp add: others_def)
  then show ?thesis unfolding relay_open_def
    using assms(2,3) by (intro becomes_go_on) (auto simp: others_sock becomes_clear becomes_await split: option.split)
qed

lemma others_agree: "others r rs c \<Longrightarrow> others r rs (fst (agree_keys e f theirPk c))"
proof -
  assume c: "others r rs c"
  have "routines (fst (agree_keys e f theirPk c)) = routines c"
  proof (cases "seal (crypto_box_easy e) (f_secret f) theirPk (f_sk f)")
    case (Some sealed)
    have "routines (fst (steps [send e (PublicKey (f_pk f) sealed), set_ws_key (f_secret f)] c)) = routines c"
      by (rule quiet.inv_steps)
        (auto simp: quiet.inv_send set_ws_key_def on_sock_def put_sock_def split: option.split)
    then show ?thesis by (simp add: agree_keys_def Some)
  qed (simp add: agree_keys_def)
  then show ?thesis using c others_frame by metis
qed

lemma becomes_signed_id:
  "others r rs c \<Longrightarrow> (\<And>j. Q (Looping j now)) \<Longrightarrow> becomes r rs Q (signed_id e now f r pk m c)"
  by (simp add: signed_id_def becomes_failed becomes_clear becomes_go_on becomes_loop others_agree split: sum.split option.split)

lemma becomes_looped: "others r rs c \<Longrightarrow> (\<And>j. Q (Looping j now)) \<Longrightarrow> becomes r rs Q (looped e now r m c)"
proof -
  assume c: "others r rs c" and Q: "\<And>j. Q (Looping j now)"
  have "routines (fst (fst (handle_msg e now m c))) = routines c" by (rule quiet.inv_handle_msg) simp
  then have "others r rs (fst (fst (handle_msg e now m c)))" using c others_frame by metis
  then show ?thesis using Q
    by (auto simp: looped_def split_beta Let_def intro!: becomes_go_on becomes_await becomes_set)
qed

lemma becomes_punched:
  "others r rs c \<Longrightarrow> (\<And>j pk uuid. Q (OpeningRelay j pk uuid)) \<Longrightarrow> becomes r rs Q (punched p r j m c)"
proof -
  assume c: "others r rs c" and Q: "\<And>j pk uuid. Q (OpeningRelay j pk uuid)"
  have "becomes r rs Q (connectRelay p r rr d)" if "others r rs d" for rr d
    unfolding connectRelay_def Let_def using that Q by (intro becomes_set) (auto simp: others_def)
  then show ?thesis using c
    by (auto simp: punched_def Let_def box_def others_sock intro!: becomes_set split: inbound.split rdv_in.split option.split)
qed

lemma others_finished: "others r (routines c) (set_phase r Finished c)" "others r (routines c) (set_phase r Finished (put_sock j s c))"
  by (auto simp: others_def set_phase_def put_sock_def)

lemma others_self: "others r (routines c) c"
  unfolding others_def by (rule exI [of _ "routines c ! r"]) simp

lemma resume_advances:
  assumes "r < length (routines c)"
  shows "routines (resume e p now f r c) = routines c
    \<or> becomes r (routines c) (\<lambda>ph. advance (stage_of (routines c ! r)) (stage_of ph)) (resume e p now f r c)"
proof (cases "routines c ! r")
  case (OpeningRdv j)
  then show ?thesis
    by (auto simp: resume_def opened_def others_sock intro!: becomes_failed others_self becomes_go_on becomes_set
        others_finished advance.intros split: promise.split)
next
  case (AwaitPunch j since)
  then show ?thesis
    by (auto simp: resume_def polled_def intro!: becomes_failed others_self becomes_punched others_finished advance.intros
        split: poll.split prod.split)
next
  case (OpeningRelay j pk uuid)
  then show ?thesis
    by (auto simp: resume_def opened_def intro!: becomes_failed others_self becomes_relay_open others_finished advance.intros
        split: promise.split)
next
  case (AwaitSignedId j since pk)
  then show ?thesis
    by (auto simp: resume_def polled_def intro!: becomes_failed others_self becomes_signed_id others_finished advance.intros
        split: poll.split prod.split)
next
  case (Looping j since)
  then show ?thesis
    by (auto simp: resume_def polled_def intro!: becomes_failed others_self becomes_looped others_finished advance.intros
        split: poll.split prod.split)
qed (simp add: resume_def)

lemma start_routines: "routines (start p i c) = routines c @ [OpeningRdv (length (socks c))]"
  by (simp add: start_def Let_def loadVideoDecoder_def emit_def)

lemma call_stages: "(\<And>i. k \<noteq> Start i) \<Longrightarrow> attempts (stages c) (stages (fst (do_call e p desktop now k c)))"
proof -
  assume k: "\<And>i. k \<noteq> Start i"
  have close: "routines (close c) = routines c" by (rule quiet.inv_close) simp
  show ?thesis
  proof (cases "k = Reconnect")
    case True
    then show ?thesis using attempts.dial [of "stages c"] by (simp add: reconnect_def stages_def start_routines close)
  next
    case False
    then have "routines (fst (do_call e p desktop now k c)) = routines c"
      using k close by (cases k) (auto simp: quiet.inv_options quiet.inv_login quiet.inv_input quiet.inv_setOption
          quiet.inv_inputOsPassword split: jsval.split list.split)
    then show ?thesis by (simp add: stages_def attempts.idle)
  qed
qed


subsection \<open>A run\<close>

text \<open>
  An environment small enough to compute with: a signature is a first byte equal to that of the key, a
  record is a key of 32 bytes, of the peer \<open>7\<close>. In it a connection is run from its start to the loop.
\<close>

definition demo_key :: bytes where "demo_key = replicate 32 6"

definition demo_box :: bytes where "demo_box = replicate 32 8"

lemma demo_keys [simp]: "length demo_key = 32" "hd demo_key = 6" "demo_key \<noteq> []" "length demo_box = 32" "demo_box \<noteq> []"
  by (simp_all add: demo_key_def demo_box_def)

definition demo_msg :: "bytes \<Rightarrow> inmsg option" where
  "demo_msg b = (case b of [] \<Rightarrow> None
     | x # xs \<Rightarrow> if x = 1 then Some (SignedId xs) else if x = 2 then Some (HashIn ''s'' ''c'') else Some OtherMsg)"

definition demo_env :: env where
  "demo_env =
     \<lparr>msg_encode = (\<lambda>m. case m of PublicKey a b \<Rightarrow> 1 # a | LoginRequest a b c d x y \<Rightarrow> 2 # d | _ \<Rightarrow> [3]),
      msg_decode = demo_msg,
      rdv_encode = (\<lambda>m. case m of PunchHoleRequest a b c d x \<Rightarrow> [7] | RequestRelay a b \<Rightarrow> [9]),
      rdv_decode = (\<lambda>b. Some (RelayResponse \<lparr>rr_pk = Some b, rr_server = [], rr_uuid = ''u'', rr_version = ''1''\<rparr>)),
      idpk_decode = (\<lambda>b. if length b = 32 then Some (''7'', b) else None),
      secretbox_easy = (\<lambda>m n k. n @ m), secretbox_open_easy = (\<lambda>m n k. if take 24 m = n then Some (drop 24 m) else None),
      crypto_box_easy = (\<lambda>m n p k. Some m),
      crypto_sign_open = (\<lambda>m k. if m \<noteq> [] \<and> k \<noteq> [] \<and> hd m = hd k then Some (tl m) else None),
      from_base64 = (\<lambda>t. Some [5]), sha256 = (\<lambda>b. b), zstd_decode = (\<lambda>b n. None), text_decode = (\<lambda>b. []),
      error_text = (\<lambda>x. ''error'')\<rparr>"

lemma demo_fields [simp]:
  "msg_encode demo_env (PublicKey a b) = 1 # a" "msg_encode demo_env (LoginRequest x y z d q v) = 2 # d"
  "msg_decode demo_env = demo_msg" "rdv_encode demo_env (PunchHoleRequest p1 p2 p3 p4 p5) = [7]"
  "rdv_encode demo_env (RequestRelay p1 p2) = [9]"
  "rdv_decode demo_env r = Some (RelayResponse \<lparr>rr_pk = Some r, rr_server = [], rr_uuid = ''u'', rr_version = ''1''\<rparr>)"
  "idpk_decode demo_env r = (if length r = 32 then Some (''7'', r) else None)"
  "secretbox_easy demo_env m n k = n @ m"
  "crypto_box_easy demo_env m n r k = Some m"
  "crypto_sign_open demo_env m k = (if m \<noteq> [] \<and> k \<noteq> [] \<and> hd m = hd k then Some (tl m) else None)"
  "from_base64 demo_env t = Some [5]"
  by (simp_all add: demo_env_def)

definition demo_site :: site where "demo_site = \<lparr>https = False, hostname = ''h''\<rparr>"

definition demo_fresh :: fresh where "demo_fresh = \<lparr>f_sk = [1], f_pk = [2], f_secret = [3]\<rparr>"


definition demo_at :: "sock list \<Rightarrow> nat \<Rightarrow> phase \<Rightarrow> effect list \<Rightarrow> conn" where
  "demo_at ss j ph xs =
     \<lparr>cid = ''7'', copts = Some [], cpass = None, chash = None, cpeer = None, cfirst = False, cspeed = (0, 0),
      cdecoder = False, cmsgs = [], cinterval = True, socks = ss, cws = Some j, routines = [ph], batches = [],
      typing = [], cstore = Map.empty, cout = xs\<rparr>"

definition demo_sock :: "bool \<Rightarrow> ws_status \<Rightarrow> inbound list \<Rightarrow> (bytes \<times> nat \<times> nat) option \<Rightarrow> ready_state \<Rightarrow> promise \<Rightarrow> bytes list \<Rightarrow> sock" where
  "demo_sock rdv st b k rs pr l =
     \<lparr>s_uri = getDefaultUri demo_site Map.empty (\<not> rdv), isRendezvous = rdv, status = st, buf = b, secretKey = k, readyState = rs,
      listening = True, open_promise = pr, sent = l\<rparr>"

abbreviation step_to :: "event \<Rightarrow> conn \<Rightarrow> conn \<Rightarrow> bool" where
  "step_to x c d \<equiv> do_event demo_env demo_site x c = d"

definition demo_relay :: relay_response where
  "demo_relay = \<lparr>rr_pk = Some (5 # demo_key), rr_server = [], rr_uuid = ''u'', rr_version = ''1''\<rparr>"

definition demo_old :: sock where
  "demo_old = ws_close (demo_sock True Opened [] None OPEN Resolved [[7]])"

lemmas demo_simps = ws_input_def on_open_def settle_def recv_message_def parse_def ws_send_def sendMessage_def sendRendezvous_def ws_close_def next_poll_def setSecretKey_def demo_sock_def demo_at_def put_sock_def

lemma demo_start: "start demo_site ''7'' (new_conn Map.empty) = demo_at [demo_sock True Unset [] None CONNECTING Pending []] 0 (OpeningRdv 0) [LoadDecoder]"
  by (simp add: start_def new_conn_def getPeers_def stored_peers_def getItem_def stored_password_def loadVideoDecoder_def emit_def ws_new_def demo_at_def demo_sock_def)

lemma demo_step1: "step_to (Wire 0 WsOpen)
    (demo_at [demo_sock True Unset [] None CONNECTING Pending []] 0 (OpeningRdv 0) [LoadDecoder])
  
    (demo_at [demo_sock True Opened [] None OPEN Resolved []] 0 (OpeningRdv 0) [LoadDecoder])"
  by (simp add: demo_simps)

lemma demo_step2: "step_to (Resume 0 0 demo_fresh)
    (demo_at [demo_sock True Opened [] None OPEN Resolved []] 0 (OpeningRdv 0) [LoadDecoder])
  
    (demo_at [demo_sock True Opened [] None OPEN Resolved [[7]]] 0 (AwaitPunch 0 0) [LoadDecoder])"
  by (simp add: demo_simps resume_def opened_def set_phase_def go_on_def on_sock_def punch_hole_request_def)

lemma demo_step3: "step_to (Wire 0 (WsMessage (5 # demo_key)))
    (demo_at [demo_sock True Opened [] None OPEN Resolved [[7]]] 0 (AwaitPunch 0 0) [LoadDecoder])
  
    (demo_at [demo_sock True Opened [Rdv (RelayResponse demo_relay)] None OPEN Resolved [[7]]] 0 (AwaitPunch 0 0) [LoadDecoder])"
  by (simp add: demo_simps demo_relay_def)

lemma demo_step4: "step_to (Resume 0 1 demo_fresh)
    (demo_at [demo_sock True Opened [Rdv (RelayResponse demo_relay)] None OPEN Resolved [[7]]] 0 (AwaitPunch 0 0) [LoadDecoder])
  
    (demo_at [demo_old, demo_sock False Unset [] None CONNECTING Pending []] 0 (OpeningRelay 1 (Some (5 # demo_key)) ''u'') [LoadDecoder])"
  by (simp add: demo_simps resume_def polled_def set_phase_def punched_def connectRelay_def demo_relay_def demo_old_def ws_new_def)

lemma demo_step5: "step_to (Wire 1 WsOpen)
    (demo_at [demo_old, demo_sock False Unset [] None CONNECTING Pending []] 0 ph xs)
  
    (demo_at [demo_old, demo_sock False Opened [] None OPEN Resolved []] 0 ph xs)"
  by (simp add: demo_simps)

lemma demo_step6: "step_to (Resume 0 2 demo_fresh)
    (demo_at [demo_old, demo_sock False Opened [] None OPEN Resolved []] 0 (OpeningRelay 1 (Some (5 # demo_key)) ''u'') xs)
  
    (demo_at [demo_old, demo_sock False Opened [] None OPEN Resolved [[9]]] 1 (AwaitSignedId 1 2 demo_key) xs)"
  by (simp add: demo_simps resume_def opened_def set_phase_def relay_open_def go_on_def on_sock_def server_key_def verify_text_def await_next_def)

lemma demo_step7: "step_to (Wire 1 (WsMessage (1 # 6 # demo_box)))
    (demo_at [demo_old, demo_sock False Opened [] None OPEN Resolved [[9]]] 1 ph xs)
  
    (demo_at [demo_old, demo_sock False Opened [Msg (SignedId (6 # demo_box))] None OPEN Resolved [[9]]] 1 ph xs)"
  by (simp add: demo_simps demo_msg_def)

lemma demo_step8: "step_to (Resume 0 3 demo_fresh)
    (demo_at [demo_old, demo_sock False Opened [Msg (SignedId (6 # demo_box))] None OPEN Resolved [[9]]] 1 (AwaitSignedId 1 2 demo_key) xs)
  
    (demo_at [demo_old, demo_sock False Opened [] (Some ([3], 0, 0)) OPEN Resolved [[9], [1, 2]]] 1 (Looping 1 3) (xs @ [ready_event True]))"
  by (simp add: demo_simps resume_def polled_def set_phase_def signed_id_def go_on_def peer_box_key_def agree_keys_def seal_def demo_fresh_def steps.simps
     send_def on_sock_def set_ws_key_def begin_loop_def await_next_def emit_def)

lemma demo_step9: "step_to (Call 4 (Login (JStr [])))
    (demo_at [demo_old, demo_sock False Opened [] (Some ([3], 0, 0)) OPEN Resolved [[9], [1, 2]]] 1 ph xs)
    (demo_at [demo_old, demo_sock False Opened [] (Some ([3], 1, 0)) OPEN Resolved [[9], [1, 2], seal_frame demo_env [3] 1 [2]]] 1 ph xs)"
  by (simp add: demo_simps login_def sendLoginMessage_def with_opts_def send_def on_sock_def seal_frame_def)

definition demo_events :: "event list" where
  "demo_events =
     [Wire 0 WsOpen, Resume 0 0 demo_fresh, Wire 0 (WsMessage (5 # demo_key)), Resume 0 1 demo_fresh,
      Wire 1 WsOpen, Resume 0 2 demo_fresh, Wire 1 (WsMessage (1 # 6 # demo_box)), Resume 0 3 demo_fresh,
      Call 4 (Login (JStr []))]"

definition demo_conn :: conn where
  "demo_conn = run demo_env demo_site demo_events (start demo_site ''7'' (new_conn Map.empty))"

lemma demo_end:
  "demo_conn =
    (demo_at [demo_old, demo_sock False Opened [] (Some ([3], 1, 0)) OPEN Resolved [[9], [1, 2], seal_frame demo_env [3] 1 [2]]] 1
      (Looping 1 3) [LoadDecoder, ready_event True])"
  unfolding demo_conn_def run_def demo_events_def demo_start
  by (simp only: fold_simps demo_step1 demo_step2 demo_step3 demo_step4 demo_step5 demo_step6 demo_step7 demo_step8 demo_step9
      append.simps)

lemma demo_reachable: "conn_reachable demo_env demo_site ''7'' demo_conn"
  unfolding demo_conn_def by (rule run_start)

lemma demo_waits: "conn_reachable demo_env demo_site ''7''
    (demo_at [demo_old, demo_sock False Unset [] None CONNECTING Pending []] 0 (OpeningRelay 1 (Some (5 # demo_key)) ''u'') [LoadDecoder])"
proof -
  have "run demo_env demo_site [Wire 0 WsOpen, Resume 0 0 demo_fresh, Wire 0 (WsMessage (5 # demo_key)), Resume 0 1 demo_fresh] (start demo_site ''7'' (new_conn Map.empty)) =
    (demo_at [demo_old, demo_sock False Unset [] None CONNECTING Pending []] 0 (OpeningRelay 1 (Some (5 # demo_key)) ''u'') [LoadDecoder])"
    unfolding run_def demo_start by (simp only: fold_simps demo_step1 demo_step2 demo_step3 demo_step4)
  then show ?thesis using run_start by metis
qed


subsection \<open>Theorems\<close>

text \<open>
  C5: the state of every connection is well formed: its options are known, its queue is empty, its
  current socket exists and is not one that a routine still waits to open, no two routines open the
  same relay socket, each of these is unkeyed, every suspended routine awaits a socket that exists, and
  the counter of the speed test stays below thirty.
\<close>

theorem connection_well_formed:
  "conn_reachable e p i c \<Longrightarrow> conn_wf c \<and> cid c = i"
  using shape.reachable_inv unfolding shape.inv_def by blast

theorem connection_well_formed_witness: "conn_wf demo_conn"
  using connection_well_formed [OF demo_reachable] by simp





end
