(* ===== verification/Behaviour.thy ===== *)
theory Behaviour
  imports Session
begin

text \<open>
  What single operations of a connection do: how the loop and the connection end, what is remembered of
  a password, how frames are acknowledged, which keys and addresses are made.
\<close>

subsection \<open>The end of the loop\<close>

lemma handleMisc_goes_on:
  "snd (handleMisc m c) = (case m of PermissionInfo p b \<Rightarrow> p \<in> {0, 2, 3} | CloseReason r \<Rightarrow> r = [] | _ \<Rightarrow> True)"
  by (cases m) (auto simp: permission_name_def)

lemma next_poll_closed:
  "buf s = [] \<Longrightarrow> next_poll t now (ws_close s) = (Fail (Text []), ws_close s)"
  by (simp add: next_poll_def ws_close_def)

lemma close_fields:
  "routines (close c) = routines c" "cws (close c) = cws c" "cstore (close c) = cstore c" "cid (close c) = cid c"
  "length (socks (close c)) = length (socks c)"
  "socks (close c) ! j = (if cws c = Some j \<and> j < length (socks c) then ws_close (socks c ! j) else socks c ! j)"
proof -
  have "(socks c)[i := t] ! j = (if i = j \<and> j < length (socks c) then t else socks c ! j)" for i t
    by (cases "j < length (socks c)") (auto simp: nth_list_update, metis list_update_beyond not_le nth_list_update_neq)
  then show "socks (close c) ! j = (if cws c = Some j \<and> j < length (socks c) then ws_close (socks c ! j) else socks c ! j)"
    by (auto simp: close_def Let_def emit_def put_sock_def split: option.split)
qed (auto simp: close_def Let_def emit_def put_sock_def split: option.split)

lemma on_sock_send_open:
  assumes "j < length (socks c)" "readyState (socks c ! j) = OPEN"
  shows "on_sock j (sendRendezvous e q) c = (put_sock j ((socks c ! j)\<lparr>sent := sent (socks c ! j) @ [rdv_encode e q]\<rparr>) c, None)"
  using assms by (simp add: on_sock_def sendRendezvous_def ws_send_def)

lemma send_current_open:
  assumes "cws c = Some j" "j < length (socks c)" "readyState (socks c ! j) = OPEN" "secretKey (socks c ! j) = None"
  shows "send e m c = (put_sock j ((socks c ! j)\<lparr>sent := sent (socks c ! j) @ [msg_encode e m]\<rparr>) c, None)"
  using assms by (simp add: send_def on_sock_def sendMessage_def ws_send_def)

text \<open>A relay socket that opens is taken and used, whatever happened to the connection before.\<close>

lemma relay_opens:
  assumes "j < length (socks c)" "r < length (routines c)" "readyState (socks c ! j) = OPEN" "secretKey (socks c ! j) = None"
    and d_def: "d = relay_open e now r j pk uuid c"
  shows "cws d = Some j \<and> routines d ! r \<noteq> Finished
    \<and> rdv_encode e (RequestRelay (item_or (cstore c) ''key'' []) uuid) \<in> set (sent (socks d ! j))"
proof -
  let ?c = "c\<lparr>cws := Some j\<rparr>"
  let ?q = "RequestRelay (item_or (cstore c) ''key'' []) uuid"
  let ?t = "(socks c ! j)\<lparr>sent := sent (socks c ! j) @ [rdv_encode e ?q]\<rparr>"
  have a: "on_sock j (sendRendezvous e ?q) ?c = (put_sock j ?t ?c, None)"
    using on_sock_send_open [of j ?c] assms(1,3) by simp
  show ?thesis
  proof (cases "server_key e (item_or (cstore c) ''key'' RS_PK) (cid c) pk")
    case (Some k)
    then show ?thesis using assms(1,2) a
      by (simp add: d_def relay_open_def go_on_def await_next_def set_phase_def put_sock_def)
  next
    case None
    have "send_clear_key e (put_sock j ?t ?c) = (put_sock j (?t\<lparr>sent := sent ?t @ [msg_encode e (PublicKey [] [])]\<rparr>) (put_sock j ?t ?c), None)"
      unfolding send_clear_key_def
      using send_current_open [of "put_sock j ?t ?c" j e] assms(1,3,4) by (simp add: put_sock_def)
    then show ?thesis using None assms(1,2) a
      by (simp add: d_def relay_open_def go_on_def begin_loop_def await_next_def set_phase_def put_sock_def emit_def)
  qed
qed

subsection \<open>Passwords\<close>

lemma parse_bytes_text: "parse_bytes (bytes_text p) = Some p"
proof -
  let ?vs = "map (\<lambda>b. JNum (int (unat b))) p"
  have "json_text (JArr ?vs) = ''['' @ bytes_text p @ '']''"
    by (simp add: bytes_text_def show_int_def comp_def)
  moreover have "json_ok (JArr ?vs)" by (simp add: list_all_iff)
  ultimately have "JSON_parse (''['' @ bytes_text p @ '']'') = Parsed (JArr ?vs)"
    using JSON_round_trip [of "JArr ?vs"] by simp
  moreover have "map (\<lambda>v. case v of JNum n \<Rightarrow> word_of_int n | _ \<Rightarrow> 0) ?vs = p"
    by (simp add: comp_def)
  ultimately show ?thesis by (simp add: parse_bytes_def list_all_iff)
qed

lemma bytes_text_nonempty: "p \<noteq> [] \<Longrightarrow> bytes_text p \<noteq> []"
proof -
  assume "p \<noteq> []"
  then obtain b bs where "p = b # bs" by (cases p) auto
  then show ?thesis by (cases bs) (simp_all add: bytes_text_def)
qed

lemma json_ok_drop: "json_ok (JObj o') \<Longrightarrow> json_ok (JObj (drop_key k o'))"
  by (auto simp: drop_key_def list_all_iff distinct_map_filter)

lemma json_ok_changed:
  "json_ok (JObj o') \<Longrightarrow> nullish v \<or> json_ok v \<Longrightarrow> json_ok (JObj (changed_options now k v o'))"
  by (auto simp: changed_options_def simp del: json_ok.simps(3) intro!: json_ok_put json_ok_drop)

lemma get_drop_key: "get (drop_key k o') j = (if j = k then JUndef else get o' j)"
  by (induction o') (auto simp: drop_key_def)

lemma get_changed: "get (changed_options now k v o') j = (if j = ''tm'' then JNum now else if j = k then (if nullish v then JUndef else v) else get o' j)"
  by (auto simp: changed_options_def get_drop_key)

text \<open>What is written as the entry of a peer is read back by the next connection to it.\<close>

definition stored_options :: "storage \<Rightarrow> string \<Rightarrow> obj" where
  "stored_options st i = as_obj (get (getPeers st) i)"

lemma setOption_stored:
  assumes "copts c = Some o'" "json_ok (JObj (getPeers (cstore c)))" "json_ok (JObj o')" "nullish v \<or> json_ok v"
  shows "setOption now k v c = (c\<lparr>copts := Some (changed_options now k v o'),
      cstore := setPeers (put (getPeers (cstore c)) (cid c) (JObj (changed_options now k v o'))) (cstore c)\<rparr>, None)"
    and "stored_options (setPeers (put (getPeers (cstore c)) (cid c) (JObj (changed_options now k v o'))) (cstore c)) (cid c) =
      changed_options now k v o'"
    and "json_ok (JObj (getPeers (setPeers (put (getPeers (cstore c)) (cid c) (JObj (changed_options now k v o'))) (cstore c))))"
proof -
  show "setOption now k v c = (c\<lparr>copts := Some (changed_options now k v o'),
      cstore := setPeers (put (getPeers (cstore c)) (cid c) (JObj (changed_options now k v o'))) (cstore c)\<rparr>, None)"
    by (simp add: setOption_def with_opts_def assms(1) Let_def)
  have ok: "json_ok (JObj (put (getPeers (cstore c)) (cid c) (JObj (changed_options now k v o'))))"
    using assms(2) json_ok_changed [OF assms(3,4)] by (rule json_ok_put)
  then show "stored_options (setPeers (put (getPeers (cstore c)) (cid c) (JObj (changed_options now k v o'))) (cstore c)) (cid c) =
      changed_options now k v o'"
    "json_ok (JObj (getPeers (setPeers (put (getPeers (cstore c)) (cid c) (JObj (changed_options now k v o'))) (cstore c))))"
    using stored_setPeers [OF ok] by (simp_all add: stored_options_def getPeers_def del: json_ok.simps(3))
qed

lemma inputOsPassword_fields:
  "copts (inputOsPassword e s c) = copts c" "cstore (inputOsPassword e s c) = cstore c"
  "cpass (inputOsPassword e s c) = cpass c" "cid (inputOsPassword e s c) = cid c"
  by (simp_all add: inputOsPassword_def click_def inputMouse_def send_def on_sock_def put_sock_def Let_def split_beta
      split: option.split prod.split)

lemma auto_login_fields:
  assumes "copts c = Some o'"
  shows "\<exists>d. auto_login e c = (d, None) \<and> copts d = Some o' \<and> cstore d = cstore c \<and> cpass d = cpass c \<and> cid d = cid c"
  using assms by (simp add: auto_login_def with_opts_def Let_def inputOsPassword_fields)

lemma json_ok_opt_prop: "json_ok v \<or> v = JUndef \<Longrightarrow> opt_prop v k \<noteq> JUndef \<Longrightarrow> json_ok (opt_prop v k)"
  using json_ok_get by (cases v) auto

lemma keep_info_stored:
  assumes "copts c = Some o'" "json_ok (JObj (getPeers (cstore c)))" "json_ok (JObj o')" "json_ok (JObj info)"
  shows "\<exists>d o2. keep_info now info c = (d, None) \<and> copts d = Some o2 \<and> json_ok (JObj o2) \<and> cid d = cid c \<and> cpass d = cpass c
    \<and> stored_options (cstore d) (cid c) = o2 \<and> json_ok (JObj (getPeers (cstore d)))
    \<and> (\<forall>k. k \<noteq> ''tm'' \<and> k \<noteq> ''info'' \<longrightarrow> get o2 k = get o' k)"
proof -
  define username where "username = opt_prop (get o' ''info'') ''username''"
  define info2 where "info2 = (if truthy username \<and> \<not> truthy (get info ''username'') then put info ''username'' username else info)"
  have "json_ok username" if "truthy username"
  proof -
    have "username \<noteq> JUndef" using that by auto
    then show ?thesis using assms(3) json_ok_get [of o' "''info''"] json_ok_opt_prop [of "get o' ''info''" "''username''"]
      by (cases "get o' ''info'' = JUndef") (auto simp: username_def)
  qed
  then have ok: "json_ok (JObj info2)" using assms(4) by (auto simp: info2_def simp del: json_ok.simps(3) intro!: json_ok_put)
  define d where "d = c\<lparr>cpeer := Some info2\<rparr>"
  have d: "copts d = Some o'" "cstore d = cstore c" "cid d = cid c" "cpass d = cpass c" using assms(1) by (simp_all add: d_def)
  have v: "nullish (JObj info2) \<or> json_ok (JObj info2)" using ok by simp
  note st = setOption_stored [of d o' "JObj info2" now "''info''", unfolded d(2,3), OF d(1) assms(2,3) v]
  have "keep_info now info c = setOption now ''info'' (JObj info2) d"
    by (simp add: keep_info_def with_opts_def assms(1) Let_def info2_def username_def d_def)
  then show ?thesis
    using st json_ok_changed [OF assms(3) v] d(3,4)
    by (auto simp: get_changed simp del: json_ok.simps(3))
qed

lemma keep_password_stored:
  assumes "copts c = Some o'" "json_ok (JObj (getPeers (cstore c)))" "json_ok (JObj o')" "cpass c = Some pw" "pw \<noteq> []"
    "stored_options (cstore c) (cid c) = o'"
  shows "get (stored_options (cstore (fst (keep_password now c))) (cid c)) ''password''
    = (if truthy (get o' ''remember'') then JStr (bytes_text pw) else JUndef)"
proof -
  have undef: "nullish JUndef \<or> json_ok JUndef" and str: "\<And>s. nullish (JStr s) \<or> json_ok (JStr s)" by simp_all
  note st = setOption_stored(1,2) [OF assms(1-3)]
  show ?thesis
    using assms(6) st [OF undef, of now "''password''"] st [OF str, of now "''password''" "bytes_text pw"]
    by (simp add: keep_password_def with_opts_def assms(1,4,5) getRemember_def get_changed)
qed

lemma start_password:
  "cpass (start p i (new_conn st)) =
     (let v = get (stored_options st i) ''password'' in if truthy v then parse_bytes (toStr v) else None)"
  by (simp add: start_def new_conn_def stored_password_def stored_options_def loadVideoDecoder_def emit_def Let_def)

text \<open>
  C36: a password is remembered exactly when the peer's option says so: after the peer has answered the
  login, a new connection to the same peer starts with the password of the old one, read back from its
  text in the stored JSON, or, without the option, with none, whatever was stored before. (The stored
  peers, the options and the peer's info are such as JSON can carry.)
\<close>

theorem remembered_password:
  assumes "copts c = Some o'" "json_ok (JObj (getPeers (cstore c)))" "json_ok (JObj o')"
    and "json_ok (JObj info)" "get info ''displays'' \<noteq> JArr []" "cpass c = Some pw" "pw \<noteq> []"
  shows "cpass (start p (cid c) (new_conn (cstore (fst (handlePeerInfo e now info c))))) =
    (if truthy (get o' ''remember'') then Some pw else None)"
proof -
  define c1 where "c1 = emit (Push ''peer_info'' (data_payload info))
    (box ''success'' ''Successful'' ''Connected, waiting for image...'' (c\<lparr>cpeer := Some info\<rparr>))"
  have c1: "copts c1 = Some o'" "cstore c1 = cstore c" "cpass c1 = Some pw" "cid c1 = cid c"
    using assms(1,6) by (simp_all add: c1_def emit_def box_def)
  obtain d where d: "auto_login e c1 = (d, None)" "copts d = Some o'" "cstore d = cstore c" "cpass d = Some pw" "cid d = cid c"
    using auto_login_fields [OF c1(1), of e] c1 by auto
  obtain d2 o2 where d2: "keep_info now info d = (d2, None)" "copts d2 = Some o2" "json_ok (JObj o2)" "cid d2 = cid c"
    "cpass d2 = Some pw" "stored_options (cstore d2) (cid c) = o2" "json_ok (JObj (getPeers (cstore d2)))"
    "get o2 ''remember'' = get o' ''remember''"
    using keep_info_stored [of d o' info now] d assms(2-4) by (auto simp del: json_ok.simps(3))
  have "fst (handlePeerInfo e now info c) = fst (keep_password now d2)"
    using assms(5) d(1) d2(1)
    by (simp add: handlePeerInfo_def c1_def [symmetric] steps.simps split: prod.split option.split)
  moreover have "get (stored_options (cstore (fst (keep_password now d2))) (cid c)) ''password''
      = (if truthy (get o' ''remember'') then JStr (bytes_text pw) else JUndef)"
    using keep_password_stored [of d2 o2 pw now] d2 assms(7) by simp
  ultimately show ?thesis
    using bytes_text_nonempty [OF assms(7)] parse_bytes_text by (simp add: start_password)
qed

definition demo_peer :: conn where
  "demo_peer = (demo_at [demo_old] 0 Finished [])\<lparr>copts := Some [(''remember'', JBool True)], cpass := Some [1, 255]\<rparr>"

theorem remembered_password_witness:
  "cpass (start demo_site ''7'' (new_conn (cstore (fst (handlePeerInfo demo_env 9 [(''displays'', JArr [JNum 1])] demo_peer))))) = Some [1, 255]"
  using remembered_password [of demo_peer "[(''remember'', JBool True)]" "[(''displays'', JArr [JNum 1])]" "[1, 255]" demo_site demo_env 9]
  by (simp add: demo_peer_def demo_at_def getPeers_def stored_peers_def getItem_def)

text \<open>
  Logging in with a typed password is, once the same password is remembered, what logging in without
  one is: the request made of the stored hash and the new challenge is the same, only the message shown
  before differs. So what is remembered (the hash of the password and the salt) suffices for every
  challenge with the same salt.
\<close>

lemma remembered_login_same:
  assumes "password \<noteq> []" "chash c = Some (salt, challenge)" "cpass c = Some (hash e [utf8 password, utf8 salt])"
  shows "login e password c = login e [] (box ''connecting'' ''Connecting...'' ''Logging in...'' c)"
proof -
  let ?p = "hash e [utf8 password, utf8 salt]"
  have fields: "chash (box x y z c) = chash c" "cpass (box x y z c) = cpass c" for x y z by (simp_all add: box_def emit_def)
  have "login e password c =
      sendLoginMessage e (hash e [?p, utf8 challenge]) (box ''connecting'' ''Connecting...'' ''Logging in...'' (c\<lparr>cpass := Some ?p\<rparr>))"
    using assms(1,2) by (simp add: login_def Let_def)
  also have "c\<lparr>cpass := Some ?p\<rparr> = c" using assms(3) by simp
  also have "sendLoginMessage e (hash e [?p, utf8 challenge]) (box ''connecting'' ''Connecting...'' ''Logging in...'' c) =
      login e [] (box ''connecting'' ''Connecting...'' ''Logging in...'' c)"
    using assms(2,3) by (simp add: login_def fields)
  finally show ?thesis .
qed

subsection \<open>How a connection ends\<close>


text \<open>
  A connection that the page closes while its routine reads the current socket, with nothing left
  to read, ends in silence: the routine's next turn ends it with an error whose text is empty, and the
  page's handler shows no error without a text.
\<close>

lemma local_close_silent:
  assumes "routines c ! r \<in> {AwaitPunch j since, AwaitSignedId j since pk, Looping j since}"
    and "r < length (routines c)" "cws c = Some j" "j < length (socks c)" "buf (socks c ! j) = []"
  shows "resume e p now f r (close c) = set_phase r Finished (box ''error'' ''Connection Error'' [] (close c))
    \<and> msgbox checkIfRetry ''error'' ''Connection Error'' [] = None"
proof -
  have "next_poll since now (socks (close c) ! j) = (Fail (Text []), socks (close c) ! j)"
    using next_poll_closed assms(3-5) by (simp add: close_fields)
  then have "resume e p now f r (close c) = failed e r (Text []) (close c)"
    using assms(1) by (auto simp: resume_def polled_def close_fields)
  then show ?thesis by (simp add: failed_def msgbox_def)
qed

text \<open>
  Closing misses a relay that is being opened. Until its socket is open the connection does not know
  it, so \<open>close\<close> leaves it alone; when it opens, the routine makes it the current socket, asks for the
  relay and goes on, as if the page had not closed the connection.
\<close>

lemma close_misses_relay:
  assumes "conn_reachable e p i c" "r < length (routines c)" "routines c ! r = OpeningRelay j pk uuid"
    and "readyState (socks c ! j) = CONNECTING" "open_promise (socks c ! j) = Pending"
  shows "let d = run e p [Wire j WsOpen, Resume r now f] (close c)
    in cws d = Some j \<and> routines d ! r \<noteq> Finished
      \<and> rdv_encode e (RequestRelay (item_or (cstore c) ''key'' []) uuid) \<in> set (sent (socks d ! j))"
proof -
  have wf: "conn_wf c" using shape.reachable_inv [OF assms(1)] by (simp add: shape.inv_def)
  then have j: "j < length (socks c)" "secretKey (socks c ! j) = None" "cws c \<noteq> Some j"
    using assms(2,3) by (auto simp: conn_wf_def list_all_length set_relays) (metis nth_mem phase_wf.simps(3))+
  define d where "d = put_sock j (on_open (socks c ! j)) (close c)"
  define d2 where "d2 = set_phase r Finished d"
  have open1: "do_event e p (Wire j WsOpen) (close c) = d"
    using assms(4) j(3) by (simp add: d_def ws_input_def close_fields)
  have s: "socks d2 ! j = on_open (socks c ! j)" "j < length (socks d2)" "r < length (routines d2)" "cstore d2 = cstore c"
    using j(1) assms(2) by (simp_all add: d2_def d_def put_sock_def set_phase_def close_fields)
  have "open_promise (socks d ! j) = Resolved"
    using j(1) assms(5) by (simp add: d_def put_sock_def close_fields on_open_def settle_def)
  then have "do_event e p (Resume r now f) d = relay_open e now r j pk uuid d2"
    using assms(2,3) by (simp add: resume_def opened_def d_def d2_def put_sock_def close_fields)
  then have run: "run e p [Wire j WsOpen, Resume r now f] (close c) = relay_open e now r j pk uuid d2"
    using open1 by (simp add: run_def)
  have "readyState (socks d2 ! j) = OPEN" "secretKey (socks d2 ! j) = None"
    using s(1) j(2) by (simp_all add: on_open_def settle_def)
  from relay_opens [OF s(2,3) this refl, of e now pk uuid] run s(4) show ?thesis by simp
qed

subsection \<open>Video\<close>

definition answer_frame :: "env \<Rightarrow> nat \<Rightarrow> bool \<times> bool \<times> nat \<Rightarrow> conn \<Rightarrow> conn" where
  "answer_frame e b a c = frame_decoded e (snd (snd a)) (fst a) (fst (snd a)) b c"

lemma frames_before_last:
  "b < length (batches c) \<Longrightarrow> batches c ! b = (i, n, tm) \<Longrightarrow> i + length xs < n \<Longrightarrow>
   fold (answer_frame e b) xs c = c\<lparr>batches := (batches c)[b := (i + length xs, n, tm)]\<rparr>"
proof (induction xs arbitrary: c i)
  case Nil
  then have "(batches c)[b := (i, n, tm)] = batches c" by (metis list_update_id)
  then show ?case by simp
next
  case (Cons x xs)
  have "answer_frame e b x c = c\<lparr>batches := (batches c)[b := (Suc i, n, tm)]\<rparr>"
    using Cons.prems by (simp add: answer_frame_def frame_decoded_def steps.simps)
  then show ?case using Cons.IH [of "c\<lparr>batches := (batches c)[b := (Suc i, n, tm)]\<rparr>" "Suc i"] Cons.prems by simp
qed

text \<open>
  The frames of one message are acknowledged once: while the decoder has answered fewer than all of
  them nothing is sent and nothing is drawn; with the last answer the message \<open>video_received\<close> is sent,
  and then, if that frame was decoded into a buffer, it is drawn, once by the callback and once by the
  page itself.
\<close>

lemma video_acknowledged_once:
  assumes "b < length (batches c)" "batches c ! b = (0, Suc (length xs), tm)" "send e VideoReceived c = (d, None)"
  shows "fold (answer_frame e b) xs c = c\<lparr>batches := (batches c)[b := (length xs, Suc (length xs), tm)]\<rparr>
    \<and> socks (fold (answer_frame e b) (xs @ [x]) c) = socks d
    \<and> cout (fold (answer_frame e b) (xs @ [x]) c) = cout c @ (if fst x \<and> fst (snd x) then [DrawCallback, DrawGlobal] else [])"
proof -
  let ?c = "c\<lparr>batches := (batches c)[b := (Suc (length xs), Suc (length xs), tm)]\<rparr>"
  have eq: "fold (answer_frame e b) xs c = c\<lparr>batches := (batches c)[b := (length xs, Suc (length xs), tm)]\<rparr>"
    using frames_before_last [OF assms(1,2)] by simp
  obtain d' where d': "send e VideoReceived ?c = (d', None)" "socks d' = socks d" "cout d' = cout c"
    using assms(3) by (auto simp: send_def on_sock_def put_sock_def Let_def split_beta split: option.splits)
  show ?thesis
    using d' by (simp add: eq answer_frame_def frame_decoded_def sendVideoReceived_def assms(1) steps.simps Let_def draw_def emit_def)
qed

subsection \<open>Keys\<close>

lemma modifier_entries:
  "list_all (\<lambda>p. (if snd p = ''Alt'' then fst p = ''VK_MENU'' else if snd p = ''Control'' then fst p = ''VK_CONTROL''
    else if snd p = ''Shift'' then fst p = ''VK_SHIFT'' else if snd p = ''Meta'' then fst p = ''Meta'' else True)) KEY_MAP"
  by code_simp

lemma control_key_named: "controlKeyFromJSON (JStr s) = n \<Longrightarrow> n \<noteq> UNRECOGNIZED \<Longrightarrow> s = controlKeyToJSON n"
  using controlKey_round_trip map_of_SomeD [of control_keys s] by (fastforce split: option.splits)

lemma modifier_numbers:
  "controlKeyToJSON 1 = ''Alt''" "controlKeyToJSON 4 = ''Control''" "controlKeyToJSON 29 = ''Shift''" "controlKeyToJSON 23 = ''Meta''"
  by (simp_all add: controlKeyToJSON_def control_keys_def)

lemma modifier_names:
  assumes "(name, t) \<in> set KEY_MAP"
  shows "controlKeyFromJSON (JStr t) = 1 \<Longrightarrow> name = ''VK_MENU''" "controlKeyFromJSON (JStr t) = 4 \<Longrightarrow> name = ''VK_CONTROL''"
    "controlKeyFromJSON (JStr t) = 29 \<Longrightarrow> name = ''VK_SHIFT''" "controlKeyFromJSON (JStr t) = 23 \<Longrightarrow> name = ''Meta''"
proof -
  note entry = modifier_entries [unfolded list_all_iff, rule_format, OF assms]
  note named = control_key_named [of t, unfolded UNRECOGNIZED_def]
  show "controlKeyFromJSON (JStr t) = 1 \<Longrightarrow> name = ''VK_MENU''" using entry named [of 1] modifier_numbers by simp
  show "controlKeyFromJSON (JStr t) = 4 \<Longrightarrow> name = ''VK_CONTROL''" using entry named [of 4] modifier_numbers by simp
  show "controlKeyFromJSON (JStr t) = 29 \<Longrightarrow> name = ''VK_SHIFT''" using entry named [of 29] modifier_numbers by simp
  show "controlKeyFromJSON (JStr t) = 23 \<Longrightarrow> name = ''Meta''" using entry named [of 23] modifier_numbers by simp
qed

text \<open>
  For every name of the key map the event sent has a key the protocol knows, and a modifier key is
  never reported as its own modifier, whichever modifiers the page says are held.
\<close>

lemma mapped_keys_sent:
  assumes "(name, t) \<in> set KEY_MAP"
  shows "let k = key_of_input desktop name dn pr alt ctrl shift command
    in key_is k \<noteq> NoKey \<and> key_is k \<noteq> ControlKey UNRECOGNIZED
      \<and> list_all (\<lambda>m. key_is k \<noteq> ControlKey m) (modifier_keys k)"
proof -
  define k where "k = key_of_input desktop name dn pr alt ctrl shift command"
  have same: "key_is k = key_is (mapKey name desktop)"
    by (simp add: k_def key_of_input_def Let_def)
  obtain u where u: "map_of KEY_MAP name = Some u" using assms(1) by (meson weak_map_of_SomeI)
  then have "(name, u) \<in> set KEY_MAP" by (rule map_of_SomeD)
  note names = modifier_names [OF this]
  have pressed: "m = controlKeyFromJSON (JStr u)" if "key_is (mapKey name desktop) = ControlKey m" for m
    using that by (simp add: mapKey_def key_event_of_def u Let_def split: if_splits del: controlKeyFromJSON.simps)
  have held: "m = 1 \<and> name \<noteq> ''VK_MENU'' \<or> m = 4 \<and> name \<noteq> ''VK_CONTROL'' \<or> m = 29 \<and> name \<noteq> ''VK_SHIFT'' \<or> m = 23 \<and> name \<noteq> ''Meta''"
    if "m \<in> set (modifier_keys k)" for m
    using that by (auto simp: k_def key_of_input_def getMod_def Let_def split: if_splits)
  have "key_is (mapKey name desktop) \<noteq> ControlKey m" if "m \<in> set (modifier_keys k)" for m
  proof
    assume "key_is (mapKey name desktop) = ControlKey m"
    then have "controlKeyFromJSON (JStr u) = m" using pressed by simp
    then show False using held [OF that] names by (elim disjE) simp_all
  qed
  then have "list_all (\<lambda>m. key_is (mapKey name desktop) \<noteq> ControlKey m) (modifier_keys k)" by (simp add: list_all_iff)
  then show ?thesis using mapKey_known [OF assms(1)] mapKey_one_key same by (simp add: k_def [symmetric])
qed

subsection \<open>Addresses\<close>

lemma indexOf_char: "c \<notin> set h \<Longrightarrow> indexOf (h @ c # s) [c] = Some (length h)"
  by (induction h) (auto simp: startsWith_def)

lemma indexOf_absent: "c \<notin> set h \<Longrightarrow> indexOf h [c] = None"
  by (induction h) (auto simp: startsWith_def)

text \<open>
  A server named by host and port is reached two ports above for the rendezvous and \<open>roffset\<close>, or
  three, above for the relay, and a server named without a port as if its port were 21116.
\<close>

lemma server_addresses:
  assumes "h \<noteq> []" "CHR '':'' \<notin> set h"
  shows "getrUriFromRs p (h @ '':'' @ show_nat n) relay off =
      (if https p then ''wss://'' else ''ws://'') @ h @ '':'' @ show_nat (n + (if relay then (if off = 0 then 3 else off) else 2))
    \<and> getrUriFromRs p h relay 0 = getrUriFromRs p (h @ '':'' @ show_nat 21116) relay 0"
proof -
  have digits: "CHR '':'' \<notin> set (show_nat m)" for m using show_nat_digits [of "CHR '':''" m] by (auto simp: is_digit_def char_code_def)
  have sp: "split_on (CHR '':'') (h @ CHR '':'' # show_nat m) = [h, show_nat m]" for m
    using split_on_append [OF assms(2), of "show_nat m"] split_on_notin [OF digits] by simp
  have main: "getrUriFromRs p (h @ '':'' @ show_nat m) relay off =
      (if https p then ''wss://'' else ''ws://'') @ h @ '':'' @ show_nat (m + (if relay then (if off = 0 then 3 else off) else 2))"
    for m off
    using indexOf_char [OF assms(2)] assms(1)
    by (simp add: getrUriFromRs_def sp parseInt_show_nat show_port_def show_int_def nat_add_distrib)
  moreover have "getrUriFromRs p h relay 0 = getrUriFromRs p (h @ '':'' @ show_nat 21116) relay 0"
    unfolding main using indexOf_absent [OF assms(2)] by (simp add: getrUriFromRs_def)
  ultimately show ?thesis by simp
qed

end
