(* ===== verification/BuildForm.thy ===== *)
theory BuildForm
  imports Crud I18n
begin

text \<open>
  The form of the client builder (\<open>admin-ui/src/views/custom-client/index.vue\<close>): its fields and their
  defaults, which fields are required, the messages shown at fields, the snapshot of what was
  submitted, the presets' text, and the replacement of a host by an address of the server.

  The form is a JavaScript object; the reactive wrappers of Vue are left out. Messages are named by
  their keys, as everywhere in the views; a text of the server is itself.
\<close>

subsection \<open>Fields\<close>

definition FORM_DEFAULTS :: obj where
  "FORM_DEFAULTS =
     [(''platform'', JStr []), (''version'', JStr []), (''app_name'', JStr []), (''server_ip'', JStr []),
      (''key'', JStr []), (''api_server'', JStr []), (''relay_server'', JStr []), (''company_name'', JStr []),
      (''download_url'', JStr []), (''website_url'', JStr []), (''privacy_policy_url'', JStr []),
      (''direction'', JStr ''both''), (''pass_approve_mode'', JStr ''password-click''),
      (''permanent_password'', JStr []), (''deny_lan'', JBool False), (''enable_direct_ip'', JBool False),
      (''auto_close'', JBool False), (''hide_cm'', JBool False), (''theme'', JStr ''system''),
      (''remove_wallpaper'', JBool True), (''permissions_type'', JStr ''custom''),
      (''enable_keyboard'', JBool True), (''enable_clipboard'', JBool True), (''enable_file_transfer'', JBool True),
      (''enable_audio'', JBool True), (''enable_tcp'', JBool True), (''enable_remote_restart'', JBool True),
      (''enable_recording'', JBool True), (''enable_blocking_input'', JBool True),
      (''enable_remote_modi'', JBool False), (''enable_printer'', JBool True), (''enable_camera'', JBool True),
      (''enable_terminal'', JBool True), (''cycle_monitor'', JBool False), (''x_offline'', JBool False),
      (''remove_new_version_notif'', JBool False), (''android_app_id'', JStr []), (''app_icon_url'', JStr []),
      (''app_logo_url'', JStr []), (''privacy_screen_url'', JStr [])]"

definition requiredFieldNames :: "string list" where
  "requiredFieldNames =
     [''platform'', ''version'', ''app_name'', ''server_ip'', ''key'', ''api_server'', ''relay_server'', ''permanent_password'']"

definition requiredMessageKeys :: "(string \<times> string) list" where
  "requiredMessageKeys =
     [(''platform'', ''CustomClientPlatformRequired''), (''version'', ''CustomClientVersionRequired''),
      (''app_name'', ''CustomClientAppNameRequired''), (''server_ip'', ''CustomClientHostRequired''),
      (''key'', ''CustomClientKeyRequired''), (''api_server'', ''CustomClientApiServerRequired''),
      (''relay_server'', ''CustomClientRelayServerRequired''),
      (''permanent_password'', ''CustomClientPermanentPasswordRequired'')]"

text \<open>\<open>T(undefined)\<close> is \<open>undefined\<close>.\<close>

definition requiredMessage :: "string \<Rightarrow> jsval" where
  "requiredMessage field =
     (case map_of requiredMessageKeys field of None \<Rightarrow> JUndef | Some k \<Rightarrow> JStr k)"

definition requiredFieldSet :: "obj \<Rightarrow> string list" where
  "requiredFieldSet form =
     [''platform'', ''version'', ''app_name'', ''key'']
     @ (if get form ''platform'' = JStr ''windows'' then [''server_ip'', ''api_server'', ''relay_server''] else [])
     @ (if truthy (get form ''hide_cm'') then [''permanent_password''] else [])"

definition isRequiredField :: "obj \<Rightarrow> string \<Rightarrow> bool" where
  "isRequiredField form field = (field \<in> set (requiredFieldSet form))"

text \<open>The fields that have a rule: the required ones among those that can be.\<close>

definition rules :: "obj \<Rightarrow> string list" where
  "rules form = filter (isRequiredField form) requiredFieldNames"

subsection \<open>Messages at fields\<close>

definition serverFormatMessageKeys :: "(string \<times> string) list" where
  "serverFormatMessageKeys =
     [(''key'', ''CustomClientKeyInvalidFormat''), (''server_ip'', ''CustomClientHostInvalidFormat''),
      (''api_server'', ''CustomClientApiServerInvalidFormat''), (''relay_server'', ''CustomClientRelayServerInvalidFormat''),
      (''version'', ''CustomClientFieldInvalidFormat''), (''app_name'', ''CustomClientFieldInvalidFormat''),
      (''website_url'', ''CustomClientWebsiteUrlInvalidFormat''),
      (''privacy_policy_url'', ''CustomClientPrivacyPolicyInvalidFormat''),
      (''download_url'', ''CustomClientDownloadUrlInvalidFormat''),
      (''company_name'', ''CustomClientCompanyNameInvalidFormat''),
      (''app_icon_url'', ''CustomClientAppIconUrlInvalidFormat''),
      (''app_logo_url'', ''CustomClientAppLogoUrlInvalidFormat''),
      (''privacy_screen_url'', ''CustomClientPrivacyScreenUrlInvalidFormat'')]"

definition serverIncompatibleMessageKeys :: "(string \<times> string) list" where
  "serverIncompatibleMessageKeys = [(''pass_approve_mode'', ''CustomClientPassApproveModeIncompatible'')]"

definition key_or :: "(string \<times> string) list \<Rightarrow> string \<Rightarrow> string \<Rightarrow> string" where
  "key_or ks field d = (case map_of ks field of None \<Rightarrow> d | Some k \<Rightarrow> k)"

definition serverFieldMessage :: "string \<Rightarrow> jsval \<Rightarrow> jsval" where
  "serverFieldMessage field code =
     (if code = JStr ''required'' then requiredMessage field
      else if code = JStr ''incompatible'' then JStr (key_or serverIncompatibleMessageKeys field ''CustomClientFieldIncompatible'')
      else JStr (key_or serverFormatMessageKeys field ''CustomClientFieldInvalidFormat''))"

definition serverErrorFieldNames :: "string list" where
  "serverErrorFieldNames =
     requiredFieldNames
     @ [''website_url'', ''privacy_policy_url'', ''download_url'', ''company_name'', ''pass_approve_mode'',
        ''app_icon_url'', ''app_logo_url'', ''privacy_screen_url'']"

definition IMAGE_UPLOAD_FIELDS :: "string list" where
  "IMAGE_UPLOAD_FIELDS = [''app_icon_url'', ''app_logo_url'', ''privacy_screen_url'']"

text \<open>
  The two maps from fields to messages: \<open>invalidFields\<close> (lists of messages) and \<open>serverFieldErrors\<close>.
  A field without an entry is \<open>undefined\<close>.
\<close>

record messages =
  invalid :: "string \<Rightarrow> jsval"
  server :: "string \<Rightarrow> jsval"

definition no_messages :: messages where
  "no_messages = \<lparr>invalid = (\<lambda>_. JUndef), server = (\<lambda>_. JUndef)\<rparr>"

definition isFieldInvalid :: "messages \<Rightarrow> string \<Rightarrow> bool" where
  "isFieldInvalid m field = truthy (invalid m field)"

definition serverFieldError :: "messages \<Rightarrow> string \<Rightarrow> jsval" where
  "serverFieldError m field = js_or (server m field) (JStr [])"

definition set_message :: "string \<Rightarrow> jsval \<Rightarrow> messages \<Rightarrow> messages" where
  "set_message field text m =
     \<lparr>invalid = (invalid m)(field := JArr [text]), server = (server m)(field := text)\<rparr>"

definition clearFieldError :: "string \<Rightarrow> messages \<Rightarrow> messages" where
  "clearFieldError field m =
     \<lparr>invalid = (if truthy (invalid m field) then (invalid m)(field := JUndef) else invalid m),
      server = (if truthy (server m field) then (server m)(field := JUndef) else server m)\<rparr>"

definition applyUploadFieldError :: "string \<Rightarrow> jsval \<Rightarrow> messages \<Rightarrow> messages" where
  "applyUploadFieldError field text m =
     (if field \<in> set IMAGE_UPLOAD_FIELDS then set_message field text m else m)"

subsection \<open>Connection management\<close>

definition hideCmApproveModeConflict :: "obj \<Rightarrow> bool" where
  "hideCmApproveModeConflict form =
     (truthy (get form ''hide_cm'') \<and> get form ''pass_approve_mode'' \<noteq> JStr ''password'')"

definition surfacePassApproveModeIncompatibility :: "messages \<Rightarrow> messages" where
  "surfacePassApproveModeIncompatibility m =
     set_message ''pass_approve_mode'' (serverFieldMessage ''pass_approve_mode'' (JStr ''incompatible'')) m"

definition onApproveModeChange :: "obj \<Rightarrow> messages \<Rightarrow> messages" where
  "onApproveModeChange form m =
     (let m = clearFieldError ''pass_approve_mode'' m
      in if hideCmApproveModeConflict form then surfacePassApproveModeIncompatibility m else m)"

definition onHideConnectionManagementChange :: "obj \<Rightarrow> messages \<Rightarrow> messages" where
  "onHideConnectionManagementChange form m =
     (let m = clearFieldError ''pass_approve_mode'' (clearFieldError ''permanent_password'' m)
      in if hideCmApproveModeConflict form then surfacePassApproveModeIncompatibility m else m)"

text \<open>
  \<open>validateBuildForm\<close>: \<open>verdict\<close> is what Element Plus's \<open>validate\<close> answers for the rules, the messages
  of the rejected fields or nothing. Messages of uploads survive and block the form.
\<close>

definition active_uploads :: "messages \<Rightarrow> string list" where
  "active_uploads m = filter (\<lambda>f. truthy (server m f)) IMAGE_UPLOAD_FIELDS"

definition validateBuildForm :: "(string \<Rightarrow> jsval) option \<Rightarrow> obj \<Rightarrow> messages \<Rightarrow> bool \<times> messages" where
  "validateBuildForm verdict form m =
     (if hideCmApproveModeConflict form then (False, surfacePassApproveModeIncompatibility m)
      else
        (let active = active_uploads m;
             m' = \<lparr>invalid = (case verdict of None \<Rightarrow> (\<lambda>_. JUndef) | Some fs \<Rightarrow> fs), server = (\<lambda>_. JUndef)\<rparr>
         in if active \<noteq> [] then (False, fold (\<lambda>f. set_message f (server m f)) active m')
            else (verdict = None, m')))"

subsection \<open>What was submitted\<close>

definition PRESET_FIELDS :: "string list" where
  "PRESET_FIELDS =
     [''server_ip'', ''key'', ''api_server'', ''relay_server'', ''company_name'', ''download_url'', ''website_url'',
      ''privacy_policy_url'', ''direction'', ''pass_approve_mode'', ''permanent_password'', ''deny_lan'',
      ''enable_direct_ip'', ''auto_close'', ''hide_cm'', ''theme'', ''remove_wallpaper'',
      ''remove_new_version_notif'', ''permissions_type'', ''enable_keyboard'', ''enable_clipboard'',
      ''enable_file_transfer'', ''enable_audio'', ''enable_tcp'', ''enable_remote_restart'', ''enable_recording'',
      ''enable_blocking_input'', ''enable_remote_modi'', ''enable_printer'', ''enable_camera'', ''enable_terminal'',
      ''cycle_monitor'', ''x_offline'', ''android_app_id'', ''app_icon_url'', ''app_logo_url'', ''privacy_screen_url'']"

definition SUBMITTED_RECORD_FIELDS :: "string list" where
  "SUBMITTED_RECORD_FIELDS = [''platform'', ''version'', ''app_name'']"

definition submittedFieldNames :: "string list" where
  "submittedFieldNames = PRESET_FIELDS @ filter (\<lambda>f. f \<notin> set PRESET_FIELDS) SUBMITTED_RECORD_FIELDS"

record snapshot =
  sn_platform :: jsval
  sn_hide_cm :: jsval
  sn_preset :: jsval
  sn_values :: obj

definition pick :: "string list \<Rightarrow> obj \<Rightarrow> obj" where
  "pick fs form = map (\<lambda>f. (f, get form f)) fs"

definition snapshotSubmittedFields :: "obj \<Rightarrow> jsval \<Rightarrow> snapshot" where
  "snapshotSubmittedFields form selected =
     (let vs = pick submittedFieldNames form
      in \<lparr>sn_platform = get vs ''platform'', sn_hide_cm = get form ''hide_cm'',
          sn_preset = js_or selected JNull, sn_values = vs\<rparr>)"

definition submittedRequirementInputsMatch :: "snapshot \<Rightarrow> obj \<Rightarrow> bool" where
  "submittedRequirementInputsMatch sn form =
     (sn_platform sn = get form ''platform'' \<and> sn_hide_cm sn = get form ''hide_cm'')"

definition isSubmittedSnapshotCurrent :: "snapshot \<Rightarrow> obj \<Rightarrow> jsval \<Rightarrow> bool" where
  "isSubmittedSnapshotCurrent sn form selected =
     (submittedRequirementInputsMatch sn form \<and> js_or (sn_preset sn) JNull = js_or selected JNull
      \<and> list_all (\<lambda>f. get (sn_values sn) f = get form f) (keys (sn_values sn)))"

text \<open>
  The errors of a rejected request, applied to the form as it is now; the second part is whether there
  was one to apply.
\<close>

definition applyServerFieldErrors :: "obj list \<Rightarrow> snapshot option \<Rightarrow> obj \<Rightarrow> messages \<Rightarrow> messages \<times> bool" where
  "applyServerFieldErrors errors sn form m =
     (let applicable = filter (\<lambda>e. get e ''field'' \<in> JStr ` set serverErrorFieldNames) errors;
          current = (case sn of
                       None \<Rightarrow> applicable
                     | Some s \<Rightarrow>
                         if submittedRequirementInputsMatch s form
                         then filter (\<lambda>e. get (sn_values s) (toStr (get e ''field'')) = get form (toStr (get e ''field''))) applicable
                         else [])
      in (fold (\<lambda>e. let f = toStr (get e ''field'') in set_message f (serverFieldMessage f (get e ''code''))) current m,
          current \<noteq> []))"

text \<open>
  A rejected request, as an error object: \<open>axios\<close> is whether it is one of axios. The second part is
  what is written to the console.
\<close>

definition is_code :: "jsval \<Rightarrow> bool" where
  "is_code v = (case v of JNum n \<Rightarrow> n \<noteq> 0 | _ \<Rightarrow> False)"

definition failure_fields :: "jsval \<Rightarrow> jsval" where
  "failure_fields e =
     js_or (opt_prop (opt_prop (opt_prop (opt_prop e ''response'') ''data'') ''data'') ''fields'')
       (if is_code (opt_prop e ''code'') then opt_prop (opt_prop e ''data'') ''fields'' else JNull)"

definition field_entries :: "jsval \<Rightarrow> obj list" where
  "field_entries v = (case v of JArr xs \<Rightarrow> map as_obj xs | _ \<Rightarrow> [])"

definition expected_failure :: "bool \<Rightarrow> jsval \<Rightarrow> bool" where
  "expected_failure axios e =
     (truthy (failure_fields e) \<or> is_code (opt_prop e ''code'') \<or> axios \<or> truthy (opt_prop e ''response'')
      \<or> truthy (opt_prop e ''request'') \<or> truthy (opt_prop e ''interceptorHandled''))"

definition reportCreateBuildFailure :: "bool \<Rightarrow> jsval \<Rightarrow> snapshot option \<Rightarrow> obj \<Rightarrow> messages \<Rightarrow> messages" where
  "reportCreateBuildFailure axios e sn form m =
     (if expected_failure axios e then fst (applyServerFieldErrors (field_entries (failure_fields e)) sn form m) else m)"

subsection \<open>Presets\<close>

text \<open>\<open>explicitPresetFields\<close> is a list here, in the order of insertion.\<close>

definition custom_json :: "obj \<Rightarrow> string" where
  "custom_json form = json_text (JObj (pick PRESET_FIELDS form))"

definition applyServerConfigDefaults :: "string list \<Rightarrow> obj \<Rightarrow> obj \<Rightarrow> obj" where
  "applyServerConfigDefaults explicit defaults form =
     fold (\<lambda>f form. if f \<notin> set explicit \<and> \<not> truthy (get form f) then put form f (get defaults f) else form)
       (keys defaults) form"

text \<open>\<open>None\<close>: the text is not JSON (or, as \<open>Beyond\<close>, outside the values of the model).\<close>

definition preset_config :: "obj \<Rightarrow> obj option" where
  "preset_config preset =
     (case JSON_parse (toStr (js_or (get preset ''custom_json'') (JStr ''{}''))) of
        Parsed v \<Rightarrow> Some (as_obj v)
      | _ \<Rightarrow> None)"

definition preset_explicit :: "obj \<Rightarrow> obj \<Rightarrow> string list" where
  "preset_explicit preset cfg =
     filter (\<lambda>f. f \<in> set (keys cfg) \<and> get cfg f \<noteq> JUndef) PRESET_FIELDS
     @ filter (\<lambda>f. f \<in> set (keys preset)) SUBMITTED_RECORD_FIELDS"

definition preset_fill :: "obj \<Rightarrow> obj \<Rightarrow> obj \<Rightarrow> obj" where
  "preset_fill preset cfg form =
     (let form = fold (\<lambda>f form. if f \<in> set (keys cfg) \<and> get cfg f \<noteq> JUndef then put form f (get cfg f) else form)
            PRESET_FIELDS form
      in fold (\<lambda>f form. if f \<in> set (keys preset)
                        then put form f (if nullish (get preset f) then JStr [] else get preset f) else form)
            SUBMITTED_RECORD_FIELDS form)"

definition has_saved_password :: "obj option \<Rightarrow> bool" where
  "has_saved_password preset =
     (case preset of None \<Rightarrow> False | Some p \<Rightarrow> get p ''has_permanent_password'' = JBool True)"

definition typed_password :: "obj \<Rightarrow> bool" where
  "typed_password form =
     (let v = get form ''permanent_password'' in trim (if nullish v then [] else toStr v) \<noteq> [])"

definition canPreservePresetPassword :: "bool \<Rightarrow> obj \<Rightarrow> obj list \<Rightarrow> string \<Rightarrow> bool" where
  "canPreservePresetPassword clearIntent form presets presetName =
     (\<not> clearIntent \<and> \<not> typed_password form
      \<and> has_saved_password (find (\<lambda>p. get p ''name'' = JStr presetName) presets))"

definition validatePresetPassword :: "bool \<Rightarrow> obj \<Rightarrow> obj list \<Rightarrow> string \<Rightarrow> messages \<Rightarrow> bool \<times> messages" where
  "validatePresetPassword clearIntent form presets presetName m =
     (if \<not> truthy (get form ''hide_cm'') \<or> typed_password form \<or> canPreservePresetPassword clearIntent form presets presetName
      then (True, m)
      else (False, m\<lparr>invalid := (invalid m)(''permanent_password'' := JArr [requiredMessage ''permanent_password''])\<rparr>))"

subsection \<open>An address of the server\<close>

definition LOCAL_ADDRESS_FIELDS :: "string list" where
  "LOCAL_ADDRESS_FIELDS = [''server_ip'', ''api_server'', ''relay_server'']"

text \<open>The regular expressions \<open>^\[[^\]]+\]:([0-9]+)$\<close> and \<open>^[^:]+:([0-9]+)$\<close>: what their group matches.\<close>

definition port_digits :: "string \<Rightarrow> string option" where
  "port_digits s =
     (case s of c # ds \<Rightarrow> if c = CHR '':'' \<and> ds \<noteq> [] \<and> list_all is_digit ds then Some ds else None | [] \<Rightarrow> None)"

definition bracketed_port :: "string \<Rightarrow> string option" where
  "bracketed_port s =
     (case s of
        c # r \<Rightarrow>
          if c = CHR ''['' \<and> takeWhile (\<lambda>x. x \<noteq> CHR '']'') r \<noteq> []
          then (case dropWhile (\<lambda>x. x \<noteq> CHR '']'') r of _ # t \<Rightarrow> port_digits t | [] \<Rightarrow> None) else None
      | [] \<Rightarrow> None)"

definition plain_port :: "string \<Rightarrow> string option" where
  "plain_port s =
     (if takeWhile (\<lambda>x. x \<noteq> CHR '':'') s \<noteq> [] then port_digits (dropWhile (\<lambda>x. x \<noteq> CHR '':'') s) else None)"

definition explicit_port :: "string \<Rightarrow> string option" where
  "explicit_port s = (case bracketed_port s of Some p \<Rightarrow> Some p | None \<Rightarrow> plain_port s)"

definition bracket :: "string \<Rightarrow> string" where
  "bracket address =
     (if CHR '':'' \<in> set address \<and> \<not> startsWith address ''['' then ''['' @ address @ '']'' else address)"

text \<open>\<open>/^(https?:\/\/)([^/?#]*)([\s\S]*)$/i\<close>: the length of the first group, and the other two.\<close>

definition scheme_length :: "string \<Rightarrow> nat option" where
  "scheme_length s =
     (if startsWith (toLowerCase s) ''https://'' then Some 8
      else if startsWith (toLowerCase s) ''http://'' then Some 7 else None)"

definition in_authority :: "char \<Rightarrow> bool" where
  "in_authority c = (c \<noteq> CHR ''/'' \<and> c \<noteq> CHR ''?'' \<and> c \<noteq> CHR ''#'')"

text \<open>\<open>/:[0-9]*$/\<close>: the match, or nothing.\<close>

definition port_suffix :: "string \<Rightarrow> string" where
  "port_suffix s =
     (let ds = takeWhile is_digit (rev s)
      in case drop (length ds) (rev s) of
           c # _ \<Rightarrow> if c = CHR '':'' then CHR '':'' # rev ds else []
         | [] \<Rightarrow> [])"

definition localAddressPrefillValue :: "string \<Rightarrow> string \<Rightarrow> string \<Rightarrow> string" where
  "localAddressPrefillValue field address current =
     (if address = [] then address
      else if field \<noteq> ''api_server'' then
        (case explicit_port current of
           None \<Rightarrow> address
         | Some p \<Rightarrow>
             let n = read_digits 0 p
             in if n = 0 \<or> n > 65535 then address else bracket address @ '':'' @ p)
      else
        (let host = bracket address in
         case scheme_length current of
           Some n \<Rightarrow>
             (let authority = takeWhile in_authority (drop n current);
                  rest = dropWhile in_authority (drop n current)
              in if CHR ''@'' \<in> set authority
                 then (if startsWith (toLowerCase current) ''http://'' then ''http://'' else ''https://'') @ host
                 else take n current @ host @ port_suffix authority @ rest)
         | None \<Rightarrow> ''https://'' @ host))"

subsection \<open>Facts about the address\<close>

lemma colon_no_digit [simp]: "\<not> is_digit (CHR '':'')" "is_digit c \<Longrightarrow> in_authority c" "in_authority (CHR '':'')"
  by (auto simp: is_digit_def char_code_def in_authority_def)

text \<open>Reading up to the first element that is not wanted.\<close>

lemma span_stop:
  assumes "list_all P xs" "ys = [] \<or> \<not> P (hd ys)"
  shows "takeWhile P (xs @ ys) = xs" "dropWhile P (xs @ ys) = ys"
  using assms by (induction xs; cases ys; simp)+

lemma port_suffix_colon:
  assumes "list_all is_digit ds"
  shows "port_suffix (h @ CHR '':'' # ds) = CHR '':'' # ds"
proof -
  have "takeWhile is_digit (rev ds @ CHR '':'' # rev h) = rev ds"
    using assms by (intro span_stop(1)) (auto simp: list_all_iff)
  then show ?thesis by (simp add: port_suffix_def)
qed

lemma port_suffix_shape: "port_suffix s = [] \<or> (\<exists>h ds. s = h @ CHR '':'' # ds \<and> list_all is_digit ds \<and> port_suffix s = CHR '':'' # ds)"
proof (cases "drop (length (takeWhile is_digit (rev s))) (rev s)")
  case (Cons c h)
  let ?ds = "takeWhile is_digit (rev s)"
  have "rev s = ?ds @ c # h" using Cons by (metis takeWhile_dropWhile_id dropWhile_eq_drop)
  then have s: "s = rev h @ c # rev ?ds" by (metis append.assoc append_Cons append_Nil rev.simps(2) rev_append rev_rev_ident)
  have d: "list_all is_digit (rev ?ds)" by (auto simp: list_all_iff dest: set_takeWhileD)
  show ?thesis
  proof (cases "c = CHR '':''")
    case True
    then have "port_suffix s = CHR '':'' # rev ?ds" using port_suffix_colon [OF d, of "rev h"] s by metis
    then show ?thesis using s d True by blast
  next
    case False
    then show ?thesis using Cons by (simp add: port_suffix_def Let_def)
  qed
qed (simp add: port_suffix_def Let_def)

text \<open>An address as the server lists it: no brackets, no port, nothing that ends an authority.\<close>

definition bare_address :: "string \<Rightarrow> bool" where
  "bare_address a =
     (a \<noteq> [] \<and> CHR ''['' \<notin> set a \<and> CHR '']'' \<notin> set a \<and> CHR ''@'' \<notin> set a \<and> list_all in_authority a
      \<and> explicit_port a = None)"

lemma bare_bracket:
  assumes "bare_address a"
  shows "bracket a = (if CHR '':'' \<in> set a then ''['' @ a @ '']'' else a)"
    and "list_all in_authority (bracket a)" "CHR ''@'' \<notin> set (bracket a)" "port_suffix (bracket a) = []"
proof -
  show b: "bracket a = (if CHR '':'' \<in> set a then ''['' @ a @ '']'' else a)"
    using assms by (cases a) (auto simp: bare_address_def bracket_def startsWith_def)
  show "list_all in_authority (bracket a)" "CHR ''@'' \<notin> set (bracket a)"
    using assms unfolding b by (auto simp: bare_address_def in_authority_def)
  show "port_suffix (bracket a) = []"
  proof (cases "CHR '':'' \<in> set a")
    case True
    then show ?thesis unfolding b by (simp add: port_suffix_def is_digit_def char_code_def)
  next
    case False
    then show ?thesis unfolding b using port_suffix_shape [of a] by auto
  qed
qed

lemma explicit_port_bracket:
  assumes "bare_address a" "ds \<noteq> []" "list_all is_digit ds"
  shows "explicit_port (bracket a @ CHR '':'' # ds) = Some ds"
proof (cases "CHR '':'' \<in> set a")
  case True
  have "takeWhile (\<lambda>x. x \<noteq> CHR '']'') (a @ CHR '']'' # r) = a" "dropWhile (\<lambda>x. x \<noteq> CHR '']'') (a @ CHR '']'' # r) = CHR '']'' # r" for r
    using assms(1) by (intro span_stop; auto simp: bare_address_def list_all_iff)+
  then have "bracketed_port (bracket a @ CHR '':'' # ds) = Some ds"
    using True assms by (simp add: bare_bracket(1) bracketed_port_def port_digits_def bare_address_def)
  then show ?thesis by (simp add: explicit_port_def)
next
  case False
  then have "bracketed_port (bracket a @ CHR '':'' # ds) = None"
    using assms(1) by (cases a) (auto simp: bare_bracket(1) bracketed_port_def bare_address_def)
  moreover have "takeWhile (\<lambda>x. x \<noteq> CHR '':'') (a @ CHR '':'' # ds) = a" "dropWhile (\<lambda>x. x \<noteq> CHR '':'') (a @ CHR '':'' # ds) = CHR '':'' # ds"
    using False by (intro span_stop; auto simp: list_all_iff)+
  then have "plain_port (a @ CHR '':'' # ds) = Some ds"
    using assms by (simp add: plain_port_def bare_address_def port_digits_def)
  ultimately show ?thesis using False assms(1) by (simp add: explicit_port_def bare_bracket(1))
qed

lemma explicit_port_digits: "explicit_port s = Some p \<Longrightarrow> p \<noteq> [] \<and> list_all is_digit p"
  by (auto simp: explicit_port_def bracketed_port_def plain_port_def port_digits_def split: option.splits list.splits if_splits)

lemma scheme_cases:
  assumes "scheme_length s = Some n"
  obtains r where "toLowerCase s = ''https://'' @ r" "n = 8" | r where "toLowerCase s = ''http://'' @ r" "n = 7"
  using assms unfolding scheme_length_def startsWith_iff prefix_def by (auto split: if_splits)

lemma scheme_length_lower:
  "toLowerCase s = ''https://'' @ r \<Longrightarrow> scheme_length s = Some 8"
  "toLowerCase s = ''http://'' @ r \<Longrightarrow> scheme_length s = Some 7"
  by (simp_all add: scheme_length_def startsWith_def)

lemma scheme_take:
  assumes "scheme_length s = Some n"
  shows "scheme_length (take n s @ r) = Some n"
proof -
  have t: "toLowerCase (take n s @ r) = take n (toLowerCase s) @ toLowerCase r" by (simp add: toLowerCase_def take_map)
  show ?thesis using assms
  proof (cases rule: scheme_cases)
    case 1
    have "toLowerCase (take n s @ r) = ''https://'' @ toLowerCase r" by (subst t) (simp add: 1)
    then show ?thesis using 1(2) scheme_length_lower(1) by blast
  next
    case 2
    have "toLowerCase (take n s @ r) = ''http://'' @ toLowerCase r" by (subst t) (simp add: 2)
    then show ?thesis using 2(2) scheme_length_lower(2) by blast
  qed
qed

lemma scheme_length_le: "scheme_length s = Some n \<Longrightarrow> n \<le> length s"
proof -
  assume "scheme_length s = Some n"
  then have "n \<le> length (toLowerCase s)" by (cases rule: scheme_cases) simp_all
  then show ?thesis by (simp add: toLowerCase_def)
qed

text \<open>The parts of an endpoint that is read.\<close>

lemma prefill_url:
  assumes "bare_address a" "scheme_length sch = Some (length sch)" "list_all in_authority host" "CHR ''@'' \<notin> set host"
    and "rest = [] \<or> \<not> in_authority (hd rest)"
  shows "localAddressPrefillValue ''api_server'' a (sch @ host @ rest) = sch @ bracket a @ port_suffix host @ rest"
proof -
  have "scheme_length (sch @ host @ rest) = Some (length sch)"
    using scheme_take [OF assms(2), of "host @ rest"] by simp
  moreover have "takeWhile in_authority (host @ rest) = host" "dropWhile in_authority (host @ rest) = rest"
    by (rule span_stop [OF assms(3,5)])+
  ultimately show ?thesis using assms(1,4) by (simp add: localAddressPrefillValue_def bare_address_def Let_def)
qed

lemma digits_authority: "list_all is_digit ds \<Longrightarrow> list_all in_authority ds \<and> CHR ''@'' \<notin> set ds"
  by (auto simp: list_all_iff is_digit_def char_code_def)

lemma port_suffix_authority:
  assumes "bare_address a"
  shows "list_all in_authority (bracket a @ port_suffix s)" "CHR ''@'' \<notin> set (bracket a @ port_suffix s)"
    "port_suffix (bracket a @ port_suffix s) = port_suffix s"
proof -
  show "list_all in_authority (bracket a @ port_suffix s)" "CHR ''@'' \<notin> set (bracket a @ port_suffix s)"
    using bare_bracket(2,3) [OF assms] port_suffix_shape [of s] digits_authority by auto
  show "port_suffix (bracket a @ port_suffix s) = port_suffix s"
    using port_suffix_shape [of s] port_suffix_colon bare_bracket(4) [OF assms] by auto
qed

lemma prefill_api_fixed:
  assumes "bare_address a"
  shows "localAddressPrefillValue ''api_server'' a (localAddressPrefillValue ''api_server'' a cur) =
    localAddressPrefillValue ''api_server'' a cur"
proof -
  define sch where "sch = (if startsWith (toLowerCase cur) ''http://'' then ''http://'' else ''https://'')"
  have ne: "a \<noteq> []" using assms by (simp add: bare_address_def)
  have plain: "localAddressPrefillValue ''api_server'' a (s @ bracket a) = s @ bracket a"
    if "s = ''http://'' \<or> s = ''https://''" for s
  proof -
    have "scheme_length s = Some (length s)" using that by (auto simp: scheme_length_def startsWith_def toLowerCase_def lower_char_def char_code_def chr_def)
    then show ?thesis using prefill_url [OF assms _ bare_bracket(2,3) [OF assms], of s "[]"] bare_bracket(4) [OF assms] by simp
  qed
  have sch: "sch = ''http://'' \<or> sch = ''https://''" by (simp add: sch_def)
  show ?thesis
  proof (cases "scheme_length cur")
    case None
    then show ?thesis using ne plain [of "''https://''"] by (simp add: localAddressPrefillValue_def)
  next
    case (Some n)
    define host rest where "host = takeWhile in_authority (drop n cur)" and "rest = dropWhile in_authority (drop n cur)"
    show ?thesis
    proof (cases "CHR ''@'' \<in> set host")
      case True
      then have "localAddressPrefillValue ''api_server'' a cur = sch @ bracket a"
        using Some ne by (simp add: localAddressPrefillValue_def host_def sch_def Let_def)
      then show ?thesis using plain [OF sch] by simp
    next
      case False
      have v: "localAddressPrefillValue ''api_server'' a cur = take n cur @ bracket a @ port_suffix host @ rest"
        using False Some ne by (simp add: localAddressPrefillValue_def host_def rest_def Let_def)
      have "scheme_length (take n cur) = Some (length (take n cur))"
        using scheme_take [OF Some, of "[]"] scheme_length_le [OF Some] by simp
      moreover have "rest = [] \<or> \<not> in_authority (hd rest)"
        using hd_dropWhile unfolding rest_def by blast
      ultimately have "localAddressPrefillValue ''api_server'' a (take n cur @ (bracket a @ port_suffix host) @ rest)
          = take n cur @ bracket a @ port_suffix host @ rest"
        using prefill_url [OF assms, of "take n cur" "bracket a @ port_suffix host" rest] port_suffix_authority [OF assms] by simp
      then show ?thesis using v by simp
    qed
  qed
qed

lemma prefill_host_fixed:
  assumes "bare_address a" "f \<noteq> ''api_server''"
  shows "localAddressPrefillValue f a (localAddressPrefillValue f a cur) = localAddressPrefillValue f a cur"
proof -
  have ne: "a \<noteq> []" "explicit_port a = None" using assms(1) by (simp_all add: bare_address_def)
  show ?thesis
  proof (cases "explicit_port cur")
    case (Some p)
    then show ?thesis
      using ne explicit_port_bracket [OF assms(1), of p] explicit_port_digits [OF Some] assms(2)
      by (simp add: localAddressPrefillValue_def Let_def)
  qed (use ne assms(2) in \<open>simp add: localAddressPrefillValue_def\<close>)
qed

text \<open>
  Choosing an address of the server for a field replaces the host and nothing else: the scheme,
  the port (also an empty one), the path, the query and the fragment of an endpoint stay as entered,
  an address with colons is put in brackets, and choosing the same address again changes nothing, in
  any of the three fields and for any text in it.
\<close>

lemma address_prefill:
  assumes "bare_address a" "scheme_length sch = Some (length sch)" "list_all in_authority host" "CHR ''@'' \<notin> set host"
    and "list_all is_digit ds" "rest = [] \<or> \<not> in_authority (hd rest)"
  shows "localAddressPrefillValue f a (localAddressPrefillValue f a cur) = localAddressPrefillValue f a cur
    \<and> localAddressPrefillValue ''api_server'' a (sch @ host @ '':'' @ ds @ rest) = sch @ bracket a @ '':'' @ ds @ rest"
proof
  show "localAddressPrefillValue f a (localAddressPrefillValue f a cur) = localAddressPrefillValue f a cur"
    by (cases "f = ''api_server''") (simp_all only: prefill_api_fixed [OF assms(1)] prefill_host_fixed [OF assms(1)] not_False_eq_True)
  have "list_all in_authority (host @ CHR '':'' # ds)" "CHR ''@'' \<notin> set (host @ CHR '':'' # ds)"
    using assms(3,4) digits_authority [OF assms(5)] by simp_all
  then show "localAddressPrefillValue ''api_server'' a (sch @ host @ '':'' @ ds @ rest) = sch @ bracket a @ '':'' @ ds @ rest"
    using prefill_url [OF assms(1,2) _ _ assms(6), of "host @ CHR '':'' # ds"] port_suffix_colon [OF assms(5), of host] by simp
qed

subsection \<open>Facts about presets\<close>

lemma get_fold_put:
  "get (fold (\<lambda>f form. if P f then put form f (v f) else form) fs form) k =
     (if k \<in> set fs \<and> P k then v k else get form k)"
  by (induction fs arbitrary: form) auto

lemma get_pick: "get (pick fs form) k = (if k \<in> set fs then get form k else JUndef)"
  by (induction fs) (auto simp: pick_def)

lemma keys_pick [simp]: "keys (pick fs form) = fs"
  by (simp add: keys_def pick_def comp_def)

lemma get_preset_fill:
  "get (preset_fill preset cfg form) k =
     (if k \<in> set SUBMITTED_RECORD_FIELDS \<and> k \<in> set (keys preset)
      then (if nullish (get preset k) then JStr [] else get preset k)
      else if k \<in> set PRESET_FIELDS \<and> k \<in> set (keys cfg) \<and> get cfg k \<noteq> JUndef then get cfg k
      else get form k)"
  unfolding preset_fill_def Let_def get_fold_put by simp

lemma get_applyServerConfigDefaults:
  "get (applyServerConfigDefaults explicit defaults form) k =
     (if k \<in> set (keys defaults) \<and> k \<notin> set explicit \<and> \<not> truthy (get form k) then get defaults k else get form k)"
proof -
  have "get (fold (\<lambda>f form. if f \<notin> set explicit \<and> \<not> truthy (get form f) then put form f (get defaults f) else form) fs form) k
    = (if k \<in> set fs \<and> k \<notin> set explicit \<and> \<not> truthy (get form k) then get defaults k else get form k)" for fs
    by (induction fs arbitrary: form) auto
  then show ?thesis by (simp add: applyServerConfigDefaults_def)
qed

lemma preset_fields_disjoint: "list_all (\<lambda>f. \<not> List.member PRESET_FIELDS f) SUBMITTED_RECORD_FIELDS"
  by code_simp

lemma distinct_preset_fields:
  "distinct PRESET_FIELDS" "submittedFieldNames = PRESET_FIELDS @ SUBMITTED_RECORD_FIELDS"
  by code_simp (use preset_fields_disjoint in \<open>simp add: submittedFieldNames_def list_all_iff filter_id_conv\<close>)

lemma preset_config_saved:
  assumes "\<forall>f \<in> set PRESET_FIELDS. json_ok (get form f)" "get preset ''custom_json'' = JStr (custom_json form)"
  shows "preset_config preset = Some (pick PRESET_FIELDS form)"
proof -
  have "json_ok (JObj (pick PRESET_FIELDS form))"
    using assms(1) distinct_preset_fields(1) by (simp add: pick_def comp_def list_all_iff)
  moreover have "custom_json form \<noteq> []" by (simp add: custom_json_def)
  ultimately show ?thesis
    using assms(2) JSON_round_trip [of "JObj (pick PRESET_FIELDS form)"]
    by (simp add: preset_config_def js_or_def custom_json_def)
qed

lemma saved_preset_fields:
  assumes "\<forall>f \<in> set PRESET_FIELDS. json_ok (get form f)"
    and "\<forall>f \<in> set SUBMITTED_RECORD_FIELDS. get preset f = get form f \<and> f \<in> set (keys preset) \<and> \<not> nullish (get form f)"
    and "k \<in> set submittedFieldNames"
  shows "get (preset_fill preset (pick PRESET_FIELDS form) form') k = get form k"
    and "k \<in> set (preset_explicit preset (pick PRESET_FIELDS form))"
proof -
  have u: "get form f \<noteq> JUndef" if "f \<in> set PRESET_FIELDS" for f using assms(1) that by fastforce
  show "get (preset_fill preset (pick PRESET_FIELDS form) form') k = get form k"
    using assms(2,3) u by (auto simp: get_preset_fill get_pick distinct_preset_fields(2))
  show "k \<in> set (preset_explicit preset (pick PRESET_FIELDS form))"
    using assms(2,3) u by (auto simp: preset_explicit_def get_pick distinct_preset_fields(2))
qed

end
