(* ===== verification/CustomClient.thy ===== *)
theory CustomClient
  imports BuildForm
begin

text \<open>
  The page of the client builder (\<open>admin-ui/src/views/custom-client/index.vue\<close>): its state, its
  requests and its operations. An operation that awaits a request is split there: the first part puts
  the request among those in flight, the second takes the answer. The answers may come in any order,
  and \<open>builder_step\<close> lets every operation of the page happen in between.

  Left out are what only concerns the DOM (focus, ARIA attributes, the element of the preset selector)
  and the console. A dialog's answer is an argument of the operation that awaits it: the dialogs are
  modal, and the operations read the state after them. The component is on the page, so \<open>formRef\<close> is set.
\<close>

subsection \<open>State\<close>

datatype versions_state = VLoading | VReady | VEmpty | VError

record picker =
  pk_visible :: bool
  pk_field :: string
  pk_loading :: bool
  pk_error :: string
  pk_addresses :: "jsval"

text \<open>The requests: the generation of a load and whether it is silent, or what the code keeps for the answer.\<close>

datatype request =
    BuildsReq nat bool
  | PresetsReq nat
  | VersionsReq nat
  | ConfigReq nat
  | AddressReq nat
  | CreateReq snapshot
  | SaveReq snapshot
  | RemovePresetReq jsval
  | RemoveBuildReq
  | DownloadReq jsval
  | DecodeReq
  | UploadReq string

record builder =
  b_form :: obj
  b_explicit :: "string list"
  b_defaults :: obj
  b_clear :: bool
  b_show :: bool
  b_messages :: messages
  b_picker :: picker
  b_builds :: "obj list"
  b_history :: "(string \<times> string) list"
  b_loading :: bool
  b_submitting :: bool
  b_downloading :: jsval
  b_state :: versions_state
  b_versions :: jsval
  b_error :: string
  b_page :: int
  b_page_size :: int
  b_total :: jsval
  b_presets :: "obj list"
  b_selected :: jsval
  b_no_public :: bool
  b_generations :: "string \<Rightarrow> nat"
  b_mounted :: bool
  b_polling :: bool
  b_inflight :: "request list"
  b_calls :: "config list"
  b_toasts :: "toast list"
  b_files :: "string list"

definition no_defaults :: obj where
  "no_defaults = [(''server_ip'', JStr []), (''key'', JStr []), (''api_server'', JStr []), (''relay_server'', JStr [])]"

definition builder_init :: builder where
  "builder_init =
     \<lparr>b_form = FORM_DEFAULTS, b_explicit = [], b_defaults = no_defaults, b_clear = False, b_show = False,
      b_messages = no_messages,
      b_picker = \<lparr>pk_visible = False, pk_field = [], pk_loading = False, pk_error = [], pk_addresses = JArr []\<rparr>,
      b_builds = [], b_history = [], b_loading = False, b_submitting = False, b_downloading = JNull,
      b_state = VLoading, b_versions = JArr [], b_error = [], b_page = 1, b_page_size = 10, b_total = JNum 0,
      b_presets = [], b_selected = JNull, b_no_public = False, b_generations = (\<lambda>_. 0), b_mounted = False,
      b_polling = False, b_inflight = [], b_calls = [], b_toasts = [], b_files = []\<rparr>"

definition issue :: "request \<Rightarrow> config \<Rightarrow> builder \<Rightarrow> builder" where
  "issue r cfg c = c\<lparr>b_inflight := b_inflight c @ [r], b_calls := b_calls c @ [cfg]\<rparr>"

definition say :: "toast \<Rightarrow> builder \<Rightarrow> builder" where
  "say t c = c\<lparr>b_toasts := b_toasts c @ [t]\<rparr>"

definition with_messages :: "(messages \<Rightarrow> messages) \<Rightarrow> builder \<Rightarrow> builder" where
  "with_messages f c = c\<lparr>b_messages := f (b_messages c)\<rparr>"

subsection \<open>The guard of the requests\<close>

definition guard_start :: "string \<Rightarrow> builder \<Rightarrow> builder" where
  "guard_start key c = c\<lparr>b_generations := (b_generations c)(key := b_generations c key + 1)\<rparr>"

definition isCurrent :: "string \<Rightarrow> nat \<Rightarrow> builder \<Rightarrow> bool" where
  "isCurrent key generation c = (b_mounted c \<and> b_generations c key = generation)"

subsection \<open>The builds\<close>

definition hasActiveBuilds :: "obj list \<Rightarrow> bool" where
  "hasActiveBuilds bs =
     list_ex (\<lambda>b. get b ''status'' \<in> {JStr ''pending'', JStr ''building'', JStr ''downloading'', JStr ''extracting''}) bs"

definition statusType :: "jsval \<Rightarrow> string" where
  "statusType s =
     (if s = JStr ''pending'' then ''info'' else if s = JStr ''building'' then ''warning''
      else if s = JStr ''downloading'' then ''warning'' else if s = JStr ''extracting'' then ''warning''
      else if s = JStr ''done'' then ''success'' else if s = JStr ''failed'' then ''danger'' else ''info'')"

definition statusLabel :: "jsval \<Rightarrow> jsval" where
  "statusLabel s =
     (if s = JStr ''pending'' then JStr ''Pending'' else if s = JStr ''building'' then JStr ''Building''
      else if s = JStr ''downloading'' then JStr ''Downloading'' else if s = JStr ''extracting'' then JStr ''Extracting''
      else if s = JStr ''done'' then JStr ''Done'' else if s = JStr ''failed'' then JStr ''Failed'' else s)"

text \<open>The builds with another status than before; of builds with the same id the last one counts.\<close>

definition changed_builds :: "obj list \<Rightarrow> obj list \<Rightarrow> obj list" where
  "changed_builds previous next' =
     (let by_id = map_of (rev (map (\<lambda>b. (get b ''id'', get b ''status'')) previous))
      in filter (\<lambda>b. case by_id (get b ''id'') of None \<Rightarrow> False | Some s \<Rightarrow> s \<noteq> get b ''status'') next')"

text \<open>The announcement is kept as the list of names and status labels it is made of.\<close>

definition announceBuildStatusChanges :: "obj list \<Rightarrow> obj list \<Rightarrow> builder \<Rightarrow> builder" where
  "announceBuildStatusChanges previous next' c =
     (let changed = changed_builds previous next'
      in if changed = [] then c
         else c\<lparr>b_history :=
           map (\<lambda>b. (toStr (js_or (get b ''app_name'') (JStr (''#'' @ toStr (get b ''id'')))),
                     toStr (statusLabel (get b ''status'')))) changed\<rparr>)"

definition stopPolling :: "builder \<Rightarrow> builder" where
  "stopPolling c = c\<lparr>b_polling := False\<rparr>"

definition ensurePolling :: "builder \<Rightarrow> builder" where
  "ensurePolling c =
     (if \<not> b_mounted c then c
      else if \<not> hasActiveBuilds (b_builds c) then stopPolling c
      else c\<lparr>b_polling := True\<rparr>)"

definition loadBuilds :: "bool \<Rightarrow> builder \<Rightarrow> builder" where
  "loadBuilds silent c =
     (if \<not> b_mounted c then c
      else
        (let c = guard_start ''builds'' c;
             c = (if silent then c else c\<lparr>b_loading := True\<rparr>)
         in issue (BuildsReq (b_generations c ''builds'') silent)
              (custom_client_list (JObj [(''page'', JNum (b_page c)), (''page_size'', JNum (b_page_size c))])) c))"

text \<open>From the answer on: a page, or \<open>None\<close> for a rejected call.\<close>

definition show_builds :: "bool \<Rightarrow> Crud.page \<Rightarrow> builder \<Rightarrow> builder" where
  "show_builds silent res c =
     (let c = (if silent then announceBuildStatusChanges (b_builds c) (page_list res) c else c)
      in c\<lparr>b_builds := page_list res, b_total := js_or (page_total res) (JNum 0)\<rparr>)"

definition builds_loaded :: "nat \<Rightarrow> bool \<Rightarrow> Crud.page option \<Rightarrow> builder \<Rightarrow> builder" where
  "builds_loaded generation silent res c =
     (if \<not> isCurrent ''builds'' generation c then c
      else
        (let c = (case res of None \<Rightarrow> c | Some pg \<Rightarrow> show_builds silent pg c)
         in ensurePolling (if silent then c else c\<lparr>b_loading := False\<rparr>)))"

text \<open>The timer, while it runs.\<close>

definition poll_tick :: "builder \<Rightarrow> builder" where
  "poll_tick c =
     (if \<not> b_polling c then c else if \<not> b_mounted c then stopPolling c else loadBuilds True c)"

definition unmount :: "builder \<Rightarrow> builder" where
  "unmount c = stopPolling (c\<lparr>b_mounted := False\<rparr>)"

subsection \<open>Versions and configuration\<close>

text \<open>\<open>extractApiError\<close>: the first text among the messages of the two envelopes, or the fallback.\<close>

definition text_of :: "jsval \<Rightarrow> string option" where
  "text_of v = (case v of JStr s \<Rightarrow> if trim s \<noteq> [] then Some (trim s) else None | _ \<Rightarrow> None)"

definition extractApiError :: "jsval \<Rightarrow> string \<Rightarrow> string" where
  "extractApiError error fallbackKey =
     (let envelopes = [opt_prop (opt_prop error ''response'') ''data'',
                       (case opt_prop error ''code'' of JNum _ \<Rightarrow> error | _ \<Rightarrow> JNull)];
          texts = List.map_filter text_of
            (concat (map (\<lambda>v. [opt_prop v ''message'', opt_prop (opt_prop v ''data'') ''message'']) envelopes))
      in case texts of [] \<Rightarrow> fallbackKey | s # _ \<Rightarrow> s)"

definition loadVersions :: "builder \<Rightarrow> builder" where
  "loadVersions c =
     (if \<not> b_mounted c then c
      else
        (let c = (guard_start ''versions'' c)\<lparr>b_error := []\<rparr>
         in issue (VersionsReq (b_generations c ''versions'')) custom_client_getVersions c))"

definition versions_loaded :: "nat \<Rightarrow> jsval + jsval \<Rightarrow> builder \<Rightarrow> builder" where
  "versions_loaded generation ans c =
     (if \<not> isCurrent ''versions'' generation c then c
      else
        (case ans of
           Inl e \<Rightarrow> c\<lparr>b_error := extractApiError e ''VersionListError'', b_versions := JArr [], b_state := VError\<rparr>
         | Inr res \<Rightarrow>
             (let data = js_or (opt_prop res ''data'') (JObj []);
                  list = js_or (opt_prop data ''versions'') (JArr []);
                  c = c\<lparr>b_versions := list\<rparr>
              in if truthy (opt_prop data ''error'') \<or> truthy (opt_prop data ''message'')
                 then c\<lparr>b_error := extractApiError data ''VersionListError'', b_state := VError\<rparr>
                 else c\<lparr>b_error := [], b_state := (case list of JArr (_ # _) \<Rightarrow> VReady | _ \<Rightarrow> VEmpty)\<rparr>)))"

definition loadConfig :: "builder \<Rightarrow> builder" where
  "loadConfig c =
     (if \<not> b_mounted c then c
      else
        (let c = guard_start ''config'' c
         in issue (ConfigReq (b_generations c ''config'')) config_all c))"

definition apply_defaults :: "builder \<Rightarrow> builder" where
  "apply_defaults c = c\<lparr>b_form := applyServerConfigDefaults (b_explicit c) (b_defaults c) (b_form c)\<rparr>"

definition config_loaded :: "nat \<Rightarrow> jsval option \<Rightarrow> builder \<Rightarrow> builder" where
  "config_loaded generation res c =
     (case res of
        None \<Rightarrow> c
      | Some r \<Rightarrow>
          if \<not> isCurrent ''config'' generation c then c
          else
            (let cfg = opt_prop r ''data'' in
             if \<not> truthy cfg then c
             else
               (let first = (\<lambda>a b. js_or (opt_prop cfg a) (js_or (opt_prop cfg b) (JStr [])))
                in apply_defaults
                     (c\<lparr>b_no_public := \<not> truthy (opt_prop cfg ''public_api_server''),
                        b_defaults := spread (b_defaults c)
                          [(''server_ip'', first ''public_id_server'' ''id_server''),
                           (''key'', js_or (opt_prop cfg ''key'') (JStr [])),
                           (''api_server'', first ''public_api_server'' ''api_server''),
                           (''relay_server'', first ''public_relay_server'' ''relay_server'')]\<rparr>))))"

subsection \<open>The form\<close>

definition resetFormFields :: "builder \<Rightarrow> builder" where
  "resetFormFields c =
     c\<lparr>b_form := spread (b_form c) FORM_DEFAULTS, b_explicit := [], b_clear := False, b_show := False,
       b_messages := no_messages\<rparr>"

definition resetForm :: "builder \<Rightarrow> builder" where
  "resetForm c = resetFormFields (c\<lparr>b_selected := JNull\<rparr>)"

definition set_field :: "string \<Rightarrow> jsval \<Rightarrow> builder \<Rightarrow> builder" where
  "set_field field v c = c\<lparr>b_form := put (b_form c) field v\<rparr>"

definition onPlatformChange :: "builder \<Rightarrow> builder" where
  "onPlatformChange c = c\<lparr>b_messages := no_messages\<rparr>"

definition useServerKey :: "builder \<Rightarrow> builder" where
  "useServerKey c =
     (if \<not> truthy (get (b_defaults c) ''key'') then c
      else with_messages (clearFieldError ''key'') (set_field ''key'' (get (b_defaults c) ''key'') c))"

subsection \<open>The picker of an address\<close>

definition openLocalAddressPicker :: "string \<Rightarrow> builder \<Rightarrow> builder" where
  "openLocalAddressPicker field c =
     (if field \<notin> set LOCAL_ADDRESS_FIELDS then c
      else
        (let c = guard_start ''localAddresses'' c
         in issue (AddressReq (b_generations c ''localAddresses'')) config_serverAddresses
              (c\<lparr>b_picker := \<lparr>pk_visible = True, pk_field = field, pk_loading = True, pk_error = [],
                 pk_addresses = JArr []\<rparr>\<rparr>)))"

definition addresses_loaded :: "nat \<Rightarrow> jsval option \<Rightarrow> builder \<Rightarrow> builder" where
  "addresses_loaded generation res c =
     (if \<not> isCurrent ''localAddresses'' generation c then c
      else
        (case res of
           None \<Rightarrow> c\<lparr>b_picker := (b_picker c)\<lparr>pk_error := ''CustomClientLocalIpLoadError'', pk_loading := False\<rparr>\<rparr>
         | Some r \<Rightarrow>
             c\<lparr>b_picker := (b_picker c)
                \<lparr>pk_addresses := js_or (opt_prop (opt_prop r ''data'') ''addresses'') (JArr []), pk_loading := False\<rparr>\<rparr>))"

text \<open>
  The address of a candidate is a text. A field that is no text (a preset can hold one) raises before
  anything is changed.
\<close>

definition useLocalAddress :: "string \<Rightarrow> builder \<Rightarrow> builder" where
  "useLocalAddress address c =
     (let field = pk_field (b_picker c) in
      if field \<notin> set LOCAL_ADDRESS_FIELDS \<or> address = [] then c
      else
        (case get (b_form c) field of
           JStr current \<Rightarrow>
             (let c = set_field field (JStr (localAddressPrefillValue field address current)) c;
                  c = with_messages (clearFieldError field) c
              in c\<lparr>b_picker := (b_picker c)\<lparr>pk_visible := False\<rparr>\<rparr>)
         | _ \<Rightarrow> c))"

definition closeLocalAddressPicker :: "builder \<Rightarrow> builder" where
  "closeLocalAddressPicker c =
     (let c = guard_start ''localAddresses'' c in c\<lparr>b_picker := (b_picker c)\<lparr>pk_visible := False\<rparr>\<rparr>)"

subsection \<open>Presets\<close>

definition selectedPreset :: "builder \<Rightarrow> obj option" where
  "selectedPreset c = find (\<lambda>p. get p ''id'' = b_selected c) (b_presets c)"

definition clearSavedPresetPassword :: "builder \<Rightarrow> builder" where
  "clearSavedPresetPassword c =
     (if \<not> has_saved_password (selectedPreset c) then c
      else with_messages (clearFieldError ''permanent_password'')
             ((set_field ''permanent_password'' (JStr []) c)\<lparr>b_clear := True, b_show := False\<rparr>))"

definition loadPresets :: "builder \<Rightarrow> builder" where
  "loadPresets c =
     (if \<not> b_mounted c then c
      else
        (let c = guard_start ''presets'' c
         in issue (PresetsReq (b_generations c ''presets''))
              (custom_preset_list (JObj [(''page'', JNum 1), (''page_size'', JNum 100)])) c))"

definition presets_loaded :: "nat \<Rightarrow> obj list option \<Rightarrow> builder \<Rightarrow> builder" where
  "presets_loaded generation res c =
     (if \<not> isCurrent ''presets'' generation c then c
      else (case res of None \<Rightarrow> c | Some list \<Rightarrow> c\<lparr>b_presets := list\<rparr>))"

text \<open>A text that is no JSON raises before the form is touched.\<close>

definition loadPresetIntoForm :: "obj \<Rightarrow> builder \<Rightarrow> builder" where
  "loadPresetIntoForm preset c =
     (case preset_config preset of
        None \<Rightarrow> c
      | Some cfg \<Rightarrow>
          (let c = resetFormFields c;
               c = c\<lparr>b_form := preset_fill preset cfg (b_form c), b_explicit := preset_explicit preset cfg\<rparr>;
               c = apply_defaults c
           in say (Success ''OperationSuccess'') (c\<lparr>b_messages := no_messages\<rparr>)))"

text \<open>The selector writes the selection first.\<close>

definition onPresetSelect :: "jsval \<Rightarrow> builder \<Rightarrow> builder" where
  "onPresetSelect i c =
     (if \<not> truthy i then resetForm c
      else (case find (\<lambda>p. get p ''id'' = i) (b_presets c) of None \<Rightarrow> c | Some p \<Rightarrow> loadPresetIntoForm p c))"

definition select_preset :: "jsval \<Rightarrow> builder \<Rightarrow> builder" where
  "select_preset i c = onPresetSelect i (c\<lparr>b_selected := i\<rparr>)"

text \<open>\<open>name\<close> is the answer of the prompt, \<open>None\<close> when it was cancelled.\<close>

definition preset_payload :: "string \<Rightarrow> builder \<Rightarrow> obj" where
  "preset_payload name c =
     [(''name'', JStr name), (''platform'', get (b_form c) ''platform''), (''version'', get (b_form c) ''version''),
      (''app_name'', get (b_form c) ''app_name''), (''custom_json'', JStr (custom_json (b_form c))),
      (''preserve_permanent_password'', JBool (canPreservePresetPassword (b_clear c) (b_form c) (b_presets c) name))]"

definition saveCurrentAsPreset :: "string option \<Rightarrow> builder \<Rightarrow> builder" where
  "saveCurrentAsPreset name c =
     (case name of
        Some (x # xs) \<Rightarrow>
          (let name = x # xs;
               (ok, m) = validatePresetPassword (b_clear c) (b_form c) (b_presets c) name (b_messages c);
               c = c\<lparr>b_messages := m\<rparr>
           in if ok
              then issue (SaveReq (snapshotSubmittedFields (b_form c) (b_selected c)))
                     (custom_preset_create (JObj (preset_payload name c))) c
              else c)
      | _ \<Rightarrow> c)"

text \<open>A rejection is an error object, with whether it is one of axios.\<close>

definition preset_saved :: "snapshot \<Rightarrow> (bool \<times> jsval) option \<Rightarrow> builder \<Rightarrow> builder" where
  "preset_saved sn rejection c =
     (case rejection of
        None \<Rightarrow> loadPresets (say (Success ''OperationSuccess'') c)
      | Some (axios, e) \<Rightarrow> with_messages (reportCreateBuildFailure axios e (Some sn) (b_form c)) c)"

definition deletePreset :: "obj \<Rightarrow> bool \<Rightarrow> builder \<Rightarrow> builder" where
  "deletePreset preset confirmed c =
     (if \<not> confirmed then c
      else issue (RemovePresetReq (get preset ''id'')) (custom_preset_remove (JObj [(''id'', get preset ''id'')])) c)"

definition preset_deleted :: "jsval \<Rightarrow> bool \<Rightarrow> builder \<Rightarrow> builder" where
  "preset_deleted i ok c =
     (if \<not> ok then c
      else loadPresets (say (Success ''OperationSuccess'') (if b_selected c = i then c\<lparr>b_selected := JNull\<rparr> else c)))"

subsection \<open>Submitting a build\<close>

definition productionPlatformReady :: "obj \<Rightarrow> bool" where
  "productionPlatformReady form = (get form ''platform'' \<in> {JStr ''windows'', JStr ''linux''})"

text \<open>The state in which the button is disabled.\<close>

definition start_disabled :: "builder \<Rightarrow> bool" where
  "start_disabled c =
     (b_state c \<noteq> VReady \<or> (truthy (get (b_form c) ''platform'') \<and> \<not> productionPlatformReady (b_form c)) \<or> b_submitting c)"

definition create_payload :: "builder \<Rightarrow> obj" where
  "create_payload c =
     [(''name'', get (b_form c) ''app_name''), (''platform'', get (b_form c) ''platform''),
      (''version'', get (b_form c) ''version''), (''app_name'', get (b_form c) ''app_name''),
      (''custom_json'', JStr (custom_json (b_form c)))]
     @ (if truthy (b_selected c) then [(''preset_id'', b_selected c)] else [])"

definition submitBuild :: "(string \<Rightarrow> jsval) option \<Rightarrow> builder \<Rightarrow> builder" where
  "submitBuild verdict c =
     (let (ok, m) = validateBuildForm verdict (b_form c) (b_messages c);
          c = c\<lparr>b_messages := m\<rparr>
      in if \<not> ok then c
         else if \<not> productionPlatformReady (b_form c) then say (Warning ''ProductionPlatformUnavailable'') c
         else if b_state c \<noteq> VReady
         then say (Warning (case b_state c of VLoading \<Rightarrow> ''VersionListLoading'' | VEmpty \<Rightarrow> ''VersionListEmpty''
                              | _ \<Rightarrow> ''VersionListError'')) c
         else
           (let c = c\<lparr>b_submitting := True\<rparr>
            in issue (CreateReq (snapshotSubmittedFields (b_form c) (b_selected c)))
                 (custom_client_create (JObj (create_payload c))) c))"

definition build_created :: "snapshot \<Rightarrow> (bool \<times> jsval) option \<Rightarrow> builder \<Rightarrow> builder" where
  "build_created sn rejection c =
     (let c = (case rejection of
                 None \<Rightarrow>
                   (let c = say (Success ''OperationSuccess'') c;
                        c = (if isSubmittedSnapshotCurrent sn (b_form c) (b_selected c) then resetForm c else c)
                    in loadBuilds False c)
               | Some (axios, e) \<Rightarrow> with_messages (reportCreateBuildFailure axios e (Some sn) (b_form c)) c)
      in c\<lparr>b_submitting := False\<rparr>)"

subsection \<open>Deleting and downloading\<close>

definition deleteBuild :: "obj \<Rightarrow> bool \<Rightarrow> builder \<Rightarrow> builder" where
  "deleteBuild row confirmed c =
     (if \<not> confirmed then c
      else issue RemoveBuildReq (custom_client_remove (JObj [(''id'', get row ''id'')])) c)"

definition build_deleted :: "bool \<Rightarrow> builder \<Rightarrow> builder" where
  "build_deleted ok c = (if ok then loadBuilds False (say (Success ''OperationSuccess'') c) else c)"

definition downloadBuild :: "obj \<Rightarrow> builder \<Rightarrow> builder" where
  "downloadBuild row c =
     (if b_downloading c = get row ''id'' then c
      else issue (DownloadReq (get row ''id'')) (custom_client_download (get row ''id''))
             (c\<lparr>b_downloading := get row ''id''\<rparr>))"

text \<open>\<open>/filename="?([^";]+)"?/i\<close>: the group of the first match.\<close>

fun match_filename :: "string \<Rightarrow> string option" where
  "match_filename [] = None"
| "match_filename (c # s) =
     (let name = takeWhile (\<lambda>x. x \<noteq> quote \<and> x \<noteq> CHR '';'')
                   (let r = drop 9 (c # s) in case r of x # r' \<Rightarrow> if x = quote then r' else r | [] \<Rightarrow> [])
      in if startsWith (toLowerCase (c # s)) ''filename='' \<and> name \<noteq> [] then Some name else match_filename s)"

text \<open>An answer carries its headers, which are texts or missing.\<close>

definition content_type :: "jsval \<Rightarrow> string" where
  "content_type hs =
     toLowerCase (trim (hd (split_on (CHR '';'') (toStr (js_or (opt_prop hs ''content-type'') (JStr []))))))"

definition download_name :: "jsval \<Rightarrow> jsval \<Rightarrow> string" where
  "download_name hs i =
     (case match_filename (toStr (js_or (opt_prop hs ''content-disposition'') (JStr []))) of
        Some name \<Rightarrow> name
      | None \<Rightarrow> ''custom-build-'' @ toStr i @ ''.zip'')"

definition handled_failure :: "bool \<Rightarrow> jsval \<Rightarrow> bool" where
  "handled_failure axios e =
     (axios \<or> truthy (opt_prop e ''interceptorHandled'') \<or> truthy (opt_prop e ''response'')
      \<or> truthy (opt_prop e ''request'') \<or> is_code (opt_prop e ''code''))"

definition build_downloaded :: "jsval \<Rightarrow> (bool \<times> jsval) + jsval \<Rightarrow> builder \<Rightarrow> builder" where
  "build_downloaded i ans c =
     (let c = (case ans of
                 Inr hs \<Rightarrow>
                   if content_type hs \<in> {''application/zip'', ''application/octet-stream''}
                   then c\<lparr>b_files := b_files c @ [download_name hs i]\<rparr>
                   else say (Error ''Download failed'') c
               | Inl (axios, e) \<Rightarrow> if handled_failure axios e then c else say (Error ''Download failed'') c)
      in c\<lparr>b_downloading := JNull\<rparr>)"

subsection \<open>Uploading an image\<close>

record image_file =
  if_type :: string
  if_name :: string
  if_size :: nat

definition endsWith :: "string \<Rightarrow> string \<Rightarrow> bool" where
  "endsWith s p = startsWith (rev s) (rev p)"

definition upload_error :: "string \<Rightarrow> string \<Rightarrow> builder \<Rightarrow> builder" where
  "upload_error field k = with_messages (applyUploadFieldError field (JStr k))"

definition IMAGE_UPLOAD_MAX_BYTES :: nat where
  "IMAGE_UPLOAD_MAX_BYTES = 5 * 1024 * 1024"

definition send_upload :: "string \<Rightarrow> builder \<Rightarrow> builder" where
  "send_upload field = issue (UploadReq field) (file_upload (JObj []))"

text \<open>The icon's size is read first, by decoding it in the browser.\<close>

definition uploadImage :: "string \<Rightarrow> image_file option \<Rightarrow> builder \<Rightarrow> builder" where
  "uploadImage field file c =
     (case file of
        None \<Rightarrow> c
      | Some f \<Rightarrow>
          if field \<notin> set IMAGE_UPLOAD_FIELDS then c
          else
            (let c = with_messages (clearFieldError field) c in
             if if_type f \<noteq> ''image/png'' \<and> \<not> endsWith (toLowerCase (if_name f)) ''.png''
             then upload_error field ''ImageFieldPngOnlyError'' c
             else if if_size f > IMAGE_UPLOAD_MAX_BYTES then upload_error field ''ImageFieldSizeError'' c
             else if field = ''app_icon_url'' then c\<lparr>b_inflight := b_inflight c @ [DecodeReq]\<rparr>
             else send_upload field c))"

text \<open>Width and height, or \<open>None\<close> when the file is no image.\<close>

definition icon_decoded :: "(nat \<times> nat) option \<Rightarrow> builder \<Rightarrow> builder" where
  "icon_decoded dimensions c =
     (case dimensions of
        None \<Rightarrow> upload_error ''app_icon_url'' ''ImageFieldNotImageError'' c
      | Some (width, height) \<Rightarrow>
          if width \<noteq> height \<or> width < 16 then upload_error ''app_icon_url'' ''ImageFieldSquareError'' c
          else send_upload ''app_icon_url'' c)"

definition uploadRejectionMessage :: "jsval \<Rightarrow> string" where
  "uploadRejectionMessage e =
     (let raw = (case opt_prop e ''code'' of
                   JNum _ \<Rightarrow> opt_prop e ''message''
                 | _ \<Rightarrow> opt_prop (opt_prop (opt_prop e ''response'') ''data'') ''message'');
          text = (case raw of JStr s \<Rightarrow> toLowerCase s | _ \<Rightarrow> [])
      in if str_includes text ''file too large'' then ''ImageFieldSizeError''
         else if str_includes text ''only png'' then ''ImageFieldPngOnlyError''
         else ''ImageFieldUploadFailedError'')"

definition image_uploaded :: "string \<Rightarrow> (bool \<times> jsval) + jsval \<Rightarrow> builder \<Rightarrow> builder" where
  "image_uploaded field ans c =
     (case ans of
        Inr res \<Rightarrow>
          (let url = opt_prop (opt_prop res ''data'') ''url''
           in if truthy url then say (Success ''OperationSuccess'') (set_field field url c)
              else upload_error field ''ImageFieldUploadFailedError'' c)
      | Inl (axios, e) \<Rightarrow>
          if axios \<or> truthy (opt_prop e ''response'') \<or> truthy (opt_prop e ''request'') \<or> is_code (opt_prop e ''code'')
          then upload_error field (uploadRejectionMessage e) c
          else upload_error field ''ImageFieldUploadFailedError'' c)"

subsection \<open>The page as a whole\<close>

definition mount :: "builder \<Rightarrow> builder" where
  "mount c = loadConfig (loadVersions ((loadPresets (loadBuilds False (c\<lparr>b_mounted := True\<rparr>)))\<lparr>b_state := VLoading\<rparr>))"

text \<open>What the user or the timer does; the list of builds is the one shown.\<close>

inductive user_step :: "builder \<Rightarrow> builder \<Rightarrow> bool" where
  do_edit: "user_step c (set_field f v c)"
| do_clear: "user_step c (with_messages (clearFieldError f) c)"
| do_platform: "user_step c (onPlatformChange c)"
| do_approve: "user_step c (with_messages (onApproveModeChange (b_form c)) c)"
| do_hide: "user_step c (with_messages (onHideConnectionManagementChange (b_form c)) c)"
| do_show: "user_step c (c\<lparr>b_show := \<not> b_show c\<rparr>)"
| do_key: "user_step c (useServerKey c)"
| do_picker: "user_step c (openLocalAddressPicker f c)"
| do_address: "user_step c (useLocalAddress a c)"
| do_close: "user_step c (closeLocalAddressPicker c)"
| do_select: "user_step c (select_preset i c)"
| do_forget: "user_step c (clearSavedPresetPassword c)"
| do_save: "user_step c (saveCurrentAsPreset name c)"
| do_drop: "user_step c (deletePreset p confirmed c)"
| do_submit: "\<not> start_disabled c \<Longrightarrow> user_step c (submitBuild verdict c)"
| do_reset: "user_step c (resetForm c)"
| do_delete: "user_step c (deleteBuild row confirmed c)"
| do_download: "user_step c (downloadBuild row c)"
| do_upload: "user_step c (uploadImage f file c)"
| do_page: "user_step c (c\<lparr>b_page := n\<rparr>)"
| do_size: "user_step c (c\<lparr>b_page_size := n\<rparr>)"
| do_tick: "user_step c (poll_tick c)"
| do_leave: "user_step c (unmount c)"

text \<open>An answer to a request, whatever the answer.\<close>

inductive answered :: "request \<Rightarrow> builder \<Rightarrow> builder \<Rightarrow> bool" where
  "answered (BuildsReq g silent) c (builds_loaded g silent pg c)"
| "answered (PresetsReq g) c (presets_loaded g ps c)"
| "answered (VersionsReq g) c (versions_loaded g vs c)"
| "answered (ConfigReq g) c (config_loaded g cfg c)"
| "answered (AddressReq g) c (addresses_loaded g as c)"
| "answered (CreateReq sn) c (build_created sn rejection c)"
| "answered (SaveReq sn) c (preset_saved sn rejection c)"
| "answered (RemovePresetReq i) c (preset_deleted i ok c)"
| "answered RemoveBuildReq c (build_deleted ok c)"
| "answered (DownloadReq i) c (build_downloaded i d c)"
| "answered DecodeReq c (icon_decoded dims c)"
| "answered (UploadReq f) c (image_uploaded f u c)"

inductive builder_step :: "builder \<Rightarrow> builder \<Rightarrow> bool" where
  step_user: "user_step c d \<Longrightarrow> builder_step c d"
| step_answer: "b_inflight c = xs @ r # ys \<Longrightarrow> answered r (c\<lparr>b_inflight := xs @ ys\<rparr>) d \<Longrightarrow> builder_step c d"

definition builder_reachable :: "builder \<Rightarrow> bool" where
  "builder_reachable c = builder_step\<^sup>*\<^sup>* (mount builder_init) c"

end
