(* ===== verification/BuilderSafety.thy ===== *)
theory BuilderSafety
  imports CustomClient
begin

text \<open>
  What holds of the client builder's page in every order of its operations and of the answers to its
  requests: the generations of its requests, the polling of the builds, the messages at the fields and
  the requests in flight.
\<close>

lemmas builder_ops =
  set_field_def with_messages_def onPlatformChange_def useServerKey_def openLocalAddressPicker_def
  useLocalAddress_def closeLocalAddressPicker_def select_preset_def onPresetSelect_def
  clearSavedPresetPassword_def saveCurrentAsPreset_def deletePreset_def submitBuild_def resetForm_def
  resetFormFields_def deleteBuild_def downloadBuild_def uploadImage_def poll_tick_def unmount_def
  loadPresetIntoForm_def apply_defaults_def loadBuilds_def loadPresets_def upload_error_def send_upload_def
  say_def issue_def guard_start_def stopPolling_def

lemmas builder_answers =
  builds_loaded_def show_builds_def announceBuildStatusChanges_def ensurePolling_def presets_loaded_def
  versions_loaded_def config_loaded_def addresses_loaded_def build_created_def preset_saved_def
  preset_deleted_def build_deleted_def build_downloaded_def icon_decoded_def image_uploaded_def

lemmas builder_splits = if_splits option.splits list.splits prod.splits sum.splits jsval.splits

subsection \<open>Generations\<close>

text \<open>
  The guard of the requests: a request begun later makes the earlier ones of its kind outdated, and
  nothing makes them current again.
\<close>

locale latest_only =
  fixes step :: "'s \<Rightarrow> 's \<Rightarrow> bool"
    and generation :: "'k \<Rightarrow> 's \<Rightarrow> nat"
    and start_request :: "'k \<Rightarrow> 's \<Rightarrow> 's"
    and current :: "'k \<Rightarrow> nat \<Rightarrow> 's \<Rightarrow> bool"
  assumes newer: "generation k (start_request k s) = Suc (generation k s)"
    and current_newest: "current k g s \<Longrightarrow> g = generation k s"
    and monotone: "step s t \<Longrightarrow> generation k s \<le> generation k t"
begin

lemma steps_monotone: "step\<^sup>*\<^sup>* s t \<Longrightarrow> generation k s \<le> generation k t"
  by (induction rule: rtranclp_induct) (auto dest: monotone intro: le_trans)

lemma superseded:
  assumes "g \<le> generation k s" "generation k (start_request k s) \<le> generation k t" "step\<^sup>*\<^sup>* t u"
  shows "\<not> current k g u"
  using steps_monotone [OF assms(3), of k] assms(1,2) newer [of k s] current_newest [of k g u] by auto

end

lemma user_step_generation: "user_step c d \<Longrightarrow> b_generations c k \<le> b_generations d k"
  by (induction rule: user_step.induct) (auto simp: builder_ops Let_def split: builder_splits)

lemma answered_generation: "answered r c d \<Longrightarrow> b_generations c k \<le> b_generations d k"
  by (induction rule: answered.induct) (auto simp: builder_ops builder_answers Let_def split: builder_splits)

lemma builder_step_generation: "builder_step c d \<Longrightarrow> b_generations c k \<le> b_generations d k"
  by (induction rule: builder_step.induct) (use user_step_generation answered_generation in \<open>fastforce+\<close>)

interpretation requests: latest_only builder_step "\<lambda>k c. b_generations c k" guard_start isCurrent
  by unfold_locales (auto simp: guard_start_def isCurrent_def builder_step_generation)

subsection \<open>Invariants\<close>

text \<open>The timer runs exactly while the page is there and shows a build that is not finished.\<close>

definition polling_inv :: "builder \<Rightarrow> bool" where
  "polling_inv c = (b_polling c = (b_mounted c \<and> hasActiveBuilds (b_builds c)))"

text \<open>A list of versions that is ready is not empty.\<close>

definition versions_inv :: "builder \<Rightarrow> bool" where
  "versions_inv c = (b_state c = VReady \<longrightarrow> (\<exists>v vs. b_versions c = JArr (v # vs)))"

text \<open>A field with a message of the server is marked as invalid.\<close>

definition messages_ok :: "messages \<Rightarrow> bool" where
  "messages_ok m = (\<forall>f. truthy (server m f) \<longrightarrow> isFieldInvalid m f)"

lemma polling_inv_step: "builder_step c d \<Longrightarrow> polling_inv c \<Longrightarrow> polling_inv d"
proof (induction rule: builder_step.induct)
  case (step_user c d)
  then show ?case
    by (induction rule: user_step.induct) (auto simp: polling_inv_def builder_ops Let_def split: builder_splits)
next
  case (step_answer c xs r ys d)
  from step_answer(2) have "polling_inv (c\<lparr>b_inflight := xs @ ys\<rparr>) \<longrightarrow> polling_inv d"
    by (induction rule: answered.induct)
      (auto simp: polling_inv_def builder_ops builder_answers Let_def split: builder_splits)
  then show ?case using step_answer by (simp add: polling_inv_def)
qed

lemma versions_inv_step: "builder_step c d \<Longrightarrow> versions_inv c \<Longrightarrow> versions_inv d"
proof (induction rule: builder_step.induct)
  case (step_user c d)
  then show ?case
    by (induction rule: user_step.induct) (auto simp: versions_inv_def builder_ops Let_def split: builder_splits)
next
  case (step_answer c xs r ys d)
  from step_answer(2) have "versions_inv (c\<lparr>b_inflight := xs @ ys\<rparr>) \<longrightarrow> versions_inv d"
    by (induction rule: answered.induct)
      (auto simp: versions_inv_def builder_ops builder_answers Let_def split: builder_splits)
  then show ?case using step_answer by (simp add: versions_inv_def)
qed

lemma messages_ok_ops [simp]:
  "messages_ok no_messages"
  "messages_ok m \<Longrightarrow> messages_ok (set_message f t m)"
  "messages_ok m \<Longrightarrow> messages_ok (clearFieldError f m)"
  "messages_ok m \<Longrightarrow> messages_ok (applyUploadFieldError f t m)"
  "messages_ok m \<Longrightarrow> messages_ok (surfacePassApproveModeIncompatibility m)"
  "messages_ok m \<Longrightarrow> messages_ok (onApproveModeChange form m)"
  "messages_ok m \<Longrightarrow> messages_ok (onHideConnectionManagementChange form m)"
  by (auto simp: messages_ok_def isFieldInvalid_def no_messages_def set_message_def clearFieldError_def
      applyUploadFieldError_def surfacePassApproveModeIncompatibility_def onApproveModeChange_def
      onHideConnectionManagementChange_def Let_def)

lemma messages_ok_fold [simp]:
  "messages_ok m \<Longrightarrow> messages_ok (fold (\<lambda>x. set_message (f x) (t x)) xs m)"
  by (induction xs arbitrary: m) simp_all

lemma messages_ok_validate:
  assumes "validateBuildForm verdict form m = (ok, m')" "messages_ok m"
  shows "messages_ok m'"
proof -
  have "messages_ok \<lparr>invalid = i, server = (\<lambda>_. JUndef)\<rparr>" for i by (simp add: messages_ok_def)
  then show ?thesis using assms by (auto simp: validateBuildForm_def Let_def split: if_splits)
qed

lemma messages_ok_preset_password:
  "validatePresetPassword clear form presets name m = (ok, m') \<Longrightarrow> messages_ok m \<Longrightarrow> messages_ok m'"
  by (auto simp: validatePresetPassword_def messages_ok_def isFieldInvalid_def split: if_splits)

lemma messages_ok_report [simp]:
  "messages_ok m \<Longrightarrow> messages_ok (reportCreateBuildFailure axios e sn form m)"
  by (auto simp: reportCreateBuildFailure_def applyServerFieldErrors_def Let_def)

lemma messages_ok_step: "builder_step c d \<Longrightarrow> messages_ok (b_messages c) \<Longrightarrow> messages_ok (b_messages d)"
proof (induction rule: builder_step.induct)
  case (step_user c d)
  then show ?case
    by (induction rule: user_step.induct)
      (auto simp: builder_ops Let_def split: builder_splits dest: messages_ok_validate messages_ok_preset_password)
next
  case (step_answer c xs r ys d)
  from step_answer(2) have "messages_ok (b_messages c) \<longrightarrow> messages_ok (b_messages d)"
    by (induction r "c\<lparr>b_inflight := xs @ ys\<rparr>" d rule: answered.induct)
      (auto simp: builder_ops builder_answers Let_def split: builder_splits)
  then show ?case using step_answer by simp
qed

text \<open>The requests in flight behind what the page shows as busy.\<close>

fun creating :: "request \<Rightarrow> bool" where
  "creating (CreateReq sn) = True"
| "creating _ = False"

definition submit_inv :: "builder \<Rightarrow> bool" where
  "submit_inv c = (length (filter creating (b_inflight c)) = of_bool (b_submitting c))"

definition picker_inv :: "builder \<Rightarrow> bool" where
  "picker_inv c =
     (b_mounted c \<and> pk_visible (b_picker c) \<and> pk_loading (b_picker c)
      \<longrightarrow> AddressReq (b_generations c ''localAddresses'') \<in> set (b_inflight c))"

definition download_inv :: "builder \<Rightarrow> bool" where
  "download_inv c = (b_downloading c \<noteq> JNull \<longrightarrow> DownloadReq (b_downloading c) \<in> set (b_inflight c))"

lemma submit_inv_user: "user_step c d \<Longrightarrow> submit_inv c \<Longrightarrow> submit_inv d"
  by (induction rule: user_step.induct)
    (auto simp: submit_inv_def start_disabled_def builder_ops Let_def split: builder_splits)

lemma submit_inv_answered:
  "answered r c d \<Longrightarrow> filter creating (b_inflight d) = filter creating (b_inflight c)
    \<and> b_submitting d = (\<not> creating r \<and> b_submitting c)"
  by (induction rule: answered.induct) (auto simp: builder_ops builder_answers Let_def split: builder_splits)

lemma submit_inv_step: "builder_step c d \<Longrightarrow> submit_inv c \<Longrightarrow> submit_inv d"
proof (induction rule: builder_step.induct)
  case (step_answer c xs r ys d)
  then show ?case using submit_inv_answered [OF step_answer(2)]
    by (cases "creating r"; cases "b_submitting c") (simp_all add: submit_inv_def)
qed (rule submit_inv_user)

lemma picker_inv_user: "user_step c d \<Longrightarrow> picker_inv c \<Longrightarrow> picker_inv d"
  by (induction rule: user_step.induct) (auto simp: picker_inv_def builder_ops Let_def split: builder_splits)

lemma picker_inv_answered:
  "answered r c d \<Longrightarrow> set (b_inflight c) \<subseteq> set (b_inflight d)
    \<and> b_generations d ''localAddresses'' = b_generations c ''localAddresses'' \<and> b_mounted d = b_mounted c
    \<and> (b_picker d = b_picker c \<or> \<not> pk_loading (b_picker d))
    \<and> (r = AddressReq (b_generations c ''localAddresses'') \<and> b_mounted c \<longrightarrow> \<not> pk_loading (b_picker d))"
  by (induction rule: answered.induct)
    (auto simp: isCurrent_def builder_ops builder_answers Let_def split: builder_splits)

lemma picker_inv_step: "builder_step c d \<Longrightarrow> picker_inv c \<Longrightarrow> picker_inv d"
proof (induction rule: builder_step.induct)
  case (step_answer c xs r ys d)
  then show ?case using picker_inv_answered [OF step_answer(2)] by (auto simp: picker_inv_def)
qed (rule picker_inv_user)

lemma download_inv_user: "user_step c d \<Longrightarrow> download_inv c \<Longrightarrow> download_inv d"
  by (induction rule: user_step.induct) (auto simp: download_inv_def builder_ops Let_def split: builder_splits)

lemma download_inv_answered:
  "answered r c d \<Longrightarrow> set (b_inflight c) \<subseteq> set (b_inflight d)
    \<and> b_downloading d = (case r of DownloadReq i \<Rightarrow> JNull | _ \<Rightarrow> b_downloading c)"
  by (induction rule: answered.induct) (auto simp: builder_ops builder_answers Let_def split: builder_splits)

lemma download_inv_step: "builder_step c d \<Longrightarrow> download_inv c \<Longrightarrow> download_inv d"
proof (induction rule: builder_step.induct)
  case (step_answer c xs r ys d)
  then show ?case using download_inv_answered [OF step_answer(2)]
    by (cases r) (auto simp: download_inv_def)
qed (rule download_inv_user)

definition builder_inv :: "builder \<Rightarrow> bool" where
  "builder_inv c =
     (polling_inv c \<and> versions_inv c \<and> messages_ok (b_messages c) \<and> submit_inv c \<and> picker_inv c \<and> download_inv c)"

lemma builder_inv_mount: "builder_inv (mount builder_init)"
  by (simp add: builder_inv_def polling_inv_def versions_inv_def submit_inv_def picker_inv_def download_inv_def
      mount_def builder_init_def hasActiveBuilds_def loadVersions_def loadConfig_def builder_ops Let_def)

lemma builder_inv_step: "builder_step c d \<Longrightarrow> builder_inv c \<Longrightarrow> builder_inv d"
  by (auto simp: builder_inv_def polling_inv_step versions_inv_step messages_ok_step submit_inv_step
      picker_inv_step download_inv_step)

lemma builder_inv_reachable: "builder_reachable c \<Longrightarrow> builder_inv c"
  unfolding builder_reachable_def
  by (induction rule: rtranclp_induct) (simp_all add: builder_inv_mount builder_inv_step)

subsection \<open>Properties of the page\<close>

text \<open>
  C20: in every order of the user's actions, of the timer and of the answers: the builds are polled
  exactly while the page is open and shows an unfinished one; at most one creation of a build is in
  flight, exactly while the page says it is submitting; a list of versions that is ready is not empty;
  a field with a message of the server is marked invalid; and while the address picker or a download
  shows itself busy, the request it waits for is in flight.
\<close>

theorem builder_consistent:
  assumes "builder_reachable c"
  shows "(b_polling c \<longleftrightarrow> b_mounted c \<and> hasActiveBuilds (b_builds c))
    \<and> length (filter creating (b_inflight c)) = (if b_submitting c then 1 else 0)
    \<and> (b_state c = VReady \<longrightarrow> (\<exists>v vs. b_versions c = JArr (v # vs)))
    \<and> (\<forall>f. truthy (server (b_messages c) f) \<longrightarrow> isFieldInvalid (b_messages c) f)
    \<and> (b_mounted c \<and> pk_visible (b_picker c) \<and> pk_loading (b_picker c)
        \<longrightarrow> AddressReq (b_generations c ''localAddresses'') \<in> set (b_inflight c))
    \<and> (b_downloading c \<noteq> JNull \<longrightarrow> DownloadReq (b_downloading c) \<in> set (b_inflight c))"
  using builder_inv_reachable [OF assms]
  unfolding builder_inv_def polling_inv_def submit_inv_def versions_inv_def messages_ok_def picker_inv_def download_inv_def
  by simp

lemma reach_user: "builder_reachable c \<Longrightarrow> user_step c d \<Longrightarrow> builder_reachable d"
  unfolding builder_reachable_def by (blast intro: rtranclp.rtrancl_into_rtrancl step_user)

lemma reach_answer:
  "builder_reachable c \<Longrightarrow> b_inflight c = xs @ r # ys \<Longrightarrow> answered r (c\<lparr>b_inflight := xs @ ys\<rparr>) d \<Longrightarrow> builder_reachable d"
  unfolding builder_reachable_def by (blast intro: rtranclp.rtrancl_into_rtrancl step_answer)

text \<open>A page that has loaded one running build.\<close>

definition mounted_page :: builder where
  "mounted_page = mount builder_init"

definition running_page :: builder where
  "running_page =
     builds_loaded 1 False (Some \<lparr>page_list = [[(''id'', JNum 7), (''status'', JStr ''building'')]], page_total = JNum 1\<rparr>)
       (mounted_page\<lparr>b_inflight := [PresetsReq 1, VersionsReq 1, ConfigReq 1]\<rparr>)"

lemma running_page_reachable: "builder_reachable running_page"
proof (rule reach_answer)
  show "builder_reachable mounted_page" by (simp add: builder_reachable_def mounted_page_def)
  show "b_inflight mounted_page = [] @ BuildsReq 1 False # [PresetsReq 1, VersionsReq 1, ConfigReq 1]"
    by (simp add: mounted_page_def mount_def builder_init_def loadVersions_def loadConfig_def builder_ops Let_def)
  show "answered (BuildsReq 1 False) (mounted_page\<lparr>b_inflight := [] @ [PresetsReq 1, VersionsReq 1, ConfigReq 1]\<rparr>) running_page"
    unfolding running_page_def append_Nil by (rule answered.intros)
qed

lemma running_page_facts:
  "b_mounted running_page" "b_polling running_page" "\<not> b_loading running_page" "b_generations running_page ''builds'' = 1"
  by (simp_all add: running_page_def mounted_page_def mount_def builder_init_def loadVersions_def loadConfig_def
      builder_ops builder_answers isCurrent_def hasActiveBuilds_def Let_def)

theorem builder_consistent_witness: "b_polling running_page \<longleftrightarrow> b_mounted running_page \<and> hasActiveBuilds (b_builds running_page)"
  using builder_consistent [OF running_page_reachable] by blast

text \<open>The kind of a guarded request and its generation.\<close>

fun stream :: "request \<Rightarrow> (string \<times> nat) option" where
  "stream (BuildsReq g silent) = Some (''builds'', g)"
| "stream (PresetsReq g) = Some (''presets'', g)"
| "stream (VersionsReq g) = Some (''versions'', g)"
| "stream (ConfigReq g) = Some (''config'', g)"
| "stream (AddressReq g) = Some (''localAddresses'', g)"
| "stream _ = None"

lemma outdated_unchanged:
  "answered r c d \<Longrightarrow> stream r = Some (k, g) \<Longrightarrow> b_generations c k \<noteq> g \<Longrightarrow> d = c"
  by (induction rule: answered.induct)
    (auto simp: builds_loaded_def presets_loaded_def versions_loaded_def config_loaded_def addresses_loaded_def isCurrent_def
      split: option.splits)



text \<open>
  The spinner of the builds can stay for good. When the timer reloads the list while a reload by
  the user is in flight, the user's answer is outdated and the timer's answer is silent, so neither
  takes the spinner away, in whichever order they come and whatever they say; the timer's later
  reloads do not either.
\<close>

lemma spinner_stuck:
  assumes "b_mounted c" "b_polling c"
  defines "g \<equiv> b_generations c ''builds''"
  shows "b_loading (builds_loaded (g + 2) True r2 (builds_loaded (g + 1) False r1 (poll_tick (loadBuilds False c))))
    \<and> b_loading (builds_loaded (g + 1) False r1 (builds_loaded (g + 2) True r2 (poll_tick (loadBuilds False c))))
    \<and> (\<forall>d. b_loading d \<longrightarrow> b_loading (builds_loaded h True r3 (poll_tick d)))"
proof -
  have silent: "b_loading (builds_loaded h True r d) = b_loading d" for h r d
    by (simp add: builds_loaded_def show_builds_def announceBuildStatusChanges_def ensurePolling_def stopPolling_def Let_def
        split: option.split)
  have tick: "b_loading (poll_tick d) = b_loading d" for d
    by (simp add: poll_tick_def loadBuilds_def stopPolling_def guard_start_def issue_def Let_def)
  have "b_loading (loadBuilds False c)" using assms(1) by (simp add: loadBuilds_def guard_start_def issue_def Let_def)
  moreover have "builds_loaded (g + 1) False r1 d = d" if "b_generations d ''builds'' = g + 2" for d
    using that by (simp add: builds_loaded_def isCurrent_def)
  moreover have "b_generations (poll_tick (loadBuilds False c)) ''builds'' = g + 2"
    "b_generations (builds_loaded (g + 2) True r2 d) ''builds'' = b_generations d ''builds''" for d
    using assms(1,2) by (simp_all add: g_def poll_tick_def loadBuilds_def guard_start_def issue_def builds_loaded_def show_builds_def
        announceBuildStatusChanges_def ensurePolling_def stopPolling_def Let_def split: option.split)
  ultimately show ?thesis by (simp add: silent tick)
qed

subsection \<open>Presets and submissions\<close>

lemma loaded_form:
  assumes "preset_config preset = Some cfg"
  shows "b_form (loadPresetIntoForm preset c) =
      applyServerConfigDefaults (preset_explicit preset cfg) (b_defaults c)
        (preset_fill preset cfg (spread (b_form c) FORM_DEFAULTS))"
  using assms by (simp add: loadPresetIntoForm_def resetFormFields_def apply_defaults_def say_def Let_def)

lemma form_defaults_wf: "obj_wf FORM_DEFAULTS"
  unfolding obj_wf_def keys_def by code_simp

lemma submitted_fields_have_defaults: "list_all (\<lambda>f. List.member (keys FORM_DEFAULTS) f) submittedFieldNames"
  by code_simp

lemma form_field: "k \<in> set submittedFieldNames \<Longrightarrow> k \<in> set (keys FORM_DEFAULTS)"
  using submitted_fields_have_defaults by (simp add: list_all_iff)


text \<open>
  A form filled from a preset owes nothing to the form before: each field has the preset's value if
  the preset states one, and otherwise its default, for which a default of the server stands in when it
  is empty.
\<close>

lemma preset_no_leak:
  assumes "preset_config preset = Some cfg" "k \<in> set submittedFieldNames"
  shows "get (b_form (loadPresetIntoForm preset c)) k =
    (if k \<in> set SUBMITTED_RECORD_FIELDS \<inter> set (keys preset) then (if nullish (get preset k) then JStr [] else get preset k)
     else if k \<in> set PRESET_FIELDS \<inter> set (keys cfg) \<and> get cfg k \<noteq> JUndef then get cfg k
     else if k \<in> set (keys (b_defaults c)) \<and> \<not> truthy (get FORM_DEFAULTS k) then get (b_defaults c) k
     else get FORM_DEFAULTS k)"
proof -
  have disjoint: "k \<notin> set PRESET_FIELDS" if "k \<in> set SUBMITTED_RECORD_FIELDS"
    using that preset_fields_disjoint by (auto simp: list_all_iff)
  have field: "k \<in> set PRESET_FIELDS \<or> k \<in> set SUBMITTED_RECORD_FIELDS"
    using assms(2) by (simp add: distinct_preset_fields(2))
  show ?thesis
    unfolding loaded_form [OF assms(1)] get_applyServerConfigDefaults get_preset_fill
      get_spread [OF form_defaults_wf] preset_explicit_def
    using disjoint field form_field [OF assms(2)] by auto
qed

text \<open>
  C23: a creation is requested only for a form that Element Plus accepts, without a message of an upload
  and without the combination of hidden connection management and another approval than by password,
  for Windows or Linux, and with a list of versions that is there; it is then the only call made and
  sends the form. Otherwise no call is made.
\<close>

theorem submit_gate:
  assumes "builder_reachable c"
  shows "(b_calls (submitBuild verdict c) = b_calls c @ [custom_client_create (JObj (create_payload c))]
      \<and> verdict = None \<and> active_uploads (b_messages c) = [] \<and> \<not> hideCmApproveModeConflict (b_form c)
      \<and> productionPlatformReady (b_form c) \<and> (\<exists>v vs. b_versions c = JArr (v # vs)))
    \<or> b_calls (submitBuild verdict c) = b_calls c"
proof -
  have v: "b_state c = VReady \<longrightarrow> (\<exists>v vs. b_versions c = JArr (v # vs))"
    using builder_inv_reachable [OF assms] by (simp add: builder_inv_def versions_inv_def)
  show ?thesis
    using v by (auto simp: submitBuild_def validateBuildForm_def create_payload_def issue_def say_def Let_def)
qed

lemma snapshot_current:
  "isSubmittedSnapshotCurrent (snapshotSubmittedFields form sel) form' sel' \<longleftrightarrow>
     (\<forall>k \<in> set submittedFieldNames. get form k = get form' k) \<and> js_or sel JNull = js_or sel' JNull"
proof -
  have "''platform'' \<in> set submittedFieldNames" "''hide_cm'' \<in> set submittedFieldNames"
    by (simp_all add: distinct_preset_fields(2) PRESET_FIELDS_def SUBMITTED_RECORD_FIELDS_def)
  moreover have "js_or (js_or sel JNull) JNull = js_or sel JNull" by (simp add: js_or_def)
  ultimately show ?thesis
    by (auto simp: isSubmittedSnapshotCurrent_def snapshotSubmittedFields_def submittedRequirementInputsMatch_def
        get_pick list_all_iff Let_def)
qed

lemma loadBuilds_form [simp]:
  "b_form (loadBuilds s c) = b_form c" "b_selected (loadBuilds s c) = b_selected c" "b_messages (loadBuilds s c) = b_messages c"
  by (simp_all add: loadBuilds_def guard_start_def issue_def Let_def)


subsection \<open>Examples\<close>

text \<open>A page whose form is filled for Linux and whose versions are there.\<close>

definition filled_form :: obj where
  "filled_form = put (put (put (put FORM_DEFAULTS ''platform'' (JStr ''linux'')) ''version'' (JStr ''1.4''))
     ''app_name'' (JStr ''Desk'')) ''server_ip'' (JStr ''h'')"

definition ready_page :: builder where
  "ready_page = builder_init\<lparr>b_form := filled_form, b_state := VReady, b_versions := JArr [JStr ''1.4''], b_mounted := True,
     b_defaults := put no_defaults ''key'' (JStr ''k'')\<rparr>"

definition saved_record :: obj where
  "saved_record = (''id'', JNum 3) # preset_payload ''p'' ready_page"

lemma filled_form_get:
  "get filled_form k = (if k = ''server_ip'' then JStr ''h'' else if k = ''app_name'' then JStr ''Desk''
     else if k = ''version'' then JStr ''1.4'' else if k = ''platform'' then JStr ''linux'' else get FORM_DEFAULTS k)"
  by (simp add: filled_form_def)

lemma defaults_ok: "list_all (\<lambda>p. json_ok (snd p)) FORM_DEFAULTS"
  by code_simp

lemma get_json_ok: "list_all (\<lambda>p. json_ok (snd p)) o' \<Longrightarrow> k \<in> set (keys o') \<Longrightarrow> json_ok (get o' k)"
  by (cases "map_of o' k") (auto simp: keys_def get_def map_of_eq_None_iff list_all_iff dest!: map_of_SomeD)


theorem submit_gate_witness: "b_calls (submitBuild None mounted_page) = b_calls mounted_page"
proof -
  have "builder_reachable mounted_page" by (simp add: builder_reachable_def mounted_page_def)
  moreover have "\<not> productionPlatformReady (b_form mounted_page)" 
    by (simp add: productionPlatformReady_def mounted_page_def mount_def builder_init_def loadConfig_def loadVersions_def builder_ops
        FORM_DEFAULTS_def Let_def)
  ultimately show ?thesis using submit_gate by blast
qed


end
