(* ===== verification/Wire.thy ===== *)
theory Wire
  imports Prelude JsDouble "HOL-Library.Word"
begin

text \<open>
  The wire format of the messages: the parts of the package \<open>protobufjs\<close> that the generated code uses,
  as bundled in \<open>api/resources/web/js/dist/vendor.js\<close>. The writer is the list of bytes it will write.
  The reader is the rest of its buffer, from its position on: positions are differences of lengths, and
  a position one beyond the end of the buffer, which a cut off 64-bit number can lead to, counts as the
  end. \<open>None\<close> is an exception. A text is a list of code units below \<open>2^16\<close>.
\<close>

type_synonym buffer = "8 word list"

lemma byte_nat [simp]: "n < 256 \<Longrightarrow> unat (of_nat n :: 8 word) = n"
  by (simp add: unat_of_nat)

lemma byte_nat_add [simp]: "n + numeral k < 256 \<Longrightarrow> unat (of_nat n + numeral k :: 8 word) = n + numeral k"
  using byte_nat [of "n + numeral k"] by simp

subsection \<open>Numbers of variable length\<close>

fun varint :: "nat \<Rightarrow> buffer" where
  "varint n = (if n < 128 then [of_nat n] else of_nat (n mod 128 + 128) # varint (n div 128))"

declare varint.simps [simp del]

definition w_uint32 :: "int \<Rightarrow> buffer" where
  "w_uint32 i = varint (nat (i mod 2 ^ 32))"

definition w_int64 :: "int \<Rightarrow> buffer" where
  "w_int64 i = varint (nat (i mod 2 ^ 64))"

definition w_int32 :: "int \<Rightarrow> buffer" where
  "w_int32 i = (if i < 0 then w_int64 i else w_uint32 i)"

text \<open>\<open>H << 1 ^ H >> 31\<close> for a number of 32 bits.\<close>

definition w_sint32 :: "int \<Rightarrow> buffer" where
  "w_sint32 i = w_uint32 (if i < 0 then - 2 * i - 1 else 2 * i)"

definition w_bool :: "bool \<Rightarrow> buffer" where
  "w_bool b = [if b then 1 else 0]"

text \<open>\<open>bytes\<close> and \<open>string\<close>, and what \<open>fork\<close> and \<open>ldelim\<close> put around a message.\<close>

definition delimited :: "buffer \<Rightarrow> buffer" where
  "delimited bs = w_uint32 (int (length bs)) @ bs"

text \<open>
  \<open>uint32()\<close> reads up to five bytes, of the fifth four bits; if that one also announces another, five
  more are passed over unread.
\<close>

fun r_varint32 :: "nat \<Rightarrow> buffer \<Rightarrow> (nat \<times> buffer) option" where
  "r_varint32 0 r = (if length r < 5 then None else Some (0, drop 5 r))"
| "r_varint32 (Suc k) [] = None"
| "r_varint32 (Suc k) (b # r) =
     (let low = unat b mod (if k = 0 then 16 else 128)
      in if unat b < 128 then Some (low, r)
         else map_option (\<lambda>(v, r). (low + 128 * v, r)) (r_varint32 k r))"

definition r_uint32 :: "buffer \<Rightarrow> (nat \<times> buffer) option" where
  "r_uint32 = r_varint32 5"

definition r_int32 :: "buffer \<Rightarrow> (int \<times> buffer) option" where
  "r_int32 r = map_option (\<lambda>(v, r). (if v < 2 ^ 31 then int v else int v - 2 ^ 32, r)) (r_uint32 r)"

text \<open>\<open>H >>> 1 ^ -(H & 1) | 0\<close>.\<close>

definition r_sint32 :: "buffer \<Rightarrow> (int \<times> buffer) option" where
  "r_sint32 r = map_option (\<lambda>(v, r). (if even v then int (v div 2) else - int (v div 2) - 1, r)) (r_uint32 r)"

definition r_bool :: "buffer \<Rightarrow> (bool \<times> buffer) option" where
  "r_bool r = map_option (\<lambda>(v, r). (v \<noteq> 0, r)) (r_uint32 r)"

text \<open>
  \<open>readLongVarint\<close>: up to ten bytes; when at most four are left, three are checked and the fourth ends
  the number whatever it announces.
\<close>

fun r_varint64 :: "nat \<Rightarrow> buffer \<Rightarrow> (nat \<times> buffer) option" where
  "r_varint64 0 r = None"
| "r_varint64 (Suc k) [] = None"
| "r_varint64 (Suc k) (b # r) =
     (if unat b < 128 then Some (unat b, r)
      else map_option (\<lambda>(v, r). (unat b mod 128 + 128 * v, r)) (r_varint64 k r))"

fun r_short64 :: "nat \<Rightarrow> buffer \<Rightarrow> (nat \<times> buffer) option" where
  "r_short64 0 [] = Some (0, [])"
| "r_short64 0 (b # r) = Some (unat b mod 128, r)"
| "r_short64 (Suc k) [] = None"
| "r_short64 (Suc k) (b # r) =
     (if unat b < 128 then Some (unat b, r)
      else map_option (\<lambda>(v, r). (unat b mod 128 + 128 * v, r)) (r_short64 k r))"

definition readLongVarint :: "buffer \<Rightarrow> (nat \<times> buffer) option" where
  "readLongVarint r =
     map_option (\<lambda>(v, r). (v mod 2 ^ 64, r)) (if length r > 4 then r_varint64 10 r else r_short64 3 r)"

text \<open>
  \<open>longToNumber\<close> of the generated code: a value above \<open>2^53 - 1\<close> raises; one below \<open>-(2^53)\<close> becomes
  the nearest double.
\<close>

definition toNumber :: "int \<Rightarrow> int" where
  "toNumber i =
     (let e = nat (bitlen (- i) - 53) in if - i \<le> 2 ^ 53 then i else round_half_even i (2 ^ e) * 2 ^ e)"

definition longToNumber :: "int \<times> buffer \<Rightarrow> (int \<times> buffer) option" where
  "longToNumber p = (if fst p > 2 ^ 53 - 1 then None else Some (toNumber (fst p), snd p))"

definition r_uint64 :: "buffer \<Rightarrow> (int \<times> buffer) option" where
  "r_uint64 r = Option.bind (map_option (\<lambda>(v, r). (int v, r)) (readLongVarint r)) longToNumber"

definition r_int64 :: "buffer \<Rightarrow> (int \<times> buffer) option" where
  "r_int64 r =
     Option.bind (map_option (\<lambda>(v, r). (if v < 2 ^ 63 then int v else int v - 2 ^ 64, r)) (readLongVarint r)) longToNumber"

definition r_bytes :: "buffer \<Rightarrow> (buffer \<times> buffer) option" where
  "r_bytes r = Option.bind (r_uint32 r) (\<lambda>(n, r). if n > length r then None else Some (take n r, drop n r))"

subsection \<open>Texts\<close>

fun utf8_write :: "nat list \<Rightarrow> buffer" where
  "utf8_write [] = []"
| "utf8_write (c # s) =
     (if c < 128 then of_nat c # utf8_write s
      else if c < 2048 then of_nat (c div 64 + 192) # of_nat (c mod 64 + 128) # utf8_write s
      else
        (case (c div 1024 = 54, s) of
           (True, d # s') \<Rightarrow>
             if d div 1024 = 55
             then (let x = 65536 + c mod 1024 * 1024 + d mod 1024
                   in of_nat (x div 262144 + 240) # of_nat (x div 4096 mod 64 + 128) # of_nat (x div 64 mod 64 + 128)
                      # of_nat (x mod 64 + 128) # utf8_write s')
             else of_nat (c div 4096 + 224) # of_nat (c div 64 mod 64 + 128) # of_nat (c mod 64 + 128) # utf8_write s
         | _ \<Rightarrow> of_nat (c div 4096 + 224) # of_nat (c div 64 mod 64 + 128) # of_nat (c mod 64 + 128) # utf8_write s))"

text \<open>A byte beyond the end reads as zero.\<close>

definition six :: "buffer \<Rightarrow> nat \<Rightarrow> nat" where
  "six r i = (if i < length r then unat (r ! i) mod 64 else 0)"

fun utf8_read :: "buffer \<Rightarrow> nat list" where
  "utf8_read [] = []"
| "utf8_read (b # r) =
     (let t = unat b in
      if t < 128 then t # utf8_read r
      else if 191 < t \<and> t < 224 then (t mod 32 * 64 + six r 0) # utf8_read (drop 1 r)
      else if 239 < t then
        (let x = int (t mod 8 * 262144 + six r 0 * 4096 + six r 1 * 64 + six r 2) - 65536
         in nat ((55296 + x div 1024) mod 65536) # nat (56320 + x mod 1024) # utf8_read (drop 3 r))
      else (t mod 16 * 4096 + six r 0 * 64 + six r 1) # utf8_read (drop 2 r))"

definition w_string :: "nat list \<Rightarrow> buffer" where
  "w_string s = delimited (utf8_write s)"

definition r_string :: "buffer \<Rightarrow> (nat list \<times> buffer) option" where
  "r_string r = map_option (\<lambda>(bs, r). (utf8_read bs, r)) (r_bytes r)"

subsection \<open>Skipping\<close>

fun skip_varint :: "buffer \<Rightarrow> buffer option" where
  "skip_varint [] = None"
| "skip_varint (b # r) = (if unat b \<ge> 128 then skip_varint r else Some r)"

definition skip_bytes :: "nat \<Rightarrow> buffer \<Rightarrow> buffer option" where
  "skip_bytes n r = (if n > length r then None else Some (drop n r))"

definition skip_simple :: "nat \<Rightarrow> buffer \<Rightarrow> buffer option" where
  "skip_simple t r =
     (if t = 0 then skip_varint r
      else if t = 1 then skip_bytes 8 r
      else if t = 2 then Option.bind (r_uint32 r) (\<lambda>(n, r). skip_bytes n r)
      else if t = 5 then skip_bytes 4 r
      else None)"

lemma r_varint32_length: "r_varint32 k r = Some (v, r') \<Longrightarrow> length r' \<le> length r \<and> (k \<noteq> 0 \<longrightarrow> length r' < length r)"
  by (induction k r arbitrary: v r' rule: r_varint32.induct) (fastforce simp: Let_def split: if_splits)+

lemma r_uint32_length: "r_uint32 r = Some (v, r') \<Longrightarrow> length r' < length r"
  using r_varint32_length [of 5] by (simp add: r_uint32_def)

lemma skip_varint_length: "skip_varint r = Some r' \<Longrightarrow> length r' < length r"
  by (induction r) (fastforce split: if_splits)+

lemma skip_simple_length: "skip_simple t r = Some r' \<Longrightarrow> length r' \<le> length r"
proof -
  assume s: "skip_simple t r = Some r'"
  have "length r' \<le> length r" if "r_uint32 r = Some (n, q)" "skip_bytes n q = Some r'" for n q
    using r_uint32_length [OF that(1)] that(2) by (auto simp: skip_bytes_def split: if_splits)
  then show ?thesis using s skip_varint_length [of r r']
    by (auto simp: skip_simple_def skip_bytes_def Option.bind_eq_Some_conv split: if_splits)
qed

text \<open>
  A group is skipped with its inner groups. The source calls itself for these; here their number is
  kept: a start adds one, an end takes one away.
\<close>

function skip_group :: "nat \<Rightarrow> buffer \<Rightarrow> buffer option" where
  "skip_group depth r =
     (case r_uint32 r of
        None \<Rightarrow> None
      | Some (tag, r') \<Rightarrow>
          if tag mod 8 = 4 then (if depth \<le> 1 then Some r' else skip_group (depth - 1) r')
          else if tag mod 8 = 3 then skip_group (depth + 1) r'
          else (case skip_simple (tag mod 8) r' of None \<Rightarrow> None | Some r'' \<Rightarrow> skip_group depth r''))"
  by pat_completeness auto
termination
  by (relation "measure (\<lambda>(_, r). length r)") (auto dest!: r_uint32_length skip_simple_length)

declare skip_group.simps [simp del]

definition skipType :: "nat \<Rightarrow> buffer \<Rightarrow> buffer option" where
  "skipType t r = (if t = 3 then skip_group 1 r else skip_simple t r)"

lemma skip_group_length: "skip_group depth r = Some r' \<Longrightarrow> length r' < length r"
proof (induction depth r rule: skip_group.induct)
  case (1 depth r)
  obtain tag q where q: "r_uint32 r = Some (tag, q)"
    using 1(4) by (cases "r_uint32 r") (auto simp: skip_group.simps [of depth r])
  note lt = r_uint32_length [OF q]
  show ?case
  proof (cases "tag mod 8 = 4 \<or> tag mod 8 = 3")
    case True
    then show ?thesis using 1 q lt by (fastforce simp: skip_group.simps [of depth r] split: if_splits)
  next
    case False
    then obtain q' where q': "skip_simple (tag mod 8) q = Some q'" "skip_group depth q' = Some r'"
      using 1(4) q by (auto simp: skip_group.simps [of depth r] split: option.splits)
    then have "length r' < length q'" using 1(3) q False by auto
    then show ?thesis using skip_simple_length [OF q'(1)] lt by simp
  qed
qed

lemma skipType_length: "skipType t r = Some r' \<Longrightarrow> length r' \<le> length r"
  using skip_group_length [of 1 r r'] skip_simple_length [of t r r'] by (auto simp: skipType_def split: if_splits)

subsection \<open>What is written is read back\<close>

lemma varint_Cons: "n \<ge> 128 \<Longrightarrow> varint n = of_nat (n mod 128 + 128) # varint (n div 128)"
  by (subst varint.simps) simp

lemma varint_last: "n < 128 \<Longrightarrow> varint n = [of_nat n]"
  by (subst varint.simps) simp

lemma varint_nonempty [simp]: "varint n \<noteq> []"
  by (subst varint.simps) simp

lemma r_varint32_write: "n < 16 * 128 ^ k \<Longrightarrow> r_varint32 (Suc k) (varint n @ r) = Some (n, r)"
proof (induction k arbitrary: n)
  case 0
  then show ?case by (simp add: varint_last)
next
  case (Suc k)
  show ?case
  proof (cases "n < 128")
    case False
    then have "n div 128 < 16 * 128 ^ k" using Suc.prems by (simp add: div_less_iff_less_mult)
    from Suc.IH [OF this] False show ?thesis by (simp add: varint_Cons Let_def)
  qed (simp add: varint_last)
qed

lemma r_uint32_write: "n < 2 ^ 32 \<Longrightarrow> r_uint32 (varint n @ r) = Some (n, r)"
  using r_varint32_write [of n 4] by (simp add: r_uint32_def)

lemma ge_128: "128 * 128 ^ k \<le> (n::nat) \<Longrightarrow> 128 \<le> n"
  using one_le_power [of "128::nat" k] by linarith

lemma varint_length: "128 ^ k \<le> n \<Longrightarrow> n < 128 ^ Suc k \<Longrightarrow> length (varint n) = Suc k"
proof (induction k arbitrary: n)
  case (Suc k)
  have "n div 128 < 128 ^ Suc k" using Suc.prems(2) by (simp add: div_less_iff_less_mult)
  moreover have "128 ^ k \<le> n div 128" using Suc.prems(1) by (simp add: less_eq_div_iff_mult_less_eq mult.commute)
  moreover have "128 \<le> n" using Suc.prems(1) ge_128 [of k n] by simp
  ultimately show ?case using Suc.IH by (simp add: varint_Cons)
qed (simp add: varint_last)

lemma r_varint32_more:
  "128 ^ Suc k \<le> n \<Longrightarrow>
   r_varint32 (Suc k) (varint n @ r) =
     map_option (\<lambda>(v, r). (n mod (16 * 128 ^ k), r)) (r_varint32 0 (varint (n div 128 ^ Suc k) @ r))"
proof (induction k arbitrary: n)
  case 0
  have "(n mod 128 + 8 * 16) mod 16 = n mod 16"
    unfolding mod_mult_self1 by (rule mod_mod_cancel) simp
  then show ?case using 0 by (simp add: varint_Cons Let_def)
next
  case (Suc k)
  have n: "128 \<le> n" using Suc.prems ge_128 [of "Suc k" n] by simp
  have "128 ^ Suc k \<le> n div 128" using Suc.prems by (simp add: less_eq_div_iff_mult_less_eq mult.commute)
  moreover have "n mod (16 * 128 ^ Suc k) = n mod 128 + 128 * (n div 128 mod (16 * 128 ^ k))"
    using mod_mult2_eq [of n 128 "16 * 128 ^ k"] by (simp add: mult.left_commute add.commute)
  moreover have "n div 128 div 128 ^ Suc k = n div 128 ^ Suc (Suc k)"
    by (metis div_mult2_eq power_Suc)
  ultimately show ?case using Suc.IH [of "n div 128"] n
    by (simp add: varint_Cons Let_def option.map_comp comp_def case_prod_beta)
qed

lemma r_uint32_long:
  assumes "2 ^ 63 \<le> n" "n < 2 ^ 64"
  shows "r_uint32 (varint n @ r) = Some (n mod 2 ^ 32, r)"
proof -
  have "length (varint (n div 2 ^ 35)) = Suc 4" using assms by (intro varint_length) simp_all
  then have "r_varint32 0 (varint (n div 2 ^ 35) @ r) = Some (0, r)" by simp
  moreover have "(128::nat) ^ Suc 4 = 2 ^ 35" "(16::nat) * 128 ^ 4 = 2 ^ 32" "Suc 4 = 5" by simp_all
  ultimately show ?thesis using r_varint32_more [of 4 n r] assms unfolding r_uint32_def by simp
qed

lemma neg_mod:
  fixes i k :: int
  assumes "i < 0" "- k \<le> i"
  shows "i mod k = i + k"
  using assms mod_pos_pos_trivial [of "i + k" k] by simp

lemma r_int32_write:
  assumes "- (2 ^ 31) \<le> i" "i < 2 ^ 31"
  shows "r_int32 (w_int32 i @ r) = Some (i, r)"
proof (cases "i < 0")
  case True
  then have m: "i mod 2 ^ 64 = i + 2 ^ 64" using assms by (intro neg_mod) simp_all
  let ?n = "nat (i + 2 ^ 64)"
  have "r_uint32 (varint ?n @ r) = Some (?n mod 2 ^ 32, r)"
    using assms True by (intro r_uint32_long) (simp_all add: le_nat_iff)
  moreover have "?n mod 2 ^ 32 = nat (i + 2 ^ 32)"
  proof -
    have "(i + 2 ^ 32 + (2 ^ 32 - 1) * 2 ^ 32) mod 2 ^ 32 = (i + 2 ^ 32) mod 2 ^ 32" by (rule mod_mult_self1)
    then have "(i + 2 ^ 64) mod 2 ^ 32 = (i + 2 ^ 32) mod 2 ^ 32" by (simp add: add.commute)
    also have "\<dots> = i + 2 ^ 32" using assms True by (intro mod_pos_pos_trivial) auto
    finally show ?thesis using assms by (simp add: nat_mod_as_int)
  qed
  ultimately show ?thesis using True assms m by (simp add: r_int32_def w_int32_def w_int64_def nat_less_iff)
next
  case False
  then have "r_uint32 (varint (nat i) @ r) = Some (nat i, r)" using assms by (intro r_uint32_write) (simp add: nat_less_iff)
  then show ?thesis using False assms by (simp add: r_int32_def w_int32_def w_uint32_def nat_less_iff)
qed

lemma r_sint32_write:
  assumes "- (2 ^ 31) \<le> i" "i < 2 ^ 31"
  shows "r_sint32 (w_sint32 i @ r) = Some (i, r)"
proof -
  let ?z = "if i < 0 then - 2 * i - 1 else 2 * i"
  have z: "0 \<le> ?z" "?z < 2 ^ 32" using assms by auto
  have "r_uint32 (varint (nat ?z) @ r) = Some (nat ?z, r)" using z by (intro r_uint32_write) (simp add: nat_less_iff)
  moreover have "(if even (nat ?z) then int (nat ?z div 2) else - int (nat ?z div 2) - 1) = i"
    by (auto simp: even_nat_iff nat_div_distrib)
  ultimately show ?thesis using z by (simp add: r_sint32_def w_sint32_def w_uint32_def)
qed

lemma r_bool_write: "r_bool (w_bool b @ r) = Some (b, r)"
  using r_uint32_write [of "of_bool b" r] by (cases b) (simp_all add: r_bool_def w_bool_def varint_last)

lemma r_varint64_write: "n < 128 ^ Suc k \<Longrightarrow> r_varint64 (Suc k) (varint n @ r) = Some (n, r)"
proof (induction k arbitrary: n)
  case (Suc k)
  then show ?case
    by (cases "n < 128") (simp_all add: varint_Cons varint_last div_less_iff_less_mult)
qed (simp add: varint_last)

lemma r_short64_write: "n < 128 ^ Suc k \<Longrightarrow> r_short64 k (varint n @ r) = Some (n, r)"
proof (induction k arbitrary: n)
  case (Suc k)
  then show ?case
    by (cases "n < 128") (simp_all add: varint_Cons varint_last div_less_iff_less_mult)
qed (simp add: varint_last)

lemma varint_bound: "length (varint n) \<le> k \<Longrightarrow> n < 128 ^ k"
proof (induction k arbitrary: n)
  case (Suc k)
  show ?case
  proof (cases "n < 128")
    case False
    then have "n div 128 < 128 ^ k" using Suc by (simp add: varint_Cons)
    then show ?thesis by (simp add: div_less_iff_less_mult mult.commute)
  next
    case True
    then have "n < 128 * 1" by simp
    also have "\<dots> \<le> 128 * 128 ^ k" by (intro mult_le_mono2 one_le_power) simp
    finally show ?thesis by simp
  qed
qed simp

lemma readLongVarint_write:
  assumes "n < 2 ^ 64"
  shows "readLongVarint (varint n @ r) = Some (n, r)"
proof (cases "length (varint n @ r) > 4")
  case True
  have "r_varint64 (Suc 9) (varint n @ r) = Some (n, r)" using assms by (intro r_varint64_write) simp
  then show ?thesis using True assms by (simp add: readLongVarint_def)
next
  case False
  then have "n < 128 ^ Suc 3" using varint_bound [of n "Suc 3"] by simp
  then show ?thesis using False assms r_short64_write [of n 3 r] by (simp add: readLongVarint_def)
qed

lemma r_int64_write:
  assumes "- (2 ^ 53) \<le> i" "i < 2 ^ 53"
  shows "r_int64 (w_int64 i @ r) = Some (i, r)"
proof -
  have b: "0 \<le> i mod 2 ^ 64" "i mod 2 ^ 64 < 2 ^ 64" by simp_all
  have "readLongVarint (w_int64 i @ r) = Some (nat (i mod 2 ^ 64), r)"
    unfolding w_int64_def using b by (intro readLongVarint_write) (simp add: nat_less_iff)
  moreover have "i mod 2 ^ 64 = (if i < 0 then i + 2 ^ 64 else i)"
    using assms neg_mod [of i "2 ^ 64"] mod_pos_pos_trivial [of i "2 ^ 64"] by simp
  ultimately show ?thesis using assms by (auto simp: r_int64_def longToNumber_def toNumber_def nat_less_iff)
qed

lemma r_uint64_write:
  assumes "0 \<le> i" "i < 2 ^ 53"
  shows "r_uint64 (w_int64 i @ r) = Some (i, r)"
proof -
  have "i mod 2 ^ 64 = i" using assms by (intro mod_pos_pos_trivial) auto
  then have "readLongVarint (w_int64 i @ r) = Some (nat i, r)"
    unfolding w_int64_def using assms by (simp add: readLongVarint_write nat_less_iff)
  then show ?thesis using assms by (simp add: r_uint64_def longToNumber_def toNumber_def)
qed

lemma w_uint32_nat: "n < 2 ^ 32 \<Longrightarrow> w_uint32 (int n) = varint n"
  by (simp add: w_uint32_def nat_mod_distrib)

lemma r_bytes_write: "length bs < 2 ^ 32 \<Longrightarrow> r_bytes (delimited bs @ r) = Some (bs, r)"
  by (simp add: r_bytes_def delimited_def w_uint32_nat r_uint32_write)

lemma byte_nat_last [simp]: "n < 256 \<Longrightarrow> unat (of_nat n :: 8 word) mod 64 = n mod 64"
  by simp

lemma six_at [simp]:
  "six (b # r) 0 = unat b mod 64" "six (a # b # r) 1 = unat b mod 64" "six (a # b # r) (Suc 0) = unat b mod 64"
  "six (a # a' # b # r) 2 = unat b mod 64"
  by (simp_all add: six_def)

lemma surrogate_arith:
  fixes c d :: nat
  assumes "c div 1024 = 54" "d div 1024 = 55"
  defines "x \<equiv> 65536 + c mod 1024 * 1024 + d mod 1024"
  shows "x div 262144 < 8" "x div 262144 mod 8 * 262144 + x div 4096 mod 64 * 4096 + x div 64 mod 64 * 64 + x mod 64 = x"
    and "nat ((55296 + (int x - 65536) div 1024) mod 65536) = c" "nat (56320 + (int x - 65536) mod 1024) = d"
proof -
  have x: "x < 2097152" using assms(3) by (simp add: x_def)
  show q: "x div 262144 < 8" using x by (simp add: div_less_iff_less_mult)
  have "x mod 4096 = x mod 64 + 64 * (x div 64 mod 64)" "x mod 262144 = x mod 4096 + 4096 * (x div 4096 mod 64)"
    using mod_mult2_eq [of x 64 64] mod_mult2_eq [of x 4096 64] by simp_all
  then show "x div 262144 mod 8 * 262144 + x div 4096 mod 64 * 4096 + x div 64 mod 64 * 64 + x mod 64 = x"
    using div_mult_mod_eq [of x 262144] q by simp
  have i: "int x - 65536 = int (c mod 1024) * 1024 + int (d mod 1024)" by (simp add: x_def)
  have "int (d mod 1024) < 1024" "0 \<le> int (d mod 1024)" by simp_all
  then have "(int x - 65536) div 1024 = int (c mod 1024)" "(int x - 65536) mod 1024 = int (d mod 1024)"
    unfolding i by simp_all
  then show "nat ((55296 + (int x - 65536) div 1024) mod 65536) = c" "nat (56320 + (int x - 65536) mod 1024) = d"
    using div_mult_mod_eq [of c 1024] div_mult_mod_eq [of d 1024] assms(1,2) by (simp_all add: nat_add_distrib)
qed

lemma tail_byte [simp]:
  "unat (of_nat (a mod 64) + 128 :: 8 word) mod 64 = a mod 64"
  using mod_mult_self1 [of "a mod 64" 2 64] by simp

lemma tail_mod [simp]: "(a mod 64 + 128) mod 64 = a mod (64 :: nat)"
  using mod_mult_self1 [of "a mod 64" 2 64] by simp

lemma lead_byte:
  "a < 32 \<Longrightarrow> unat (of_nat a + 192 :: 8 word) = a + 192" "a < 16 \<Longrightarrow> unat (of_nat a + 224 :: 8 word) = a + 224"
  "a < 8 \<Longrightarrow> unat (of_nat a + 240 :: 8 word) = a + 240"
  "a < 32 \<Longrightarrow> (a + 192) mod 32 = a" "a < 16 \<Longrightarrow> (a + 224) mod 16 = a" "a < 8 \<Longrightarrow> (a + 240) mod 8 = a"
  using mod_mult_self1 [of a 6 32] mod_mult_self1 [of a 14 16] mod_mult_self1 [of a 30 8] by simp_all

lemma utf8_read_one: "c < 128 \<Longrightarrow> utf8_read (of_nat c # r) = c # utf8_read r"
  by (simp add: Let_def)

lemma utf8_read_two:
  assumes "\<not> c < 128" "c < 2048"
  shows "utf8_read (of_nat (c div 64 + 192) # of_nat (c mod 64 + 128) # r) = c # utf8_read r"
proof -
  have "c div 64 < 32" using assms by (simp add: div_less_iff_less_mult)
  then show ?thesis by (simp add: lead_byte Let_def)
qed

lemma utf8_read_three:
  assumes "c < 65536"
  shows "utf8_read (of_nat (c div 4096 + 224) # of_nat (c div 64 mod 64 + 128) # of_nat (c mod 64 + 128) # r) = c # utf8_read r"
proof -
  have q: "c div 4096 < 16" using assms by (simp add: div_less_iff_less_mult)
  have "c mod 4096 = c mod 64 + 64 * (c div 64 mod 64)" using mod_mult2_eq [of c 64 64] by simp
  then have "c div 4096 * 4096 + c div 64 mod 64 * 64 + c mod 64 = c" using div_mult_mod_eq [of c 4096] by simp
  then show ?thesis using q by (simp add: lead_byte Let_def)
qed

text \<open>The bytes of a pair of surrogates, by the value they carry.\<close>

lemma tail_unat: "a < 64 \<Longrightarrow> unat (of_nat (a + 128) :: 8 word) mod 64 = a"
  using mod_mult_self1 [of a 2 64] by simp

lemma utf8_read_quad:
  assumes "q < 8" "unat b = q + 240" "unat b1 mod 64 = a1" "unat b2 mod 64 = a2" "unat b3 mod 64 = a3"
  shows "utf8_read (b # b1 # b2 # b3 # r) =
    (let x = int (q * 262144 + a1 * 4096 + a2 * 64 + a3) - 65536
     in nat ((55296 + x div 1024) mod 65536) # nat (56320 + x mod 1024) # utf8_read r)"
proof -
  have "(q + 240) mod 8 = q" using assms(1) mod_mult_self1 [of q 30 8] by simp
  moreover have "\<not> q + 240 < 128" "\<not> q + 240 < 224" "239 < q + 240" by simp_all
  moreover have "six (b1 # b2 # b3 # r) 0 = a1" "six (b1 # b2 # b3 # r) 1 = a2" "six (b1 # b2 # b3 # r) 2 = a3" "drop 3 (b1 # b2 # b3 # r) = r"
    using assms(3-5) by simp_all
  ultimately show ?thesis
    by (subst utf8_read.simps(2)) (simp only: assms(2) Let_def if_False if_True simp_thms)
qed

lemma utf8_read_four:
  assumes "c div 1024 = 54" "d div 1024 = 55" "x = 65536 + c mod 1024 * 1024 + d mod 1024"
  shows "utf8_read (of_nat (x div 262144 + 240) # of_nat (x div 4096 mod 64 + 128) # of_nat (x div 64 mod 64 + 128)
    # of_nat (x mod 64 + 128) # r) = c # d # utf8_read r"
proof -
  note a = surrogate_arith [OF assms(1,2), folded assms(3)]
  have v: "x div 262144 * 262144 + x div 4096 mod 64 * 4096 + x div 64 mod 64 * 64 + x mod 64 = x"
    using a(1,2) by (simp only: mod_less)
  have "unat (of_nat (x div 262144 + 240) :: 8 word) = x div 262144 + 240" using a(1) by (intro byte_nat) simp
  from utf8_read_quad [OF a(1) this tail_unat [OF mod_less_divisor] tail_unat [OF mod_less_divisor]
    tail_unat [OF mod_less_divisor], of "x div 4096" "x div 64" x r]
  show ?thesis by (simp del: utf8_read.simps of_nat_add add: v a(3,4))
qed

lemma utf8_write_four:
  "\<not> c < 2048 \<Longrightarrow> c div 1024 = 54 \<Longrightarrow> d div 1024 = 55 \<Longrightarrow> x = 65536 + c mod 1024 * 1024 + d mod 1024 \<Longrightarrow>
    utf8_write (c # d # s) = of_nat (x div 262144 + 240) # of_nat (x div 4096 mod 64 + 128) # of_nat (x div 64 mod 64 + 128)
      # of_nat (x mod 64 + 128) # utf8_write s"
  by (simp add: Let_def)

lemma utf8_write_three:
  "\<not> c < 2048 \<Longrightarrow> \<not> (c div 1024 = 54 \<and> (\<exists>d s'. s = d # s' \<and> d div 1024 = 55)) \<Longrightarrow>
    utf8_write (c # s) = of_nat (c div 4096 + 224) # of_nat (c div 64 mod 64 + 128) # of_nat (c mod 64 + 128) # utf8_write s"
  by (cases "c div 1024 = 54"; cases s) simp_all

lemma utf8_round_trip: "\<forall>c \<in> set s. c < 65536 \<Longrightarrow> utf8_read (utf8_write s) = s"
proof (induction s rule: length_induct)
  case (1 s)
  show ?case
  proof (cases s)
    case Nil
    then show ?thesis by simp
  next
    case (Cons c t)
    have small: "c < 65536" and ih: "utf8_read (utf8_write t) = t" using 1 Cons by simp_all
    consider "c < 128" | "\<not> c < 128" "c < 2048"
      | d t' where "\<not> c < 2048" "c div 1024 = 54" "t = d # t'" "d div 1024 = 55"
      | "\<not> c < 2048" "\<not> (c div 1024 = 54 \<and> (\<exists>d t'. t = d # t' \<and> d div 1024 = 55))"
      by fastforce
    then show ?thesis
    proof cases
      case 1
      then have "utf8_write s = of_nat c # utf8_write t" by (simp add: Cons)
      then show ?thesis by (simp only: utf8_read_one [OF 1] ih Cons)
    next
      case 2
      then have "utf8_write s = of_nat (c div 64 + 192) # of_nat (c mod 64 + 128) # utf8_write t" by (simp add: Cons)
      then show ?thesis by (simp only: utf8_read_two [OF 2] ih Cons)
    next
      case 3
      from 1 Cons 3 have "utf8_read (utf8_write t') = t'" by simp
      then show ?thesis
        by (simp only: Cons 3(3) utf8_write_four [OF 3(1,2,4) refl] utf8_read_four [OF 3(2,4) refl])
    next
      case 4
      then show ?thesis by (simp only: Cons utf8_write_three [OF 4] utf8_read_three [OF small] ih)
    qed
  qed
qed

lemma r_string_write:
  "\<forall>c \<in> set s. c < 65536 \<Longrightarrow> length (utf8_write s) < 2 ^ 32 \<Longrightarrow> r_string (w_string s @ r) = Some (s, r)"
  by (simp add: r_string_def w_string_def r_bytes_write utf8_round_trip)

end
