(* ===== verification/Protobuf.thy ===== *)
theory Protobuf
  imports Wire "HOL-Library.AList"
begin

text \<open>
  Encoding and decoding of messages. The code of a message is generated from its fields and always has
  the same shape; here its fields are a table and the shape is written once: \<open>base\<close> is
  \<open>createBase...\<close>, \<open>enc\<close> is \<open>encode\<close>, \<open>decode_from\<close> the loop of \<open>decode\<close> and
  \<open>fromPartial\<close> the function of that name. The tables of the messages are in the theory Messages.

  A message is an object: a list of properties with their values. A text is a list of code units; a
  number is an integer. Where a value is not of the TypeScript type of its field, nothing is stated.
\<close>

subsection \<open>Fields, values and objects\<close>

datatype scalar = SInt32 | SSint32 | SUint32 | SInt64 | SUint64 | SBool | SString | SBytes

datatype presence = Plain | Optional | Repeated | Packed

text \<open>The literal written before a value, the name of the property, how often it occurs, and its type.\<close>

datatype field = Field (tag: nat) (fname: string) (presence: presence) (ftype: ftype)
  and ftype = Scalar scalar | Sub "field list"

type_synonym schema = "field list"

datatype val =
    VUndef
  | VBool bool
  | VNum int
  | VStr "nat list"
  | VBytes buffer
  | VMsg "(string \<times> val) list"
  | VList "val list"

type_synonym msg = "(string \<times> val) list"

definition number :: "field \<Rightarrow> nat" where
  "number f = tag f div 8"

definition get_prop :: "msg \<Rightarrow> string \<Rightarrow> val" where
  "get_prop m n = (case map_of m n of Some v \<Rightarrow> v | None \<Rightarrow> VUndef)"

definition set_prop :: "string \<Rightarrow> val \<Rightarrow> msg \<Rightarrow> msg" where
  "set_prop n v m = AList.update n v m"

fun zero :: "scalar \<Rightarrow> val" where
  "zero SBool = VBool False"
| "zero SString = VStr []"
| "zero SBytes = VBytes []"
| "zero _ = VNum 0"

fun default :: "field \<Rightarrow> val" where
  "default (Field t n Plain (Scalar s)) = zero s"
| "default (Field t n Repeated ty) = VList []"
| "default (Field t n Packed ty) = VList []"
| "default _ = VUndef"

definition base :: "schema \<Rightarrow> msg" where
  "base fs = map (\<lambda>f. (fname f, default f)) fs"

subsection \<open>Writing\<close>

fun w_scalar :: "scalar \<Rightarrow> val \<Rightarrow> buffer" where
  "w_scalar SInt32 (VNum i) = w_int32 i"
| "w_scalar SSint32 (VNum i) = w_sint32 i"
| "w_scalar SUint32 (VNum i) = w_uint32 i"
| "w_scalar SInt64 (VNum i) = w_int64 i"
| "w_scalar SUint64 (VNum i) = w_int64 i"
| "w_scalar SBool (VBool b) = w_bool b"
| "w_scalar SString (VStr s) = w_string s"
| "w_scalar SBytes (VBytes b) = delimited b"
| "w_scalar _ _ = []"

definition w_tag :: "field \<Rightarrow> buffer" where
  "w_tag f = w_uint32 (int (tag f))"

fun elements :: "val \<Rightarrow> val list" where
  "elements (VList vs) = vs"
| "elements _ = []"

fun as_msg :: "val \<Rightarrow> msg" where
  "as_msg (VMsg m) = m"
| "as_msg _ = []"

text \<open>
  A value equal to its default is left out, a list that is packed never: it is written even when it
  is empty.
\<close>

fun enc :: "schema \<Rightarrow> msg \<Rightarrow> buffer"
  and enc_field :: "field \<Rightarrow> val \<Rightarrow> buffer"
  and enc_val :: "ftype \<Rightarrow> val \<Rightarrow> buffer" where
  "enc [] m = []"
| "enc (f # fs) m = enc_field f (get_prop m (fname f)) @ enc fs m"
| "enc_field (Field t n p ty) v =
     (case p of
        Repeated \<Rightarrow> concat (map (\<lambda>x. w_uint32 (int t) @ enc_val ty x) (elements v))
      | Packed \<Rightarrow> w_uint32 (int t) @ delimited (concat (map (enc_val ty) (elements v)))
      | _ \<Rightarrow> if v = default (Field t n p ty) then [] else w_uint32 (int t) @ enc_val ty v)"
| "enc_val (Scalar s) v = w_scalar s v"
| "enc_val (Sub fs) v = delimited (enc fs (as_msg v))"

subsection \<open>Reading\<close>

fun r_scalar :: "scalar \<Rightarrow> buffer \<Rightarrow> (val \<times> buffer) option" where
  "r_scalar SInt32 r = map_option (map_prod VNum id) (r_int32 r)"
| "r_scalar SSint32 r = map_option (map_prod VNum id) (r_sint32 r)"
| "r_scalar SUint32 r = map_option (map_prod (VNum \<circ> int) id) (r_uint32 r)"
| "r_scalar SInt64 r = map_option (map_prod VNum id) (r_int64 r)"
| "r_scalar SUint64 r = map_option (map_prod VNum id) (r_uint64 r)"
| "r_scalar SBool r = map_option (map_prod VBool id) (r_bool r)"
| "r_scalar SString r = map_option (map_prod VStr id) (r_string r)"
| "r_scalar SBytes r = map_option (map_prod VBytes id) (r_bytes r)"

lemma r_varint64_length: "r_varint64 k r = Some (v, r') \<Longrightarrow> length r' < length r"
  by (induction k r arbitrary: v r' rule: r_varint64.induct) (fastforce split: if_splits)+

lemma r_short64_length: "r_short64 k r = Some (v, r') \<Longrightarrow> length r' \<le> length r \<and> (k \<noteq> 0 \<longrightarrow> length r' < length r)"
  by (induction k r arbitrary: v r' rule: r_short64.induct) (fastforce split: if_splits)+

lemma readLongVarint_length: "readLongVarint r = Some (v, r') \<Longrightarrow> length r' < length r"
  using r_short64_length [of 3 r] r_varint64_length [of 10 r] by (auto simp: readLongVarint_def split: if_splits)

lemma r_bytes_length: "r_bytes r = Some (v, r') \<Longrightarrow> length r' < length r"
  by (auto simp: r_bytes_def Option.bind_eq_Some_conv split: if_splits dest!: r_uint32_length)

lemma r_scalar_length: "r_scalar s r = Some (v, r') \<Longrightarrow> length r' < length r"
  by (cases s)
    (auto simp: r_int32_def r_sint32_def r_bool_def r_string_def r_int64_def r_uint64_def longToNumber_def
      Option.bind_eq_Some_conv split: if_splits dest!: r_uint32_length readLongVarint_length r_bytes_length)

text \<open>The elements of a packed list, while more than \<open>stop\<close> bytes are left.\<close>

function r_packed :: "scalar \<Rightarrow> int \<Rightarrow> buffer \<Rightarrow> (val list \<times> buffer) option" where
  "r_packed s stop r =
     (if int (length r) \<le> stop then Some ([], r)
      else
        (case r_scalar s r of
           None \<Rightarrow> None
         | Some (v, r') \<Rightarrow> map_option (\<lambda>(vs, r''). (v # vs, r'')) (r_packed s stop r')))"
  by pat_completeness auto
termination
  by (relation "measure (\<lambda>(_, _, r). length r)") (auto dest!: r_scalar_length)

declare r_packed.simps [simp del]

lemma r_packed_length: "r_packed s stop r = Some (vs, r') \<Longrightarrow> length r' \<le> length r"
proof (induction s stop r arbitrary: vs rule: r_packed.induct)
  case (1 s stop r)
  show ?case
  proof (cases "int (length r) \<le> stop")
    case False
    then obtain v q ws where "r_scalar s r = Some (v, q)" "r_packed s stop q = Some (ws, r')"
      using 1(2) by (subst (asm) r_packed.simps) (auto split: option.splits)
    then show ?thesis using 1(1) [OF False, of "(v, q)" v q ws] r_scalar_length [of s r v q] by simp
  qed (use 1(2) in \<open>simp add: r_packed.simps\<close>)
qed

definition r_items :: "presence \<Rightarrow> scalar \<Rightarrow> nat \<Rightarrow> buffer \<Rightarrow> (val list \<times> buffer) option" where
  "r_items p s w r =
     (if p = Packed \<and> w = 2
      then Option.bind (r_uint32 r) (\<lambda>(n, q). r_packed s (int (length q) - int n) q)
      else map_option (\<lambda>(v, q). ([v], q)) (r_scalar s r))"

lemma r_items_length: "r_items p s w r = Some (vs, r') \<Longrightarrow> length r' < length r"
  by (auto simp: r_items_def Option.bind_eq_Some_conv split: if_splits dest!: r_scalar_length r_packed_length r_uint32_length)

definition store :: "field \<Rightarrow> val list \<Rightarrow> msg \<Rightarrow> msg" where
  "store f vs m =
     set_prop (fname f)
       (if presence f \<in> {Repeated, Packed} then VList (elements (get_prop m (fname f)) @ vs) else hd vs) m"

text \<open>
  The loop of \<open>decode\<close>: it ends because what an embedded message leaves over is never longer than
  what it was given. It goes on while more than \<open>stop\<close> bytes are left. An embedded message may
  say that it is longer than what is left; \<open>stop\<close> is then negative, and reading goes on until it raises.
\<close>

function decode_from :: "schema \<Rightarrow> int \<Rightarrow> buffer \<Rightarrow> msg \<Rightarrow> (msg \<times> buffer) option" where
  "decode_from fs stop r m =
     (if int (length r) \<le> stop then Some (m, r)
      else
        (case r_uint32 r of
           None \<Rightarrow> None
         | Some (t, r1) \<Rightarrow>
             (case find (\<lambda>f. number f = t div 8) fs of
                None \<Rightarrow> (case skipType (t mod 8) r1 of None \<Rightarrow> None | Some r2 \<Rightarrow> decode_from fs stop r2 m)
              | Some f \<Rightarrow>
                  (case ftype f of
                     Scalar s \<Rightarrow>
                       (case r_items (presence f) s (t mod 8) r1 of
                          None \<Rightarrow> None
                        | Some (vs, r2) \<Rightarrow> decode_from fs stop r2 (store f vs m))
                   | Sub gs \<Rightarrow>
                       (case r_uint32 r1 of
                          None \<Rightarrow> None
                        | Some (n, r2) \<Rightarrow>
                            (case decode_from gs (int (length r2) - int n) r2 (base gs) of
                               None \<Rightarrow> None
                             | Some (m', r3) \<Rightarrow> decode_from fs stop r3 (store f [VMsg m'] m)))))))"
  by pat_completeness auto

termination
proof -
  have shrinks: "length r' \<le> length r"
    if "decode_from_dom (fs, stop, r, m)" "decode_from fs stop r m = Some (m', r')" for fs stop r m m' r'
    using that
    proof (induction fs stop r m arbitrary: m' r' rule: decode_from.pinduct)
      case (1 fs stop r m)
      note unfold = decode_from.psimps [OF 1(1)]
      show ?case
      proof (cases "int (length r) \<le> stop")
        case True
        then show ?thesis using 1(6) by (simp add: unfold)
      next
        case False
        then obtain t r1 where t: "r_uint32 r = Some (t, r1)" using 1(6) by (auto simp: unfold split: option.splits)
        note r1 = r_uint32_length [OF t]
        show ?thesis
        proof (cases "find (\<lambda>f. number f = t div 8) fs")
          case None
          then obtain r2 where "skipType (t mod 8) r1 = Some r2" "decode_from fs stop r2 m = Some (m', r')"
            using 1(6) False t by (auto simp: unfold split: option.splits)
          then show ?thesis using 1(2) [OF False t refl None] skipType_length r1 by fastforce
        next
          case (Some f)
          show ?thesis
          proof (cases "ftype f")
            case (Scalar s)
            then obtain vs r2 where "r_items (presence f) s (t mod 8) r1 = Some (vs, r2)"
              "decode_from fs stop r2 (store f vs m) = Some (m', r')"
              using 1(6) False t Some by (auto simp: unfold split: option.splits)
            then show ?thesis using 1(3) [OF False t refl Some Scalar _ refl] r_items_length r1 by fastforce
          next
            case (Sub gs)
            then obtain n r2 o3 r3 where b: "r_uint32 r1 = Some (n, r2)"
              and c: "decode_from gs (int (length r2) - int n) r2 (base gs) = Some (o3, r3)"
              and d: "decode_from fs stop r3 (store f [VMsg o3] m) = Some (m', r')"
              using 1(6) False t Some by (auto simp: unfold split: option.splits)
            have "length r3 \<le> length r2" by (rule 1(4) [OF False t refl Some Sub b refl c])
            moreover have "length r' \<le> length r3" by (rule 1(5) [OF False t refl Some Sub b refl c refl d])
            ultimately show ?thesis using r_uint32_length [OF b] r1 by simp
          qed
        qed
      qed
    qed
  show ?thesis
    by (relation "measure (\<lambda>(_, _, r, _). length r)")
      (auto dest!: r_uint32_length r_items_length skipType_length shrinks)
qed

declare decode_from.simps [simp del]

text \<open>\<open>decode\<close> of a whole buffer; \<open>None\<close> is an exception.\<close>

definition decode :: "schema \<Rightarrow> buffer \<Rightarrow> msg option" where
  "decode fs bs = map_option fst (decode_from fs 0 bs (base fs))"

text \<open>\<open>fromPartial\<close>: what is missing gets its default.\<close>

fun fromPartial :: "schema \<Rightarrow> msg \<Rightarrow> msg"
  and partial_field :: "field \<Rightarrow> val \<Rightarrow> val"
  and partial_val :: "ftype \<Rightarrow> val \<Rightarrow> val" where
  "fromPartial [] m = []"
| "fromPartial (f # fs) m = (fname f, partial_field f (get_prop m (fname f))) # fromPartial fs m"
| "partial_field (Field t n p ty) v =
     (if v = VUndef then default (Field t n p ty)
      else if p \<in> {Repeated, Packed} then VList (map (partial_val ty) (elements v))
      else partial_val ty v)"
| "partial_val (Scalar s) v = v"
| "partial_val (Sub fs) v = VMsg (fromPartial fs (as_msg v))"

subsection \<open>Tables and messages that fit\<close>

fun wire :: "ftype \<Rightarrow> nat" where
  "wire (Scalar s) = (if s \<in> {SString, SBytes} then 2 else 0)"
| "wire (Sub fs) = 2"

text \<open>
  What the generator promises of a table: the literal before a value carries the wire type of the
  value, numbers and names are distinct, only scalars are packed, an embedded message is optional
  or repeated.
\<close>

fun wf_ty :: "ftype \<Rightarrow> bool"
  and wf_field :: "field \<Rightarrow> bool"
  and wf_fields :: "schema \<Rightarrow> bool" where
  "wf_ty (Scalar s) = True"
| "wf_ty (Sub fs) = (wf_fields fs \<and> distinct (map number fs) \<and> distinct (map fname fs))"
| "wf_field (Field t n p ty) =
     (t < 2 ^ 32 \<and> t mod 8 = (if p = Packed then 2 else wire ty) \<and> wf_ty ty
      \<and> (case ty of Scalar s \<Rightarrow> p = Packed \<longrightarrow> wire ty = 0 | Sub gs \<Rightarrow> p \<in> {Optional, Repeated}))"
| "wf_fields [] = True"
| "wf_fields (f # fs) = (wf_field f \<and> wf_fields fs)"

abbreviation wf :: "schema \<Rightarrow> bool" where
  "wf fs \<equiv> wf_ty (Sub fs)"

fun conf_scalar :: "scalar \<Rightarrow> val \<Rightarrow> bool" where
  "conf_scalar s (VNum i) =
     (case s of
        SInt32 \<Rightarrow> - (2 ^ 31) \<le> i \<and> i < 2 ^ 31
      | SSint32 \<Rightarrow> - (2 ^ 31) \<le> i \<and> i < 2 ^ 31
      | SUint32 \<Rightarrow> 0 \<le> i \<and> i < 2 ^ 32
      | SInt64 \<Rightarrow> - (2 ^ 53) \<le> i \<and> i < 2 ^ 53
      | SUint64 \<Rightarrow> 0 \<le> i \<and> i < 2 ^ 53
      | _ \<Rightarrow> False)"
| "conf_scalar s (VBool b) = (s = SBool)"
| "conf_scalar s (VStr u) = (s = SString \<and> list_all (\<lambda>c. c < 65536) u)"
| "conf_scalar s (VBytes b) = (s = SBytes)"
| "conf_scalar s _ = False"

fun is_list :: "val \<Rightarrow> bool" where
  "is_list (VList vs) = True"
| "is_list _ = False"

fun conf_val :: "ftype \<Rightarrow> val \<Rightarrow> bool"
  and conf_field :: "field \<Rightarrow> val \<Rightarrow> bool"
  and conf_fields :: "schema \<Rightarrow> msg \<Rightarrow> bool" where
  "conf_val (Scalar s) v = conf_scalar s v"
| "conf_val (Sub fs) v = (case v of VMsg m \<Rightarrow> map fst m = map fname fs \<and> conf_fields fs m | _ \<Rightarrow> False)"
| "conf_field (Field t n p ty) v =
     (case p of
        Plain \<Rightarrow> conf_val ty v
      | Optional \<Rightarrow> v = VUndef \<or> conf_val ty v
      | _ \<Rightarrow> is_list v \<and> list_all (conf_val ty) (elements v))"
| "conf_fields [] m = True"
| "conf_fields (f # fs) m = (conf_field f (get_prop m (fname f)) \<and> conf_fields fs m)"

text \<open>A message has exactly the properties of its table, in their order, with values of their types.\<close>

abbreviation conf :: "schema \<Rightarrow> msg \<Rightarrow> bool" where
  "conf fs m \<equiv> conf_val (Sub fs) (VMsg m)"

lemma wf_fields_all: "wf_fields fs \<longleftrightarrow> (\<forall>f \<in> set fs. wf_field f)"
  by (induction fs) auto

lemma conf_fields_all: "conf_fields fs m \<longleftrightarrow> (\<forall>f \<in> set fs. conf_field f (get_prop m (fname f)))"
  by (induction fs) auto

subsection \<open>Reading what was written\<close>

lemma r_scalar_write:
  assumes "conf_scalar s v" "length (w_scalar s v) < 2 ^ 32"
  shows "r_scalar s (w_scalar s v @ r) = Some (v, r)"
proof (cases v)
  case (VNum i)
  then show ?thesis using assms w_uint32_nat [of "nat i"] r_uint32_write [of "nat i" r]
    by (cases s)
      (simp_all add: r_int32_write r_sint32_write r_int64_write r_uint64_write nat_less_iff)
next
  case (VStr u)
  have "length (utf8_write u) < 2 ^ 32" using assms VStr by (simp add: w_string_def delimited_def)
  then show ?thesis using assms VStr by (simp add: r_string_write list_all_iff)
next
  case (VBytes b)
  have "length b < 2 ^ 32" using assms VBytes by (simp add: delimited_def)
  then show ?thesis using assms VBytes by (simp add: r_bytes_write)
qed (use assms in \<open>simp_all add: r_bool_write\<close>)

lemma r_tag: "wf_field f \<Longrightarrow> r_uint32 (w_uint32 (int (tag f)) @ r) = Some (tag f, r)"
  by (cases f) (simp add: w_uint32_nat r_uint32_write)

lemma delimited_eq: "length bs < 2 ^ 32 \<Longrightarrow> delimited bs @ r = varint (length bs) @ bs @ r"
  by (simp add: delimited_def w_uint32_nat)

lemma r_packed_write:
  "list_all (conf_val (Scalar s)) vs \<Longrightarrow> length (concat (map (w_scalar s) vs)) < 2 ^ 32 \<Longrightarrow>
    \<forall>v \<in> set vs. w_scalar s v \<noteq> [] \<Longrightarrow>
    r_packed s (int (length r)) (concat (map (w_scalar s) vs) @ r) = Some (vs, r)"
proof (induction vs)
  case (Cons v vs)
  then have "r_scalar s (w_scalar s v @ concat (map (w_scalar s) vs) @ r) = Some (v, concat (map (w_scalar s) vs) @ r)"
    by (intro r_scalar_write) simp_all
  moreover obtain b bs where "w_scalar s v = b # bs" using Cons(4) by (cases "w_scalar s v") simp_all
  ultimately show ?case using Cons by (subst r_packed.simps) simp
qed (simp add: r_packed.simps)

lemma w_scalar_nonempty: "conf_scalar s v \<Longrightarrow> w_scalar s v \<noteq> []"
  by (cases v; cases s)
    (simp_all add: w_int32_def w_uint32_def w_int64_def w_sint32_def w_bool_def w_string_def delimited_def)

subsection \<open>Objects\<close>

lemma get_set [simp]: "get_prop (set_prop n v m) k = (if k = n then v else get_prop m k)"
  by (auto simp: get_prop_def set_prop_def update_conv')

lemma keys_set: "n \<in> set (map fst m) \<Longrightarrow> map fst (set_prop n v m) = map fst m"
  by (simp add: set_prop_def update_keys)

lemma keys_store: "fname f \<in> set (map fst m) \<Longrightarrow> map fst (store f vs m) = map fst m"
  by (simp add: store_def keys_set)

lemma same_object:
  "map fst m = map fst m' \<Longrightarrow> distinct (map fst m) \<Longrightarrow> \<forall>n \<in> set (map fst m). get_prop m n = get_prop m' n \<Longrightarrow> m = m'"
proof (induction m arbitrary: m')
  case (Cons p m)
  then obtain q m'' where m': "m' = q # m''" by (cases m') auto
  have "get_prop m n = get_prop m'' n" if "n \<in> set (map fst m)" for n
  proof -
    have "fst q = fst p" "fst p \<notin> set (map fst m)" "set (map fst m) = set (map fst m'')" using Cons(2,3) m' by simp_all
    with that have "n \<noteq> fst p" "fst q = fst p" by metis+
    moreover have "get_prop (p # m) n = get_prop (q # m'') n" using Cons(4) that m' by auto
    ultimately show ?thesis by (cases p; cases q) (simp add: get_prop_def)
  qed
  then have eq: "\<forall>n \<in> set (map fst m). get_prop m n = get_prop m'' n" by blast
  have "m = m''" by (rule Cons(1) [OF _ _ eq]) (use Cons(2,3) m' in simp_all)
  moreover have "snd p = snd q" using Cons(2,4) m' by (simp add: get_prop_def)
  ultimately show ?case using Cons(2) m' by (simp add: prod_eq_iff)
qed simp

lemma keys_base [simp]: "map fst (base fs) = map fname fs"
  by (simp add: base_def)

lemma get_table:
  "distinct (map fname fs) \<Longrightarrow> f \<in> set fs \<Longrightarrow> get_prop (map (\<lambda>f. (fname f, h f)) fs) (fname f) = h f"
  by (simp add: get_prop_def map_of_is_SomeI [where y = "h f"] comp_def)

lemma get_base: "distinct (map fname fs) \<Longrightarrow> f \<in> set fs \<Longrightarrow> get_prop (base fs) (fname f) = default f"
  by (simp add: base_def get_table)

lemma table_of_object:
  assumes "distinct (map fname fs)" "map fst m = map fname fs"
  shows "map (\<lambda>f. (fname f, get_prop m (fname f))) fs = m"
proof (rule same_object)
  have "get_prop (map (\<lambda>f. (fname f, get_prop m (fname f))) fs) (fname f) = get_prop m (fname f)" if "f \<in> set fs" for f
    by (rule get_table [OF assms(1) that])
  then show "\<forall>n \<in> set (map fst (map (\<lambda>f. (fname f, get_prop m (fname f))) fs)).
      get_prop (map (\<lambda>f. (fname f, get_prop m (fname f))) fs) n = get_prop m n"
    by simp
qed (use assms in \<open>simp_all add: comp_def\<close>)

subsection \<open>One field\<close>

text \<open>What reading an encoded field does to the message.\<close>

definition absorb :: "field \<Rightarrow> val \<Rightarrow> msg \<Rightarrow> msg" where
  "absorb f v m =
     (if presence f = Repeated then fold (\<lambda>x. store f [x]) (elements v) m
      else if presence f = Packed then store f (elements v) m
      else if v = default f then m else store f [v] m)"

lemma get_store_list:
  "presence f \<in> {Repeated, Packed} \<Longrightarrow>
    get_prop (store f vs m) k = (if k = fname f then VList (elements (get_prop m k) @ vs) else get_prop m k)"
  by (auto simp: store_def)

lemma fold_store:
  assumes "presence f = Repeated"
  shows "get_prop (fold (\<lambda>x. store f [x]) vs m) k =
    (if k = fname f \<and> vs \<noteq> [] then VList (elements (get_prop m k) @ vs) else get_prop m k)"
  using assms by (induction vs arbitrary: m) (simp_all add: get_store_list)

lemma keys_fold_store: "fname f \<in> set (map fst m) \<Longrightarrow> map fst (fold (\<lambda>x. store f [x]) vs m) = map fst m"
proof (induction vs arbitrary: m)
  case (Cons v vs)
  have k: "map fst (store f [v] m) = map fst m" by (rule keys_store [OF Cons(2)])
  have "fname f \<in> set (map fst (store f [v] m))" using Cons(2) by (simp only: k)
  from Cons(1) [OF this] show ?case by (simp only: fold_simps k)
qed simp

lemma keys_absorb: "fname f \<in> set (map fst m) \<Longrightarrow> map fst (absorb f v m) = map fst m"
  by (simp add: absorb_def keys_fold_store [simplified] keys_store [simplified])

lemma get_absorb:
  assumes "conf_field f v" "get_prop m (fname f) = default f"
  shows "get_prop (absorb f v m) k = (if k = fname f then v else get_prop m k)"
proof (cases "presence f \<in> {Repeated, Packed}")
  case True
  then have "is_list v" "default f = VList []" using assms(1) by (cases f; auto split: presence.splits)+
  then obtain vs where "v = VList vs" "elements (get_prop m (fname f)) = []" using assms(2) by (cases v) auto
  then show ?thesis using True assms(2) \<open>default f = VList []\<close> by (auto simp: absorb_def get_store_list fold_store)
next
  case False
  then show ?thesis using assms(2) by (cases f) (auto simp: absorb_def store_def)
qed

lemma find_number:
  assumes "f \<in> set fs" "distinct (map number fs)"
  shows "find (\<lambda>g. number g = number f) fs = Some f"
  using assms
proof (induction fs)
  case (Cons g fs)
  then have "f \<noteq> g \<longrightarrow> number g \<noteq> number f" by (metis distinct.simps(2) image_eqI list.set_map list.simps(9) set_ConsD)
  then show ?case using Cons by auto
qed simp

lemma w_uint32_some: "\<exists>b bs. w_uint32 i = b # bs"
  by (metis neq_Nil_conv varint_nonempty w_uint32_def)

text \<open>One turn of the loop on a field of the table, and on a field it does not have.\<close>

lemma decode_scalar:
  assumes "f \<in> set fs" "distinct (map number fs)" "wf_field f" "ftype f = Scalar s"
    and "r_items (presence f) s (tag f mod 8) x = Some (vs, y)" "stop \<le> int (length x)"
  shows "decode_from fs stop (w_uint32 (int (tag f)) @ x) m = decode_from fs stop y (store f vs m)"
  using assms w_uint32_some [of "int (tag f)"] r_tag [OF assms(3), of x] find_number [OF assms(1,2), unfolded number_def]
  by (subst decode_from.simps) (auto simp: number_def)

lemma decode_sub:
  assumes "f \<in> set fs" "distinct (map number fs)" "wf_field f" "ftype f = Sub gs" "length bs < 2 ^ 32"
    and "decode_from gs (int (length y)) (bs @ y) (base gs) = Some (m', y)" "stop \<le> int (length y)"
  shows "decode_from fs stop (w_uint32 (int (tag f)) @ delimited bs @ y) m = decode_from fs stop y (store f [VMsg m'] m)"
  using assms w_uint32_some [of "int (tag f)"] r_tag [OF assms(3), of "delimited bs @ y"]
    find_number [OF assms(1,2), unfolded number_def] r_uint32_write [of "length bs" "bs @ y"]
  by (subst decode_from.simps) (auto simp: number_def delimited_eq)

lemma decode_unknown:
  assumes "\<forall>g \<in> set fs. number g \<noteq> number f" "wf_field f" "skipType (tag f mod 8) x = Some y" "stop \<le> int (length x)"
  shows "decode_from fs stop (w_uint32 (int (tag f)) @ x) m = decode_from fs stop y m"
proof -
  have "find (\<lambda>g. number g = tag f div 8) fs = None" using assms(1) by (auto simp: find_None_iff number_def)
  then show ?thesis
    using assms w_uint32_some [of "int (tag f)"] r_tag [OF assms(2), of x] by (subst decode_from.simps) auto
qed

subsection \<open>Round trip\<close>

text \<open>What holds of a field, and of a message by the lemmas below: reading undoes writing.\<close>

definition reads_back :: "ftype \<Rightarrow> bool" where
  "reads_back ty \<longleftrightarrow>
     (\<forall>gs m r. ty = Sub gs \<longrightarrow> wf gs \<longrightarrow> conf gs m \<longrightarrow> length (enc gs m) < 2 ^ 32 \<longrightarrow>
        decode_from gs (int (length r)) (enc gs m @ r) (base gs) = Some (m, r))"

lemma one_value:
  assumes "reads_back (ftype f)" "f \<in> set fs" "distinct (map number fs)" "wf_field f" "presence f \<noteq> Packed"
    and v: "conf_val (ftype f) v" and len: "length (enc_val (ftype f) v) < 2 ^ 32" and stop: "stop \<le> int (length r)"
  shows "decode_from fs stop (w_uint32 (int (tag f)) @ enc_val (ftype f) v @ r) m = decode_from fs stop r (store f [v] m)"
proof (cases "ftype f")
  case (Scalar s)
  then have "r_items (presence f) s (tag f mod 8) (w_scalar s v @ r) = Some ([v], r)"
    using v len assms(5) by (simp add: r_items_def r_scalar_write)
  then show ?thesis using decode_scalar [OF assms(2-4) Scalar _ , of "w_scalar s v @ r" "[v]" r stop m] stop Scalar by simp
next
  case (Sub gs)
  then obtain m' where m': "v = VMsg m'" using v by (cases v) auto
  have "wf gs" using assms(4) Sub by (cases f) simp
  moreover have "length (enc gs m') < 2 ^ 32" using len Sub m' by (simp add: delimited_def)
  ultimately show ?thesis
    using decode_sub [OF assms(2-4) Sub, of "enc gs m'" r m' stop m] assms(1) v stop Sub m' by (simp add: reads_back_def)
qed

lemma many_values:
  assumes "reads_back (ftype f)" "f \<in> set fs" "distinct (map number fs)" "wf_field f" "presence f \<noteq> Packed"
    and "list_all (conf_val (ftype f)) vs" "length (concat (map (\<lambda>x. w_uint32 (int (tag f)) @ enc_val (ftype f) x) vs)) < 2 ^ 32"
    and "stop \<le> int (length r)"
  shows "decode_from fs stop (concat (map (\<lambda>x. w_uint32 (int (tag f)) @ enc_val (ftype f) x) vs) @ r) m
    = decode_from fs stop r (fold (\<lambda>x. store f [x]) vs m)"
  using assms(6-8)
proof (induction vs arbitrary: m)
  case (Cons v vs)
  let ?rest = "concat (map (\<lambda>x. w_uint32 (int (tag f)) @ enc_val (ftype f) x) vs) @ r"
  have "decode_from fs stop (w_uint32 (int (tag f)) @ enc_val (ftype f) v @ ?rest) m
    = decode_from fs stop ?rest (store f [v] m)"
    using Cons by (intro one_value [OF assms(1-5)]) simp_all
  then show ?case using Cons by simp
qed simp

lemma scalar_functions: "enc_val (Scalar s) = w_scalar s" "conf_val (Scalar s) = conf_scalar s"
  by (simp_all add: fun_eq_iff)

lemma packed_values:
  assumes "f \<in> set fs" "distinct (map number fs)" "wf_field f" "presence f = Packed" "ftype f = Scalar s"
    and "list_all (conf_scalar s) vs" "length (concat (map (w_scalar s) vs)) < 2 ^ 32" "stop \<le> int (length r)"
  shows "decode_from fs stop (w_uint32 (int (tag f)) @ delimited (concat (map (w_scalar s) vs)) @ r) m
    = decode_from fs stop r (store f vs m)"
proof (rule decode_scalar [OF assms(1-3,5)])
  have "r_packed s (int (length r)) (concat (map (w_scalar s) vs) @ r) = Some (vs, r)"
    using assms(6,7) w_scalar_nonempty by (intro r_packed_write) (auto simp: list_all_iff)
  moreover have "tag f mod 8 = 2" using assms(3,4) by (cases f) simp
  ultimately show "r_items (presence f) s (tag f mod 8) (delimited (concat (map (w_scalar s) vs)) @ r) = Some (vs, r)"
    using assms(4,7) by (simp add: r_items_def delimited_eq r_uint32_write)
qed (use assms(8) in simp)

lemma one_field:
  assumes "reads_back (ftype f)" "f \<in> set fs" "distinct (map number fs)" "wf_field f"
    and v: "conf_field f v" and len: "length (enc_field f v) < 2 ^ 32" and stop: "stop \<le> int (length r)"
  shows "decode_from fs stop (enc_field f v @ r) m = decode_from fs stop r (absorb f v m)"
proof (cases f)
  case (Field t n p ty)
  show ?thesis
  proof (cases p)
    case Repeated
    then show ?thesis using many_values [OF assms(1-4) _ _ _ stop, of "elements v" m] v len Field by (simp add: absorb_def)
  next
    case Packed
    then obtain s where "ty = Scalar s" using assms(4) Field by (cases ty) auto
    then show ?thesis using packed_values [OF assms(2-4) _ _ _ _ stop, of s "elements v" m] v len Field Packed
      by (simp add: absorb_def delimited_def scalar_functions)
  qed (use one_value [OF assms(1-4) _ _ _ stop, of v m] v len Field in \<open>auto simp: absorb_def\<close>)
qed

text \<open>
  A table \<open>gs\<close> that writes and a table \<open>fs\<close> that reads: each field of \<open>gs\<close> is one of \<open>fs\<close>, or \<open>fs\<close> has
  no field of its number.
\<close>

definition compatible :: "schema \<Rightarrow> schema \<Rightarrow> bool" where
  "compatible gs fs \<longleftrightarrow> (\<forall>g \<in> set gs. g \<in> set fs \<or> (\<forall>f \<in> set fs. number f \<noteq> number g))"

lemma skip_varint_write: "skip_varint (varint n @ r) = Some r"
proof (induction n rule: varint.induct)
  case (1 n)
  show ?case
  proof (cases "n < 128")
    case False
    have "unat (of_nat (n mod 128 + 128) :: 8 word) = n mod 128 + 128" by (rule byte_nat) simp
    then have "skip_varint (varint n @ r) = skip_varint (varint (n div 128) @ r)" using False
      by (simp only: varint_Cons not_less append_Cons skip_varint.simps) simp
    then show ?thesis using 1 [OF False] by simp
  qed (simp add: varint_last)
qed

lemma delimited_short: "length (delimited bs) < 2 ^ 32 \<Longrightarrow> length bs < 2 ^ 32"
  by (simp add: delimited_def)

lemma skip_delimited: "length bs < 2 ^ 32 \<Longrightarrow> skipType 2 (delimited bs @ r) = Some r"
  by (simp add: skipType_def skip_simple_def skip_bytes_def delimited_eq r_uint32_write)

lemma skip_zero: "skipType 0 r = skip_varint r"
  by (simp add: skipType_def skip_simple_def)

lemma skip_scalar:
  "conf_scalar s v \<Longrightarrow> length (w_scalar s v) < 2 ^ 32 \<Longrightarrow> skipType (wire (Scalar s)) (w_scalar s v @ r) = Some r"
proof (cases v)
  case (VNum i)
  assume "conf_scalar s v"
  then show ?thesis using VNum
    by (cases s) (simp_all add: skip_zero w_int32_def w_uint32_def w_int64_def w_sint32_def skip_varint_write)
next
  case (VBool b)
  assume "conf_scalar s v"
  then show ?thesis using VBool by (simp add: skip_zero w_bool_def)
next
  case (VStr u)
  assume "conf_scalar s v" "length (w_scalar s v) < 2 ^ 32"
  then show ?thesis using VStr skip_delimited [OF delimited_short, of "utf8_write u"] by (simp add: w_string_def)
next
  case (VBytes b)
  assume "conf_scalar s v" "length (w_scalar s v) < 2 ^ 32"
  then show ?thesis using VBytes skip_delimited [OF delimited_short, of b] by simp
qed simp_all

lemma skip_value:
  "conf_val ty v \<Longrightarrow> length (enc_val ty v) < 2 ^ 32 \<Longrightarrow> skipType (wire ty) (enc_val ty v @ r) = Some r"
proof (cases ty)
  case (Scalar s)
  assume "conf_val ty v" "length (enc_val ty v) < 2 ^ 32"
  then show ?thesis using Scalar skip_scalar by simp
next
  case (Sub gs)
  assume "length (enc_val ty v) < 2 ^ 32"
  then show ?thesis using Sub skip_delimited [OF delimited_short] by simp
qed

lemma skip_field:
  assumes "\<forall>g \<in> set fs. number g \<noteq> number f" "wf_field f" "conf_field f v"
    and "length (enc_field f v) < 2 ^ 32" "stop \<le> int (length r)"
  shows "decode_from fs stop (enc_field f v @ r) m = decode_from fs stop r m"
proof (cases f)
  case (Field t n p ty)
  have skip: "decode_from fs stop (w_uint32 (int t) @ x @ y) m = decode_from fs stop y m"
    if "skipType (t mod 8) (x @ y) = Some y" "stop \<le> int (length (x @ y))" for x y
    using decode_unknown [OF assms(1,2), of "x @ y" y] that Field by simp
  have one: "decode_from fs stop (w_uint32 (int t) @ enc_val ty x @ y) m = decode_from fs stop y m"
    if "p \<noteq> Packed" "conf_val ty x" "length (enc_val ty x) < 2 ^ 32" "stop \<le> int (length y)" for x y
    using assms(2) Field that by (intro skip) (simp_all add: skip_value)
  show ?thesis
  proof (cases p)
    case Repeated
    have "decode_from fs stop (concat (map (\<lambda>x. w_uint32 (int t) @ enc_val ty x) vs) @ r) m = decode_from fs stop r m"
      if "list_all (conf_val ty) vs" "length (concat (map (\<lambda>x. w_uint32 (int t) @ enc_val ty x) vs)) < 2 ^ 32" for vs
      using that assms(5) Repeated by (induction vs) (simp_all add: one)
    then show ?thesis using assms(3,4) Field Repeated by simp
  next
    case Packed
    let ?bs = "concat (map (enc_val ty) (elements v))"
    have "length ?bs < 2 ^ 32" using assms(4) Field Packed by (simp add: delimited_def)
    then have "skipType (t mod 8) (delimited ?bs @ r) = Some r" using assms(2) Field Packed by (simp add: skip_delimited)
    then show ?thesis using skip [of "delimited ?bs" r] assms(5) Field Packed by simp
  qed (use one [of v r] assms(3-5) Field in auto)
qed

lemma many_fields:
  assumes "compatible hs fs" "distinct (map number fs)" "\<forall>f \<in> set hs. reads_back (ftype f) \<and> wf_field f"
    and "conf_fields hs m" "length (enc hs m) < 2 ^ 32" "stop \<le> int (length r)"
  shows "decode_from fs stop (enc hs m @ r) acc
    = decode_from fs stop r (fold (\<lambda>f. absorb f (get_prop m (fname f))) (filter (\<lambda>f. f \<in> set fs) hs) acc)"
  using assms
proof (induction hs arbitrary: acc)
  case (Cons f hs)
  have rest: "decode_from fs stop (enc hs m @ r) a
      = decode_from fs stop r (fold (\<lambda>f. absorb f (get_prop m (fname f))) (filter (\<lambda>f. f \<in> set fs) hs) a)" for a
    using Cons by (intro Cons(1)) (simp_all add: compatible_def)
  have len: "length (enc_field f (get_prop m (fname f))) < 2 ^ 32" "stop \<le> int (length (enc hs m @ r))"
    using Cons(6,7) by simp_all
  show ?case
  proof (cases "f \<in> set fs")
    case True
    then show ?thesis using one_field [OF _ True Cons(3) _ _ len] Cons(4,5) rest by simp
  next
    case False
    then have "\<forall>g \<in> set fs. number g \<noteq> number f" using Cons(2) by (auto simp: compatible_def)
    then show ?thesis using skip_field [OF _ _ _ len] Cons(4,5) False rest by simp
  qed
qed simp

lemma folded:
  assumes "\<forall>f \<in> set hs. f \<in> set fs" "distinct (map fname hs)" "map fst acc = map fname fs"
    and "\<forall>f \<in> set hs. get_prop acc (fname f) = default f" "conf_fields hs m"
  shows "map fst (fold (\<lambda>f. absorb f (get_prop m (fname f))) hs acc) = map fname fs
    \<and> (\<forall>k. get_prop (fold (\<lambda>f. absorb f (get_prop m (fname f))) hs acc) k
        = (if k \<in> fname ` set hs then get_prop m k else get_prop acc k))"
  using assms
proof (induction hs arbitrary: acc)
  case (Cons f hs)
  let ?a = "absorb f (get_prop m (fname f)) acc"
  have get: "get_prop ?a k = (if k = fname f then get_prop m k else get_prop acc k)" for k
    using Cons(5,6) by (simp add: get_absorb)
  have "set (map fst acc) = set (map fname fs)" by (simp only: Cons(4))
  then have "fname f \<in> set (map fst acc)" using Cons(2) by simp
  then have keys: "map fst ?a = map fname fs" using Cons(4) keys_absorb by metis
  have "\<forall>g \<in> set hs. get_prop ?a (fname g) = default g"
  proof
    fix g
    assume g: "g \<in> set hs"
    then have "fname g \<noteq> fname f" using Cons(3) by (metis distinct.simps(2) image_eqI list.set_map list.simps(9))
    then show "get_prop ?a (fname g) = default g" using Cons(5) g by (simp add: get)
  qed
  then show ?case using Cons(1) [OF _ _ keys] Cons(2,3,6) by (auto simp: get)
qed simp

lemma absorbed_all:
  assumes "distinct (map fname fs)" "distinct (map fname gs)" "conf_fields gs m"
  shows "fold (\<lambda>f. absorb f (get_prop m (fname f))) (filter (\<lambda>f. f \<in> set fs) gs) (base fs)
    = map (\<lambda>f. (fname f, if f \<in> set gs then get_prop m (fname f) else default f)) fs"
proof -
  let ?hs = "filter (\<lambda>f. f \<in> set fs) gs" and ?new = "\<lambda>f. if f \<in> set gs then get_prop m (fname f) else default f"
  let ?m = "fold (\<lambda>f. absorb f (get_prop m (fname f))) ?hs (base fs)"
  have f: "map fst ?m = map fname fs \<and> (\<forall>k. get_prop ?m k = (if k \<in> fname ` set ?hs then get_prop m k else get_prop (base fs) k))"
    using assms by (intro folded) (auto simp: get_base distinct_map_filter conf_fields_all)
  have same: "(fname f \<in> fname ` set ?hs) = (f \<in> set gs)" if "f \<in> set fs" for f
    using assms(1) that by (auto simp: distinct_map inj_on_def)
  have new: "get_prop (map (\<lambda>f. (fname f, ?new f)) fs) (fname f) = ?new f" if "f \<in> set fs" for f
    by (rule get_table [OF assms(1) that])
  have "get_prop ?m (fname f) = ?new f" if "f \<in> set fs" for f
    using f same [OF that] get_base [OF assms(1) that] by simp
  then show ?thesis using f assms(1) new by (intro same_object) (auto simp: comp_def simp del: map_eq_conv)
qed

lemma all_read_back: "reads_back (ftype f)" "reads_back ty"
proof (induction f and ty)
  case (Sub gs)
  show ?case
    unfolding reads_back_def
  proof (intro allI impI)
    fix hs m and r :: buffer
    assume hs: "Sub gs = Sub hs" "wf hs" "conf hs m" "length (enc hs m) < 2 ^ 32"
    have "compatible hs hs" by (simp add: compatible_def)
    then have "decode_from hs (int (length r)) (enc hs m @ r) (base hs)
      = decode_from hs (int (length r)) r (fold (\<lambda>f. absorb f (get_prop m (fname f))) (filter (\<lambda>f. f \<in> set hs) hs) (base hs))"
      using hs Sub by (intro many_fields) (auto simp: wf_fields_all)
    also have "\<dots> = Some (map (\<lambda>f. (fname f, get_prop m (fname f))) hs, r)"
      using hs absorbed_all [of hs hs m] by (subst decode_from.simps) (simp cong: map_cong)
    also have "map (\<lambda>f. (fname f, get_prop m (fname f))) hs = m"
      using hs by (intro table_of_object) simp_all
    finally show "decode_from hs (int (length r)) (enc hs m @ r) (base hs) = Some (m, r)" .
  qed
qed (simp_all add: reads_back_def)

lemma decode_enc:
  assumes "wf fs" "wf gs" "compatible gs fs" "conf gs m" "length (enc gs m) < 2 ^ 32"
  shows "decode fs (enc gs m) = Some (map (\<lambda>f. (fname f, if f \<in> set gs then get_prop m (fname f) else default f)) fs)"
proof -
  have "decode_from fs 0 (enc gs m @ []) (base fs)
    = decode_from fs 0 [] (fold (\<lambda>f. absorb f (get_prop m (fname f))) (filter (\<lambda>f. f \<in> set fs) gs) (base fs))"
    using assms by (intro many_fields) (auto simp: wf_fields_all all_read_back)
  then show ?thesis using absorbed_all [of fs gs m] assms by (simp add: decode_def decode_from.simps [of fs 0 "[]"])
qed

text \<open>A message whose table all its readers share.\<close>

lemma decode_own: "wf fs \<Longrightarrow> conf fs m \<Longrightarrow> length (enc fs m) < 2 ^ 32 \<Longrightarrow> decode fs (enc fs m) = Some m"
  using decode_enc [of fs fs m] table_of_object [of fs m] by (simp add: compatible_def cong: map_cong)

subsection \<open>Partial messages\<close>

text \<open>What \<open>fromPartial\<close> is called with: some of the properties, embedded messages again partial.\<close>

fun part_val :: "ftype \<Rightarrow> val \<Rightarrow> bool"
  and part_field :: "field \<Rightarrow> val \<Rightarrow> bool"
  and part_fields :: "schema \<Rightarrow> msg \<Rightarrow> bool" where
  "part_val (Scalar s) v = conf_scalar s v"
| "part_val (Sub fs) v = (case v of VMsg m \<Rightarrow> part_fields fs m | _ \<Rightarrow> False)"
| "part_field (Field t n p ty) v =
     (v = VUndef
      \<or> (if p \<in> {Repeated, Packed} then is_list v \<and> list_all (part_val ty) (elements v) else part_val ty v))"
| "part_fields [] m = True"
| "part_fields (f # fs) m = (part_field f (get_prop m (fname f)) \<and> part_fields fs m)"

lemma fromPartial_table: "fromPartial fs m = map (\<lambda>f. (fname f, partial_field f (get_prop m (fname f)))) fs"
  by (induction fs) simp_all

lemma conf_zero: "conf_scalar s (zero s)"
  by (cases s) simp_all

lemma part_fields_all: "part_fields fs m \<longleftrightarrow> (\<forall>f \<in> set fs. part_field f (get_prop m (fname f)))"
  by (induction fs) auto

lemma conf_default: "wf_field f \<Longrightarrow> conf_field f (default f)"
  by (cases f rule: default.cases) (auto simp: conf_zero)

lemma fromPartial_fits:
  "wf_field f \<Longrightarrow> part_field f v \<Longrightarrow> conf_field f (partial_field f v)"
  "wf_ty ty \<Longrightarrow> part_val ty v \<Longrightarrow> conf_val ty (partial_val ty v)"
proof (induction f and ty arbitrary: v and v)
  case (Field t n p ty)
  show ?case
  proof (cases "v = VUndef")
    case True
    then show ?thesis using conf_default [OF Field(2)] by simp
  next
    case False
    then show ?thesis using Field by (cases p) (auto simp: list_all_iff)
  qed
next
  case (Sub gs)
  obtain m where m: "v = VMsg m" "part_fields gs m" using Sub(3) by (cases v) auto
  have "conf_field f (partial_field f (get_prop m (fname f)))" if "f \<in> set gs" for f
    using Sub m(2) that by (simp add: wf_fields_all part_fields_all)
  then have "conf_fields gs (fromPartial gs m)"
    using Sub(2) by (simp add: conf_fields_all fromPartial_table get_table)
  then show ?case using m by (simp add: fromPartial_table comp_def)
qed simp_all

lemma message_decoded:
  assumes "wf fs" "part_fields fs m" "length (enc fs (fromPartial fs m)) < 2 ^ 32"
  shows "decode fs (enc fs (fromPartial fs m)) = Some (fromPartial fs m)"
proof -
  have "conf fs (fromPartial fs m)" using fromPartial_fits(2) [of "Sub fs" "VMsg m"] assms by simp
  then show ?thesis using assms(1,3) by (intro decode_own)
qed

subsection \<open>Properties\<close>

text \<open>
  C6: What a client sends arrives as it was meant. \<open>encode(fromPartial(json)).finish()\<close>, the buffer of a
  message given some of its properties, is decoded by the receiver's \<open>decode\<close> into the message with those
  properties and the defaults for the others, for every table the generator accepts and every message
  whose encoding is shorter than 4 GB.
\<close>

theorem message_arrives:
  assumes "wf fs" "part_fields fs m" "length (enc fs (fromPartial fs m)) < 2 ^ 32"
  shows "decode fs (enc fs (fromPartial fs m)) = Some (fromPartial fs m)"
  by (rule message_decoded [OF assms])

definition cursor_table :: schema where
  "cursor_table =
     [Field 8 ''x'' Plain (Scalar SSint32), Field 18 ''name'' Optional (Scalar SString), Field 26 ''at'' Packed (Scalar SInt32)]"

theorem message_arrives_witness:
  "decode cursor_table (enc cursor_table (fromPartial cursor_table [(''name'', VStr [233]), (''x'', VNum (- 3))]))
    = Some [(''x'', VNum (- 3)), (''name'', VStr [233]), (''at'', VList [])]"
proof -
  let ?m = "fromPartial cursor_table [(''name'', VStr [233]), (''x'', VNum (- 3))]"
  have m: "?m = [(''x'', VNum (- 3)), (''name'', VStr [233]), (''at'', VList [])]"
    by (simp add: cursor_table_def get_prop_def)
  have "length (enc cursor_table ?m) = 8" unfolding m by code_simp
  then show ?thesis
    using message_arrives [of cursor_table "[(''name'', VStr [233]), (''x'', VNum (- 3))]"] m
    by (simp add: cursor_table_def number_def get_prop_def)
qed

text \<open>
  C8: Readers and writers of different versions understand each other. When each field of the writer's
  table is one of the reader's or has a number the reader does not know, the reader takes the fields
  both know, skips the writer's others whatever their type, and has the defaults for its own others.
\<close>

theorem versions_compatible:
  assumes "wf fs" "wf gs" "compatible gs fs" "conf gs m" "length (enc gs m) < 2 ^ 32"
  shows "decode fs (enc gs m) = Some (map (\<lambda>f. (fname f, if f \<in> set gs then get_prop m (fname f) else default f)) fs)"
  by (rule decode_enc [OF assms])

theorem versions_compatible_witness:
  "decode [Field 8 ''x'' Plain (Scalar SSint32), Field 32 ''z'' Plain (Scalar SBool)]
      (enc cursor_table [(''x'', VNum 4), (''name'', VStr [65]), (''at'', VList [VNum 1, VNum 300])])
    = Some [(''x'', VNum 4), (''z'', VBool False)]"
proof -
  let ?m = "[(''x'', VNum 4), (''name'', VStr [65]), (''at'', VList [VNum 1, VNum 300])]"
  have "length (enc cursor_table ?m) = 10" by code_simp
  then show ?thesis
    using versions_compatible [of "[Field 8 ''x'' Plain (Scalar SSint32), Field 32 ''z'' Plain (Scalar SBool)]" cursor_table ?m]
    by (simp add: cursor_table_def number_def get_prop_def compatible_def)
qed

text \<open>
  An embedded message that announces more bytes than there are is refused: the loop, asked to
  stop beyond the end of the buffer, raises on every buffer and never returns a message.
\<close>

lemma overlong_refused:
  assumes "stop < 0"
  shows "decode_from fs stop r m = None"
  using assms
proof (induction fs stop r m rule: decode_from.induct)
  case (1 fs stop r m)
  then show ?case
    by (subst decode_from.simps) (auto split: option.split ftype.split)
qed

end
