(* ===== verification/Messages.thy ===== *)
theory Messages
  imports Protobuf
begin

text \<open>
  The messages between a client and a peer: the tables of \<open>api/resources/web/js/src/message.ts\<close>. A
  row is the literal that \<open>encode\<close> writes before the value, the property, its presence and its type; an
  enumeration is an \<open>int32\<close>. \<open>createBase...\<close>, \<open>encode\<close>, \<open>decode\<close> and \<open>fromPartial\<close> of a message are the
  functions of the theory Protobuf at its table. A table stands after those of the messages it embeds.
\<close>

definition VP9_fields :: schema where
  "VP9_fields =
    [Field 10 ''data'' Plain (Scalar SBytes),
     Field 16 ''key'' Plain (Scalar SBool),
     Field 24 ''pts'' Plain (Scalar SInt64)]"

definition VP9s_fields :: schema where
  "VP9s_fields =
    [Field 10 ''frames'' Repeated (Sub VP9_fields)]"

definition RGB_fields :: schema where
  "RGB_fields =
    [Field 8 ''compress'' Plain (Scalar SBool)]"

definition YUV_fields :: schema where
  "YUV_fields =
    [Field 8 ''compress'' Plain (Scalar SBool),
     Field 16 ''stride'' Plain (Scalar SInt32)]"

definition VideoFrame_fields :: schema where
  "VideoFrame_fields =
    [Field 50 ''vp9s'' Optional (Sub VP9s_fields),
     Field 58 ''rgb'' Optional (Sub RGB_fields),
     Field 66 ''yuv'' Optional (Sub YUV_fields),
     Field 72 ''timestamp'' Plain (Scalar SInt64)]"

definition IdPk_fields :: schema where
  "IdPk_fields =
    [Field 10 ''id'' Plain (Scalar SString),
     Field 18 ''pk'' Plain (Scalar SBytes)]"

definition DisplayInfo_fields :: schema where
  "DisplayInfo_fields =
    [Field 8 ''x'' Plain (Scalar SSint32),
     Field 16 ''y'' Plain (Scalar SSint32),
     Field 24 ''width'' Plain (Scalar SInt32),
     Field 32 ''height'' Plain (Scalar SInt32),
     Field 42 ''name'' Plain (Scalar SString),
     Field 48 ''online'' Plain (Scalar SBool)]"

definition PortForward_fields :: schema where
  "PortForward_fields =
    [Field 10 ''host'' Plain (Scalar SString),
     Field 16 ''port'' Plain (Scalar SInt32)]"

definition FileTransfer_fields :: schema where
  "FileTransfer_fields =
    [Field 10 ''dir'' Plain (Scalar SString),
     Field 16 ''show_hidden'' Plain (Scalar SBool)]"

definition OptionMessage_fields :: schema where
  "OptionMessage_fields =
    [Field 8 ''image_quality'' Plain (Scalar SInt32),
     Field 16 ''lock_after_session_end'' Plain (Scalar SInt32),
     Field 24 ''show_remote_cursor'' Plain (Scalar SInt32),
     Field 32 ''privacy_mode'' Plain (Scalar SInt32),
     Field 40 ''block_input'' Plain (Scalar SInt32),
     Field 48 ''custom_image_quality'' Plain (Scalar SInt32),
     Field 56 ''disable_audio'' Plain (Scalar SInt32),
     Field 64 ''disable_clipboard'' Plain (Scalar SInt32),
     Field 72 ''enable_file_transfer'' Plain (Scalar SInt32)]"

definition LoginRequest_fields :: schema where
  "LoginRequest_fields =
    [Field 10 ''username'' Plain (Scalar SString),
     Field 18 ''password'' Plain (Scalar SBytes),
     Field 34 ''my_id'' Plain (Scalar SString),
     Field 42 ''my_name'' Plain (Scalar SString),
     Field 50 ''option'' Optional (Sub OptionMessage_fields),
     Field 58 ''file_transfer'' Optional (Sub FileTransfer_fields),
     Field 66 ''port_forward'' Optional (Sub PortForward_fields),
     Field 72 ''video_ack_required'' Plain (Scalar SBool)]"

definition ChatMessage_fields :: schema where
  "ChatMessage_fields =
    [Field 10 ''text'' Plain (Scalar SString)]"

definition Features_fields :: schema where
  "Features_fields =
    [Field 8 ''privacy_mode'' Plain (Scalar SBool)]"

definition PeerInfo_fields :: schema where
  "PeerInfo_fields =
    [Field 10 ''username'' Plain (Scalar SString),
     Field 18 ''hostname'' Plain (Scalar SString),
     Field 26 ''platform'' Plain (Scalar SString),
     Field 34 ''displays'' Repeated (Sub DisplayInfo_fields),
     Field 40 ''current_display'' Plain (Scalar SInt32),
     Field 48 ''sas_enabled'' Plain (Scalar SBool),
     Field 58 ''version'' Plain (Scalar SString),
     Field 64 ''conn_id'' Plain (Scalar SInt32),
     Field 74 ''features'' Optional (Sub Features_fields)]"

definition LoginResponse_fields :: schema where
  "LoginResponse_fields =
    [Field 10 ''error'' Optional (Scalar SString),
     Field 18 ''peer_info'' Optional (Sub PeerInfo_fields)]"

definition MouseEvent_fields :: schema where
  "MouseEvent_fields =
    [Field 8 ''mask'' Plain (Scalar SInt32),
     Field 16 ''x'' Plain (Scalar SSint32),
     Field 24 ''y'' Plain (Scalar SSint32),
     Field 34 ''modifiers'' Packed (Scalar SInt32)]"

definition KeyEvent_fields :: schema where
  "KeyEvent_fields =
    [Field 8 ''down'' Plain (Scalar SBool),
     Field 16 ''press'' Plain (Scalar SBool),
     Field 24 ''control_key'' Optional (Scalar SInt32),
     Field 32 ''chr'' Optional (Scalar SUint32),
     Field 40 ''unicode'' Optional (Scalar SUint32),
     Field 50 ''seq'' Optional (Scalar SString),
     Field 66 ''modifiers'' Packed (Scalar SInt32)]"

definition CursorData_fields :: schema where
  "CursorData_fields =
    [Field 8 ''id'' Plain (Scalar SUint64),
     Field 16 ''hotx'' Plain (Scalar SSint32),
     Field 24 ''hoty'' Plain (Scalar SSint32),
     Field 32 ''width'' Plain (Scalar SInt32),
     Field 40 ''height'' Plain (Scalar SInt32),
     Field 50 ''colors'' Plain (Scalar SBytes)]"

definition CursorPosition_fields :: schema where
  "CursorPosition_fields =
    [Field 8 ''x'' Plain (Scalar SSint32),
     Field 16 ''y'' Plain (Scalar SSint32)]"

definition Hash_fields :: schema where
  "Hash_fields =
    [Field 10 ''salt'' Plain (Scalar SString),
     Field 18 ''challenge'' Plain (Scalar SString)]"

definition Clipboard_fields :: schema where
  "Clipboard_fields =
    [Field 8 ''compress'' Plain (Scalar SBool),
     Field 18 ''content'' Plain (Scalar SBytes)]"

definition FileEntry_fields :: schema where
  "FileEntry_fields =
    [Field 8 ''entry_type'' Plain (Scalar SInt32),
     Field 18 ''name'' Plain (Scalar SString),
     Field 24 ''is_hidden'' Plain (Scalar SBool),
     Field 32 ''size'' Plain (Scalar SUint64),
     Field 40 ''modified_time'' Plain (Scalar SUint64)]"

definition FileDirectory_fields :: schema where
  "FileDirectory_fields =
    [Field 8 ''id'' Plain (Scalar SInt32),
     Field 18 ''path'' Plain (Scalar SString),
     Field 26 ''entries'' Repeated (Sub FileEntry_fields)]"

definition ReadDir_fields :: schema where
  "ReadDir_fields =
    [Field 10 ''path'' Plain (Scalar SString),
     Field 16 ''include_hidden'' Plain (Scalar SBool)]"

definition ReadAllFiles_fields :: schema where
  "ReadAllFiles_fields =
    [Field 8 ''id'' Plain (Scalar SInt32),
     Field 18 ''path'' Plain (Scalar SString),
     Field 24 ''include_hidden'' Plain (Scalar SBool)]"

definition FileTransferSendRequest_fields :: schema where
  "FileTransferSendRequest_fields =
    [Field 8 ''id'' Plain (Scalar SInt32),
     Field 18 ''path'' Plain (Scalar SString),
     Field 24 ''include_hidden'' Plain (Scalar SBool),
     Field 32 ''file_num'' Plain (Scalar SInt32)]"

definition FileTransferReceiveRequest_fields :: schema where
  "FileTransferReceiveRequest_fields =
    [Field 8 ''id'' Plain (Scalar SInt32),
     Field 18 ''path'' Plain (Scalar SString),
     Field 26 ''files'' Repeated (Sub FileEntry_fields),
     Field 32 ''file_num'' Plain (Scalar SInt32)]"

definition FileDirCreate_fields :: schema where
  "FileDirCreate_fields =
    [Field 8 ''id'' Plain (Scalar SInt32),
     Field 18 ''path'' Plain (Scalar SString)]"

definition FileRemoveDir_fields :: schema where
  "FileRemoveDir_fields =
    [Field 8 ''id'' Plain (Scalar SInt32),
     Field 18 ''path'' Plain (Scalar SString),
     Field 24 ''recursive'' Plain (Scalar SBool)]"

definition FileRemoveFile_fields :: schema where
  "FileRemoveFile_fields =
    [Field 8 ''id'' Plain (Scalar SInt32),
     Field 18 ''path'' Plain (Scalar SString),
     Field 24 ''file_num'' Plain (Scalar SSint32)]"

definition FileTransferCancel_fields :: schema where
  "FileTransferCancel_fields =
    [Field 8 ''id'' Plain (Scalar SInt32)]"

definition FileTransferSendConfirmRequest_fields :: schema where
  "FileTransferSendConfirmRequest_fields =
    [Field 8 ''id'' Plain (Scalar SInt32),
     Field 16 ''file_num'' Plain (Scalar SSint32),
     Field 24 ''skip'' Optional (Scalar SBool),
     Field 32 ''offset_blk'' Optional (Scalar SUint32)]"

definition FileAction_fields :: schema where
  "FileAction_fields =
    [Field 10 ''read_dir'' Optional (Sub ReadDir_fields),
     Field 18 ''send'' Optional (Sub FileTransferSendRequest_fields),
     Field 26 ''receive'' Optional (Sub FileTransferReceiveRequest_fields),
     Field 34 ''create'' Optional (Sub FileDirCreate_fields),
     Field 42 ''remove_dir'' Optional (Sub FileRemoveDir_fields),
     Field 50 ''remove_file'' Optional (Sub FileRemoveFile_fields),
     Field 58 ''all_files'' Optional (Sub ReadAllFiles_fields),
     Field 66 ''cancel'' Optional (Sub FileTransferCancel_fields),
     Field 74 ''send_confirm'' Optional (Sub FileTransferSendConfirmRequest_fields)]"

definition FileTransferBlock_fields :: schema where
  "FileTransferBlock_fields =
    [Field 8 ''id'' Plain (Scalar SInt32),
     Field 16 ''file_num'' Plain (Scalar SSint32),
     Field 26 ''data'' Plain (Scalar SBytes),
     Field 32 ''compressed'' Plain (Scalar SBool),
     Field 40 ''blk_id'' Plain (Scalar SUint32)]"

definition FileTransferError_fields :: schema where
  "FileTransferError_fields =
    [Field 8 ''id'' Plain (Scalar SInt32),
     Field 18 ''error'' Plain (Scalar SString),
     Field 24 ''file_num'' Plain (Scalar SSint32)]"

definition FileTransferDone_fields :: schema where
  "FileTransferDone_fields =
    [Field 8 ''id'' Plain (Scalar SInt32),
     Field 16 ''file_num'' Plain (Scalar SSint32)]"

definition FileTransferDigest_fields :: schema where
  "FileTransferDigest_fields =
    [Field 8 ''id'' Plain (Scalar SInt32),
     Field 16 ''file_num'' Plain (Scalar SSint32),
     Field 24 ''last_modified'' Plain (Scalar SUint64),
     Field 32 ''file_size'' Plain (Scalar SUint64),
     Field 40 ''is_upload'' Plain (Scalar SBool)]"

definition FileResponse_fields :: schema where
  "FileResponse_fields =
    [Field 10 ''dir'' Optional (Sub FileDirectory_fields),
     Field 18 ''block'' Optional (Sub FileTransferBlock_fields),
     Field 26 ''error'' Optional (Sub FileTransferError_fields),
     Field 34 ''done'' Optional (Sub FileTransferDone_fields),
     Field 42 ''digest'' Optional (Sub FileTransferDigest_fields)]"

definition CliprdrMonitorReady_fields :: schema where
  "CliprdrMonitorReady_fields =
    [Field 8 ''conn_id'' Plain (Scalar SInt32)]"

definition CliprdrFormat_fields :: schema where
  "CliprdrFormat_fields =
    [Field 8 ''conn_id'' Plain (Scalar SInt32),
     Field 16 ''id'' Plain (Scalar SInt32),
     Field 26 ''format'' Plain (Scalar SString)]"

definition CliprdrServerFormatList_fields :: schema where
  "CliprdrServerFormatList_fields =
    [Field 8 ''conn_id'' Plain (Scalar SInt32),
     Field 18 ''formats'' Repeated (Sub CliprdrFormat_fields)]"

definition CliprdrServerFormatListResponse_fields :: schema where
  "CliprdrServerFormatListResponse_fields =
    [Field 8 ''conn_id'' Plain (Scalar SInt32),
     Field 16 ''msg_flags'' Plain (Scalar SInt32)]"

definition CliprdrServerFormatDataRequest_fields :: schema where
  "CliprdrServerFormatDataRequest_fields =
    [Field 8 ''conn_id'' Plain (Scalar SInt32),
     Field 16 ''requested_format_id'' Plain (Scalar SInt32)]"

definition CliprdrServerFormatDataResponse_fields :: schema where
  "CliprdrServerFormatDataResponse_fields =
    [Field 8 ''conn_id'' Plain (Scalar SInt32),
     Field 16 ''msg_flags'' Plain (Scalar SInt32),
     Field 26 ''format_data'' Plain (Scalar SBytes)]"

definition CliprdrFileContentsRequest_fields :: schema where
  "CliprdrFileContentsRequest_fields =
    [Field 8 ''conn_id'' Plain (Scalar SInt32),
     Field 16 ''stream_id'' Plain (Scalar SInt32),
     Field 24 ''list_index'' Plain (Scalar SInt32),
     Field 32 ''dw_flags'' Plain (Scalar SInt32),
     Field 40 ''n_position_low'' Plain (Scalar SInt32),
     Field 48 ''n_position_high'' Plain (Scalar SInt32),
     Field 56 ''cb_requested'' Plain (Scalar SInt32),
     Field 64 ''have_clip_data_id'' Plain (Scalar SBool),
     Field 72 ''clip_data_id'' Plain (Scalar SInt32)]"

definition CliprdrFileContentsResponse_fields :: schema where
  "CliprdrFileContentsResponse_fields =
    [Field 8 ''conn_id'' Plain (Scalar SInt32),
     Field 24 ''msg_flags'' Plain (Scalar SInt32),
     Field 32 ''stream_id'' Plain (Scalar SInt32),
     Field 42 ''requested_data'' Plain (Scalar SBytes)]"

definition Cliprdr_fields :: schema where
  "Cliprdr_fields =
    [Field 10 ''ready'' Optional (Sub CliprdrMonitorReady_fields),
     Field 18 ''format_list'' Optional (Sub CliprdrServerFormatList_fields),
     Field 26 ''format_list_response'' Optional (Sub CliprdrServerFormatListResponse_fields),
     Field 34 ''format_data_request'' Optional (Sub CliprdrServerFormatDataRequest_fields),
     Field 42 ''format_data_response'' Optional (Sub CliprdrServerFormatDataResponse_fields),
     Field 50 ''file_contents_request'' Optional (Sub CliprdrFileContentsRequest_fields),
     Field 58 ''file_contents_response'' Optional (Sub CliprdrFileContentsResponse_fields)]"

definition SwitchDisplay_fields :: schema where
  "SwitchDisplay_fields =
    [Field 8 ''display'' Plain (Scalar SInt32),
     Field 16 ''x'' Plain (Scalar SSint32),
     Field 24 ''y'' Plain (Scalar SSint32),
     Field 32 ''width'' Plain (Scalar SInt32),
     Field 40 ''height'' Plain (Scalar SInt32)]"

definition PermissionInfo_fields :: schema where
  "PermissionInfo_fields =
    [Field 8 ''permission'' Plain (Scalar SInt32),
     Field 16 ''enabled'' Plain (Scalar SBool)]"

definition TestDelay_fields :: schema where
  "TestDelay_fields =
    [Field 8 ''time'' Plain (Scalar SInt64),
     Field 16 ''from_client'' Plain (Scalar SBool)]"

definition PublicKey_fields :: schema where
  "PublicKey_fields =
    [Field 10 ''asymmetric_value'' Plain (Scalar SBytes),
     Field 18 ''symmetric_value'' Plain (Scalar SBytes)]"

definition SignedId_fields :: schema where
  "SignedId_fields =
    [Field 10 ''id'' Plain (Scalar SBytes)]"

definition AudioFormat_fields :: schema where
  "AudioFormat_fields =
    [Field 8 ''sample_rate'' Plain (Scalar SUint32),
     Field 16 ''channels'' Plain (Scalar SUint32)]"

definition AudioFrame_fields :: schema where
  "AudioFrame_fields =
    [Field 10 ''data'' Plain (Scalar SBytes),
     Field 16 ''timestamp'' Plain (Scalar SInt64)]"

definition BackNotification_fields :: schema where
  "BackNotification_fields =
    [Field 8 ''privacy_mode_state'' Optional (Scalar SInt32),
     Field 16 ''block_input_state'' Optional (Scalar SInt32)]"

definition Misc_fields :: schema where
  "Misc_fields =
    [Field 34 ''chat_message'' Optional (Sub ChatMessage_fields),
     Field 42 ''switch_display'' Optional (Sub SwitchDisplay_fields),
     Field 50 ''permission_info'' Optional (Sub PermissionInfo_fields),
     Field 58 ''option'' Optional (Sub OptionMessage_fields),
     Field 66 ''audio_format'' Optional (Sub AudioFormat_fields),
     Field 74 ''close_reason'' Optional (Scalar SString),
     Field 80 ''refresh_video'' Optional (Scalar SBool),
     Field 96 ''video_received'' Optional (Scalar SBool),
     Field 106 ''back_notification'' Optional (Sub BackNotification_fields)]"

definition Message_fields :: schema where
  "Message_fields =
    [Field 26 ''signed_id'' Optional (Sub SignedId_fields),
     Field 34 ''public_key'' Optional (Sub PublicKey_fields),
     Field 42 ''test_delay'' Optional (Sub TestDelay_fields),
     Field 50 ''video_frame'' Optional (Sub VideoFrame_fields),
     Field 58 ''login_request'' Optional (Sub LoginRequest_fields),
     Field 66 ''login_response'' Optional (Sub LoginResponse_fields),
     Field 74 ''hash'' Optional (Sub Hash_fields),
     Field 82 ''mouse_event'' Optional (Sub MouseEvent_fields),
     Field 90 ''audio_frame'' Optional (Sub AudioFrame_fields),
     Field 98 ''cursor_data'' Optional (Sub CursorData_fields),
     Field 106 ''cursor_position'' Optional (Sub CursorPosition_fields),
     Field 112 ''cursor_id'' Optional (Scalar SUint64),
     Field 122 ''key_event'' Optional (Sub KeyEvent_fields),
     Field 130 ''clipboard'' Optional (Sub Clipboard_fields),
     Field 138 ''file_action'' Optional (Sub FileAction_fields),
     Field 146 ''file_response'' Optional (Sub FileResponse_fields),
     Field 154 ''misc'' Optional (Sub Misc_fields),
     Field 162 ''cliprdr'' Optional (Sub Cliprdr_fields)]"

text \<open>The tables are well-formed, those of embedded messages as parts of the ones that embed them.\<close>

lemmas message_tables =
  VP9_fields_def VP9s_fields_def RGB_fields_def YUV_fields_def VideoFrame_fields_def IdPk_fields_def DisplayInfo_fields_def PortForward_fields_def FileTransfer_fields_def OptionMessage_fields_def LoginRequest_fields_def ChatMessage_fields_def Features_fields_def PeerInfo_fields_def LoginResponse_fields_def MouseEvent_fields_def KeyEvent_fields_def CursorData_fields_def CursorPosition_fields_def Hash_fields_def Clipboard_fields_def FileEntry_fields_def FileDirectory_fields_def ReadDir_fields_def ReadAllFiles_fields_def FileTransferSendRequest_fields_def FileTransferReceiveRequest_fields_def FileDirCreate_fields_def FileRemoveDir_fields_def FileRemoveFile_fields_def FileTransferCancel_fields_def FileTransferSendConfirmRequest_fields_def FileAction_fields_def FileTransferBlock_fields_def FileTransferError_fields_def FileTransferDone_fields_def FileTransferDigest_fields_def FileResponse_fields_def CliprdrMonitorReady_fields_def CliprdrFormat_fields_def CliprdrServerFormatList_fields_def CliprdrServerFormatListResponse_fields_def CliprdrServerFormatDataRequest_fields_def CliprdrServerFormatDataResponse_fields_def CliprdrFileContentsRequest_fields_def CliprdrFileContentsResponse_fields_def Cliprdr_fields_def SwitchDisplay_fields_def PermissionInfo_fields_def TestDelay_fields_def PublicKey_fields_def SignedId_fields_def AudioFormat_fields_def AudioFrame_fields_def BackNotification_fields_def Misc_fields_def Message_fields_def

lemma message_wf: "wf IdPk_fields" "wf Message_fields"
  by (simp_all add: message_tables number_def)

end
