(* ===== verification/RendezvousMessages.thy ===== *)
theory RendezvousMessages
  imports Messages
begin

text \<open>
  The messages between a client and the rendezvous server: the tables of
  \<open>api/resources/web/js/src/rendezvous.ts\<close>, read as those of the theory Messages.
\<close>

definition RegisterPeer_fields :: schema where
  "RegisterPeer_fields =
    [Field 10 ''id'' Plain (Scalar SString),
     Field 16 ''serial'' Plain (Scalar SInt32)]"

definition RegisterPeerResponse_fields :: schema where
  "RegisterPeerResponse_fields =
    [Field 16 ''request_pk'' Plain (Scalar SBool)]"

definition PunchHoleRequest_fields :: schema where
  "PunchHoleRequest_fields =
    [Field 10 ''id'' Plain (Scalar SString),
     Field 16 ''nat_type'' Plain (Scalar SInt32),
     Field 26 ''licence_key'' Plain (Scalar SString),
     Field 32 ''conn_type'' Plain (Scalar SInt32),
     Field 42 ''token'' Plain (Scalar SString)]"

definition PunchHole_fields :: schema where
  "PunchHole_fields =
    [Field 10 ''socket_addr'' Plain (Scalar SBytes),
     Field 18 ''relay_server'' Plain (Scalar SString),
     Field 24 ''nat_type'' Plain (Scalar SInt32)]"

definition TestNatRequest_fields :: schema where
  "TestNatRequest_fields =
    [Field 8 ''serial'' Plain (Scalar SInt32)]"

definition ConfigUpdate_fields :: schema where
  "ConfigUpdate_fields =
    [Field 8 ''serial'' Plain (Scalar SInt32),
     Field 18 ''rendezvous_servers'' Repeated (Scalar SString)]"

definition TestNatResponse_fields :: schema where
  "TestNatResponse_fields =
    [Field 8 ''port'' Plain (Scalar SInt32),
     Field 18 ''cu'' Optional (Sub ConfigUpdate_fields)]"

definition PunchHoleSent_fields :: schema where
  "PunchHoleSent_fields =
    [Field 10 ''socket_addr'' Plain (Scalar SBytes),
     Field 18 ''id'' Plain (Scalar SString),
     Field 26 ''relay_server'' Plain (Scalar SString),
     Field 32 ''nat_type'' Plain (Scalar SInt32),
     Field 42 ''version'' Plain (Scalar SString)]"

definition RegisterPk_fields :: schema where
  "RegisterPk_fields =
    [Field 10 ''id'' Plain (Scalar SString),
     Field 18 ''uuid'' Plain (Scalar SBytes),
     Field 26 ''pk'' Plain (Scalar SBytes),
     Field 34 ''old_id'' Plain (Scalar SString)]"

definition RegisterPkResponse_fields :: schema where
  "RegisterPkResponse_fields =
    [Field 8 ''result'' Plain (Scalar SInt32)]"

definition PunchHoleResponse_fields :: schema where
  "PunchHoleResponse_fields =
    [Field 10 ''socket_addr'' Plain (Scalar SBytes),
     Field 18 ''pk'' Plain (Scalar SBytes),
     Field 24 ''failure'' Plain (Scalar SInt32),
     Field 34 ''relay_server'' Plain (Scalar SString),
     Field 40 ''nat_type'' Optional (Scalar SInt32),
     Field 48 ''is_local'' Optional (Scalar SBool),
     Field 58 ''other_failure'' Plain (Scalar SString)]"

definition RequestRelay_fields :: schema where
  "RequestRelay_fields =
    [Field 10 ''id'' Plain (Scalar SString),
     Field 18 ''uuid'' Plain (Scalar SString),
     Field 26 ''socket_addr'' Plain (Scalar SBytes),
     Field 34 ''relay_server'' Plain (Scalar SString),
     Field 40 ''secure'' Plain (Scalar SBool),
     Field 50 ''licence_key'' Plain (Scalar SString),
     Field 56 ''conn_type'' Plain (Scalar SInt32),
     Field 66 ''token'' Plain (Scalar SString)]"

definition RelayResponse_fields :: schema where
  "RelayResponse_fields =
    [Field 10 ''socket_addr'' Plain (Scalar SBytes),
     Field 18 ''uuid'' Plain (Scalar SString),
     Field 26 ''relay_server'' Plain (Scalar SString),
     Field 34 ''id'' Optional (Scalar SString),
     Field 42 ''pk'' Optional (Scalar SBytes),
     Field 50 ''refuse_reason'' Plain (Scalar SString),
     Field 58 ''version'' Plain (Scalar SString)]"

definition SoftwareUpdate_fields :: schema where
  "SoftwareUpdate_fields =
    [Field 10 ''url'' Plain (Scalar SString)]"

definition FetchLocalAddr_fields :: schema where
  "FetchLocalAddr_fields =
    [Field 10 ''socket_addr'' Plain (Scalar SBytes),
     Field 18 ''relay_server'' Plain (Scalar SString)]"

definition LocalAddr_fields :: schema where
  "LocalAddr_fields =
    [Field 10 ''socket_addr'' Plain (Scalar SBytes),
     Field 18 ''local_addr'' Plain (Scalar SBytes),
     Field 26 ''relay_server'' Plain (Scalar SString),
     Field 34 ''id'' Plain (Scalar SString),
     Field 42 ''version'' Plain (Scalar SString)]"

definition PeerDiscovery_fields :: schema where
  "PeerDiscovery_fields =
    [Field 10 ''cmd'' Plain (Scalar SString),
     Field 18 ''mac'' Plain (Scalar SString),
     Field 26 ''id'' Plain (Scalar SString),
     Field 34 ''username'' Plain (Scalar SString),
     Field 42 ''hostname'' Plain (Scalar SString),
     Field 50 ''platform'' Plain (Scalar SString),
     Field 58 ''misc'' Plain (Scalar SString)]"

definition RendezvousMessage_fields :: schema where
  "RendezvousMessage_fields =
    [Field 50 ''register_peer'' Optional (Sub RegisterPeer_fields),
     Field 58 ''register_peer_response'' Optional (Sub RegisterPeerResponse_fields),
     Field 66 ''punch_hole_request'' Optional (Sub PunchHoleRequest_fields),
     Field 74 ''punch_hole'' Optional (Sub PunchHole_fields),
     Field 82 ''punch_hole_sent'' Optional (Sub PunchHoleSent_fields),
     Field 90 ''punch_hole_response'' Optional (Sub PunchHoleResponse_fields),
     Field 98 ''fetch_local_addr'' Optional (Sub FetchLocalAddr_fields),
     Field 106 ''local_addr'' Optional (Sub LocalAddr_fields),
     Field 114 ''configure_update'' Optional (Sub ConfigUpdate_fields),
     Field 122 ''register_pk'' Optional (Sub RegisterPk_fields),
     Field 130 ''register_pk_response'' Optional (Sub RegisterPkResponse_fields),
     Field 138 ''software_update'' Optional (Sub SoftwareUpdate_fields),
     Field 146 ''request_relay'' Optional (Sub RequestRelay_fields),
     Field 154 ''relay_response'' Optional (Sub RelayResponse_fields),
     Field 162 ''test_nat_request'' Optional (Sub TestNatRequest_fields),
     Field 170 ''test_nat_response'' Optional (Sub TestNatResponse_fields),
     Field 178 ''peer_discovery'' Optional (Sub PeerDiscovery_fields)]"

text \<open>The tables are well-formed, those of embedded messages as parts of the ones that embed them.\<close>

lemmas rendezvous_tables =
  RegisterPeer_fields_def RegisterPeerResponse_fields_def PunchHoleRequest_fields_def PunchHole_fields_def TestNatRequest_fields_def ConfigUpdate_fields_def TestNatResponse_fields_def PunchHoleSent_fields_def RegisterPk_fields_def RegisterPkResponse_fields_def PunchHoleResponse_fields_def RequestRelay_fields_def RelayResponse_fields_def SoftwareUpdate_fields_def FetchLocalAddr_fields_def LocalAddr_fields_def PeerDiscovery_fields_def RendezvousMessage_fields_def

lemma rendezvous_wf: "wf RendezvousMessage_fields"
  by (simp_all add: rendezvous_tables number_def)

end
