(* ===== verification/Codec.thy ===== *)
theory Codec
  imports Websock RendezvousMessages
begin

text \<open>
  The codec the browser client really uses, in place of the parameters of the environment: the objects
  the code passes to \<open>sendMessage\<close> and \<open>sendRendezvous\<close>, and what it reads off a decoded message, through
  the tables of the theories Messages and RendezvousMessages.

  Texts are of characters below 256, as elsewhere in this development. At most one member of the union
  of a message is set, as its sender promises. A number the page passes that is no integer is outside.
\<close>

subsection \<open>What the client passes\<close>

definition text_val :: "string \<Rightarrow> val" where
  "text_val s = VStr (map of_char s)"

definition flag :: "string \<Rightarrow> string \<times> val" where
  "flag n = (n, VBool True)"

fun option_number :: "bool_option \<Rightarrow> int" where
  "option_number NotSet = 0"
| "option_number No = 1"
| "option_number Yes = 2"

fun quality_number :: "image_quality \<Rightarrow> int" where
  "quality_number QualityNotSet = 0"
| "quality_number Low = 2"
| "quality_number Balanced = 3"
| "quality_number Best = 4"

definition option_json :: "option_message \<Rightarrow> msg" where
  "option_json om = fromPartial OptionMessage_fields
     [(''image_quality'', VNum (quality_number (om_image_quality om))),
      (''lock_after_session_end'', VNum (option_number (om_lock_after_session_end om))),
      (''show_remote_cursor'', VNum (option_number (om_show_remote_cursor om))),
      (''privacy_mode'', VNum (option_number (om_privacy_mode om))),
      (''block_input'', VNum (option_number (om_block_input om))),
      (''disable_audio'', VNum (option_number (om_disable_audio om))),
      (''disable_clipboard'', VNum (option_number (om_disable_clipboard om)))]"

fun key_json :: "key_union \<Rightarrow> msg" where
  "key_json NoKey = []"
| "key_json (ControlKey k) = [(''control_key'', VNum k)]"
| "key_json (Chr c) = [(''chr'', VNum (int c))]"
| "key_json (Unicode c) = [(''unicode'', VNum (int c))]"
| "key_json (Seq s) = [(''seq'', text_val s)]"

definition numbers :: "int list \<Rightarrow> val" where
  "numbers is = VList (map VNum is)"

definition coordinate :: "int option \<Rightarrow> val" where
  "coordinate x = (case x of Some i \<Rightarrow> VNum i | None \<Rightarrow> VUndef)"

definition misc_json :: "msg \<Rightarrow> msg" where
  "misc_json m = [(''misc'', VMsg (fromPartial Misc_fields m))]"

fun json_of :: "outmsg \<Rightarrow> msg" where
  "json_of (PublicKey box sealed) =
     [(''public_key'', VMsg (fromPartial PublicKey_fields [(''asymmetric_value'', VBytes box), (''symmetric_value'', VBytes sealed)]))]"
| "json_of (TestDelayOut t from_client) =
     [(''test_delay'', VMsg [(''time'', VNum t), (''from_client'', VBool from_client)])]"
| "json_of (LoginRequest username my_id my_name password opts ack) =
     [(''login_request'', VMsg (fromPartial LoginRequest_fields
        [(''username'', text_val username), (''my_id'', text_val my_id), (''my_name'', text_val my_name),
         (''password'', VBytes password),
         (''option'', case opts of None \<Rightarrow> VUndef | Some om \<Rightarrow> VMsg (option_json om)),
         (''video_ack_required'', VBool ack)]))]"
| "json_of RefreshVideo = misc_json [flag ''refresh_video'']"
| "json_of VideoReceived = misc_json [flag ''video_received'']"
| "json_of (OptionOut om) = misc_json [(''option'', VMsg (option_json om))]"
| "json_of (SwitchDisplayOut d) =
     misc_json [(''switch_display'',
       VMsg (fromPartial SwitchDisplay_fields [(''display'', case d of JNum i \<Rightarrow> VNum i | _ \<Rightarrow> VUndef)]))]"
| "json_of (KeyOut k) =
     [(''key_event'', VMsg (fromPartial KeyEvent_fields
        ([(''down'', VBool (down k)), (''press'', VBool (press k)), (''modifiers'', numbers (modifier_keys k))] @ key_json (key_is k))))]"
| "json_of (MouseOut bs x y mods) =
     [(''mouse_event'', VMsg (fromPartial MouseEvent_fields
        [(''mask'', VNum (int bs)), (''x'', coordinate x), (''y'', coordinate y), (''modifiers'', numbers mods)]))]"

fun rdv_json :: "rdv_out \<Rightarrow> msg" where
  "rdv_json (PunchHoleRequest i key conn_type nat_type token) =
     [(''punch_hole_request'', VMsg (fromPartial PunchHoleRequest_fields
        [(''id'', text_val i), (''licence_key'', text_val key), (''conn_type'', VNum conn_type),
         (''nat_type'', VNum nat_type), (''token'', text_val token)]))]"
| "rdv_json (RequestRelay key uuid) =
     [(''request_relay'', VMsg (fromPartial RequestRelay_fields [(''licence_key'', text_val key), (''uuid'', text_val uuid)]))]"

subsection \<open>What the client reads\<close>

fun text_of :: "val \<Rightarrow> string" where
  "text_of (VStr u) = map char_of u"
| "text_of _ = []"

fun num_of :: "val \<Rightarrow> int" where
  "num_of (VNum i) = i"
| "num_of _ = 0"

fun bool_of :: "val \<Rightarrow> bool" where
  "bool_of (VBool b) = b"
| "bool_of _ = False"

fun bytes_of :: "val \<Rightarrow> bytes" where
  "bytes_of (VBytes b) = b"
| "bytes_of _ = []"

text \<open>A message that is kept or shown as it is: these hold no bytes.\<close>

fun js_of :: "val \<Rightarrow> jsval" where
  "js_of (VBool b) = JBool b"
| "js_of (VNum i) = JNum i"
| "js_of (VStr u) = JStr (map char_of u)"
| "js_of (VMsg m) = JObj (map (\<lambda>(n, v). (n, js_of v)) m)"
| "js_of (VList vs) = JArr (map js_of vs)"
| "js_of _ = JUndef"

definition obj_of :: "msg \<Rightarrow> obj" where
  "obj_of m = map (\<lambda>(n, v). (n, js_of v)) m"

text \<open>\<open>v ? ... : ...\<close> for a member of a union.\<close>

definition given :: "msg \<Rightarrow> string \<Rightarrow> msg option" where
  "given m n = (case get_prop m n of VMsg x \<Rightarrow> Some x | _ \<Rightarrow> None)"

definition read_cursor :: "msg \<Rightarrow> cursor" where
  "read_cursor m =
     \<lparr>cd_id = num_of (get_prop m ''id''), cd_hotx = num_of (get_prop m ''hotx''), cd_hoty = num_of (get_prop m ''hoty''),
      cd_width = num_of (get_prop m ''width''), cd_height = num_of (get_prop m ''height''),
      cd_colors = bytes_of (get_prop m ''colors'')\<rparr>"

text \<open>The order of \<open>handleMisc\<close>.\<close>

definition read_misc :: "msg \<Rightarrow> misc_in" where
  "read_misc m =
     (case given m ''audio_format'' of
        Some a \<Rightarrow> AudioFormat (num_of (get_prop a ''channels'')) (num_of (get_prop a ''sample_rate''))
      | None \<Rightarrow>
     (case given m ''chat_message'' of
        Some a \<Rightarrow> ChatMessage (text_of (get_prop a ''text''))
      | None \<Rightarrow>
     (case given m ''permission_info'' of
        Some a \<Rightarrow> PermissionInfo (num_of (get_prop a ''permission'')) (bool_of (get_prop a ''enabled''))
      | None \<Rightarrow>
     (case given m ''switch_display'' of
        Some a \<Rightarrow> SwitchDisplayIn (obj_of a)
      | None \<Rightarrow>
     (if text_of (get_prop m ''close_reason'') \<noteq> [] then CloseReason (text_of (get_prop m ''close_reason'')) else OtherMisc)))))"

definition read_login :: "msg \<Rightarrow> inmsg" where
  "read_login m =
     LoginResponse
       (case get_prop m ''error'' of VStr u \<Rightarrow> Some (map char_of u) | _ \<Rightarrow> None)
       (map_option obj_of (given m ''peer_info''))"

definition read_frames :: "msg \<Rightarrow> bytes list option" where
  "read_frames m =
     map_option (\<lambda>v. map (\<lambda>f. bytes_of (get_prop (as_msg f) ''data'')) (elements (get_prop v ''frames''))) (given m ''vp9s'')"

text \<open>
  The order of \<open>msgLoop\<close>, before it the message that \<open>secure\<close> waits for. A \<open>cursor_id\<close> of zero is passed over.
\<close>

definition read_message :: "msg \<Rightarrow> inmsg" where
  "read_message m =
     (case given m ''signed_id'' of
        Some a \<Rightarrow> SignedId (bytes_of (get_prop a ''id''))
      | None \<Rightarrow>
     (case given m ''hash'' of
        Some a \<Rightarrow> HashIn (text_of (get_prop a ''salt'')) (text_of (get_prop a ''challenge''))
      | None \<Rightarrow>
     (case given m ''test_delay'' of
        Some a \<Rightarrow> TestDelayIn (num_of (get_prop a ''time'')) (bool_of (get_prop a ''from_client''))
      | None \<Rightarrow>
     (case given m ''login_response'' of
        Some a \<Rightarrow> read_login a
      | None \<Rightarrow>
     (case given m ''video_frame'' of
        Some a \<Rightarrow> VideoFrame (read_frames a)
      | None \<Rightarrow>
     (case given m ''clipboard'' of
        Some a \<Rightarrow> ClipboardIn (bool_of (get_prop a ''compress'')) (bytes_of (get_prop a ''content''))
      | None \<Rightarrow>
     (case given m ''cursor_data'' of
        Some a \<Rightarrow> CursorData (read_cursor a)
      | None \<Rightarrow>
     (if num_of (get_prop m ''cursor_id'') \<noteq> 0 then CursorId (num_of (get_prop m ''cursor_id''))
      else
     (case given m ''cursor_position'' of
        Some a \<Rightarrow> CursorPosition (obj_of a)
      | None \<Rightarrow>
     (case given m ''misc'' of
        Some a \<Rightarrow> MiscIn (read_misc a)
      | None \<Rightarrow>
     (case given m ''audio_frame'' of
        Some a \<Rightarrow> AudioFrame (bytes_of (get_prop a ''data''))
      | None \<Rightarrow> OtherMsg)))))))))))"

text \<open>What \<open>start\<close> reads off the answer of the rendezvous server.\<close>

definition read_rendezvous :: "msg \<Rightarrow> rdv_in" where
  "read_rendezvous m =
     (case given m ''punch_hole_response'' of
        Some a \<Rightarrow> PunchHoleResponse (text_of (get_prop a ''other_failure'')) (num_of (get_prop a ''failure''))
      | None \<Rightarrow>
     (case given m ''relay_response'' of
        Some a \<Rightarrow>
          RelayResponse
            \<lparr>rr_pk = (case get_prop a ''pk'' of VBytes b \<Rightarrow> Some b | _ \<Rightarrow> None),
             rr_server = text_of (get_prop a ''relay_server''), rr_uuid = text_of (get_prop a ''uuid''),
             rr_version = text_of (get_prop a ''version'')\<rparr>
      | None \<Rightarrow> OtherRendezvous))"

definition read_idpk :: "msg \<Rightarrow> string \<times> bytes" where
  "read_idpk m = (text_of (get_prop m ''id''), bytes_of (get_prop m ''pk''))"

text \<open>The environment with the codec in place; libsodium and the browser remain parameters.\<close>

definition coded :: "env \<Rightarrow> env" where
  "coded e = e
     \<lparr>msg_encode := \<lambda>m. enc Message_fields (fromPartial Message_fields (json_of m)),
      msg_decode := \<lambda>bs. map_option read_message (decode Message_fields bs),
      rdv_encode := \<lambda>m. enc RendezvousMessage_fields (fromPartial RendezvousMessage_fields (rdv_json m)),
      rdv_decode := \<lambda>bs. map_option read_rendezvous (decode RendezvousMessage_fields bs),
      idpk_decode := \<lambda>bs. map_option read_idpk (decode IdPk_fields bs)\<rparr>"

subsection \<open>What arrives\<close>

definition int32 :: "int \<Rightarrow> bool" where
  "int32 i \<longleftrightarrow> - (2 ^ 31) \<le> i \<and> i < 2 ^ 31"

text \<open>The numbers of a message are of the width of their fields.\<close>

fun fits :: "outmsg \<Rightarrow> bool" where
  "fits (TestDelayOut t _) = (- (2 ^ 53) \<le> t \<and> t < 2 ^ 53)"
| "fits (SwitchDisplayOut d) = (case d of JNum i \<Rightarrow> int32 i | _ \<Rightarrow> False)"
| "fits (KeyOut k) =
     (list_all int32 (modifier_keys k)
      \<and> (case key_is k of ControlKey c \<Rightarrow> int32 c | Chr c \<Rightarrow> c < 2 ^ 32 | Unicode c \<Rightarrow> c < 2 ^ 32 | _ \<Rightarrow> True))"
| "fits (MouseOut bs x y mods) = (int32 (int bs) \<and> list_all int32 mods \<and> (\<exists>i j. x = Some i \<and> y = Some j \<and> int32 i \<and> int32 j))"
| "fits _ = True"

definition short :: "outmsg \<Rightarrow> bool" where
  "short m \<longleftrightarrow> length (enc Message_fields (fromPartial Message_fields (json_of m))) < 2 ^ 32"

definition received :: "outmsg \<Rightarrow> inmsg" where
  "received m = read_message (fromPartial Message_fields (json_of m))"

lemma conf_text [simp]: "conf_scalar s (text_val t) = (s = SString)"
  by (auto simp: text_val_def list_all_iff intro: less_trans [OF nat_of_char_less_256])

lemma text_not_undef [simp]: "text_val t \<noteq> VUndef" "numbers is \<noteq> VUndef"
  by (simp_all add: text_val_def numbers_def)

lemma prop_Cons [simp]: "get_prop ((n, v) # m) k = (if k = n then v else get_prop m k)" "get_prop [] k = VUndef"
  by (simp_all add: get_prop_def)

lemma part_numbers: "is_list (numbers is) \<and> list_all (conf_scalar SInt32) (elements (numbers is)) = list_all int32 is"
  by (simp add: numbers_def list_all_iff int32_def)

lemma option_small [simp]: "- 2147483648 \<le> option_number b" "option_number b < 2147483648"
  by (cases b; simp)+

lemma quality_small [simp]: "- 2147483648 \<le> quality_number q" "quality_number q < 2147483648"
  by (cases q; simp)+

lemma part_option:
  "part_fields OptionMessage_fields (option_json om)"
  "part_fields OptionMessage_fields (fromPartial OptionMessage_fields (option_json om))"
  by (simp_all add: option_json_def OptionMessage_fields_def)

lemma part_key: "fits (KeyOut k) \<Longrightarrow> part_fields KeyEvent_fields (fromPartial KeyEvent_fields
    ([(''down'', VBool (down k)), (''press'', VBool (press k)), (''modifiers'', numbers (modifier_keys k))] @ key_json (key_is k)))"
  using part_numbers [of "modifier_keys k"]
  by (cases "key_is k") (simp_all add: KeyEvent_fields_def int32_def numbers_def list_all_iff)

lemma part_json: "fits m \<Longrightarrow> part_fields Message_fields (json_of m)"
proof -
  have one: "part_fields Message_fields [(n, v)]" if "\<forall>f \<in> set Message_fields. fname f = n \<longrightarrow> part_field f v" for n v
    using that by (simp add: part_fields_all Message_fields_def)
  have misc: "part_fields Message_fields (misc_json x)" if "part_fields Misc_fields (fromPartial Misc_fields x)" for x
    unfolding misc_json_def by (rule one) (simp add: Message_fields_def that)
  assume "fits m"
  then show ?thesis
  proof (cases m)
    case (PublicKey a b)
    then show ?thesis by (simp only: json_of.simps) (rule one, simp add: Message_fields_def PublicKey_fields_def)
  next
    case (TestDelayOut t b)
    then show ?thesis using \<open>fits m\<close> by (simp only: json_of.simps) (rule one, simp add: Message_fields_def TestDelay_fields_def)
  next
    case (LoginRequest a b c d op f)
    then show ?thesis
      by (cases op; simp only: json_of.simps)
        (rule one, simp add: Message_fields_def LoginRequest_fields_def part_option)+
  next
    case (KeyOut k)
    then show ?thesis using part_key [of k] \<open>fits m\<close> by (simp only: json_of.simps) (rule one, simp add: Message_fields_def)
  next
    case (MouseOut bs x y mods)
    then show ?thesis using \<open>fits m\<close> part_numbers [of mods]
      by (simp only: json_of.simps) (rule one, auto simp: Message_fields_def MouseEvent_fields_def coordinate_def int32_def numbers_def list_all_iff)
  next
    case (OptionOut om)
    then show ?thesis by (simp only: json_of.simps) (rule misc, simp add: Misc_fields_def part_option)
  next
    case (SwitchDisplayOut d)
    then show ?thesis using \<open>fits m\<close>
      by (cases d; simp only: json_of.simps) (simp_all, rule misc, simp add: Misc_fields_def SwitchDisplay_fields_def int32_def)
  next
    case RefreshVideo
    then show ?thesis by (simp only: json_of.simps) (rule misc, simp add: Misc_fields_def flag_def)
  next
    case VideoReceived
    then show ?thesis by (simp only: json_of.simps) (rule misc, simp add: Misc_fields_def flag_def)
  qed
qed

lemma fields_coded [simp]:
  "msg_encode (coded e) m = enc Message_fields (fromPartial Message_fields (json_of m))"
  "parse (coded e) False bs = map_option (Msg \<circ> read_message) (decode Message_fields bs)"
  "secretbox_easy (coded e) = secretbox_easy e" "secretbox_open_easy (coded e) = secretbox_open_easy e"
  by (simp_all add: coded_def parse_def option.map_comp)


definition clear_env :: env where
  "clear_env =
     \<lparr>msg_encode = (\<lambda>m. []), msg_decode = (\<lambda>b. None), rdv_encode = (\<lambda>m. []), rdv_decode = (\<lambda>b. None),
      idpk_decode = (\<lambda>b. None), secretbox_easy = (\<lambda>m n k. k @ n @ m),
      secretbox_open_easy = (\<lambda>c n k. if take (length (k @ n)) c = k @ n then Some (drop (length (k @ n)) c) else None),
      crypto_box_easy = (\<lambda>m n p k. None), crypto_sign_open = (\<lambda>m k. None), from_base64 = (\<lambda>t. None),
      sha256 = (\<lambda>b. b), zstd_decode = (\<lambda>b n. None), text_decode = (\<lambda>b. []), error_text = (\<lambda>x. [])\<rparr>"

lemma short_examples: "short (TestDelayOut 300 False)" "short RefreshVideo"
proof -
  have "length (enc Message_fields (fromPartial Message_fields (json_of (TestDelayOut 300 False)))) = 5"
    "length (enc Message_fields (fromPartial Message_fields (json_of RefreshVideo))) = 5"
    by code_simp+
  then show "short (TestDelayOut 300 False)" "short RefreshVideo" by (simp_all add: short_def)
qed

lemma received_examples: "received (TestDelayOut 300 False) = TestDelayIn 300 False" "received RefreshVideo = MiscIn OtherMisc"
  by code_simp+


end
