(* ===== verification/Peers.thy ===== *)
theory Peers
  imports AddressBook "HOL-Library.Multiset"
begin

text \<open>
  The device views: the administrator's (\<open>views/peer/index.vue\<close>) with its form, its paginated export,
  its import of a CSV file, its columns and the dialogs that put devices into an address book
  (\<open>views/peer/createABForm.vue\<close>), and the personal one (\<open>views/my/peer/index.vue\<close>).

  The server and the user are arguments: the page a call returned, the device of a row, the text of a
  file, the local rendering of a time.
\<close>

subsection \<open>State\<close>

record peers =
  pview :: view
  groupList :: list_res
  multipleSelection :: "obj list"
  ABFormVisible :: bool
  clickRow :: obj
  collectionsForBatch :: view
  batchABFormVisible :: bool
  batchABFormData :: obj
  columnSettingVisible :: bool
  visibleColumns :: "jsval list"
  stored_columns :: "string option"

definition peers_query :: obj where
  "peers_query =
     [(''page'', JNum 1), (''page_size'', JNum 10), (''time_ago'', JNull), (''id'', JStr ''''), (''hostname'', JStr ''''),
      (''username'', JStr ''''), (''ip'', JStr '''')]"

definition peers_form :: obj where
  "peers_form =
     [(''row_id'', JNum 0), (''group_id'', JNull), (''cpu'', JStr ''''), (''hostname'', JStr ''''), (''id'', JStr ''''),
      (''memory'', JStr ''''), (''os'', JStr ''''), (''username'', JStr ''''), (''uuid'', JStr ''''), (''version'', JStr '''')]"

definition batch_form :: obj where
  "batch_form = [(''collection_id'', JNum 0), (''tags'', JArr []), (''peer_ids'', JArr []), (''user_id'', JNull)]"

definition column :: "string \<Rightarrow> string \<Rightarrow> jsval" where
  "column name label' = JObj [(''name'', JStr name), (''visible'', JBool True), (''label'', JStr label')]"

definition allColumns :: "jsval list" where
  "allColumns =
     [column ''id'' ''Id'', column ''cpu'' ''Cpu'', column ''hostname'' ''Hostname'', column ''memory'' ''Memory'',
      column ''os'' ''Os'', column ''last_online_time'' ''LastOnlineTime'', column ''last_online_ip'' ''LastOnlineIp'',
      column ''username'' ''Username'', column ''group_id'' ''Group'', column ''uuid'' ''Uuid'',
      column ''version'' ''Version'', column ''alias'' ''Alias'', column ''created_at'' ''CreatedAt'',
      column ''updated_at'' ''UpdatedAt'']"

text \<open>\<open>JSON.parse(localStorage.getItem(...)) || allColumns.value\<close>; a text that is no list is outside.\<close>

definition columns_of :: "string option \<Rightarrow> jsval list" where
  "columns_of s =
     (case s of
        None \<Rightarrow> allColumns
      | Some t \<Rightarrow> (case JSON_parse t of Parsed (JArr cs) \<Rightarrow> cs | _ \<Rightarrow> allColumns))"

definition peers_init :: "string option \<Rightarrow> peers" where
  "peers_init s =
     \<lparr>pview = mk_view peers_query peers_form, groupList = empty_res, multipleSelection = [], ABFormVisible = False,
      clickRow = [], collectionsForBatch = big_collections, batchABFormVisible = False, batchABFormData = batch_form,
      columnSettingVisible = False, visibleColumns = columns_of s, stored_columns = s\<rparr>"

subsection \<open>List and form\<close>

definition peers_getList :: "page option \<Rightarrow> view \<Rightarrow> view" where
  "peers_getList res v = load peer_list Some res v"

definition peers_handlerQuery :: "page option \<Rightarrow> view \<Rightarrow> view" where
  "peers_handlerQuery res v = query_first_page (peers_getList res) v"

text \<open>\<open>getGroupList\<close>: the loading flag and the answer; the call is recorded with the others.\<close>

definition getGroupList :: "page option \<Rightarrow> peers \<Rightarrow> peers" where
  "getGroupList res p =
     p\<lparr>pview := call (device_group_list (JObj [(''page'', JNum 1), (''page_size'', JNum 999)])) (pview p),
       groupList := (case res of
                       None \<Rightarrow> (groupList p)\<lparr>loading := False\<rparr>
                     | Some pg \<Rightarrow> \<lparr>rows = page_list pg, total = page_total pg, loading = False\<rparr>)\<rparr>"

definition peers_del :: "obj \<Rightarrow> bool \<Rightarrow> bool \<Rightarrow> page option \<Rightarrow> view \<Rightarrow> view" where
  "peers_del row confirmed ok res v = delete_row (peer_remove (row_payload row)) (peers_getList res) confirmed ok v"

definition peers_toEdit :: "obj \<Rightarrow> view \<Rightarrow> view" where
  "peers_toEdit row v = v\<lparr>formVisible := True, formData := copy_keys (formData v) row\<rparr>"

definition peers_reset :: obj where
  "peers_reset =
     [(''row_id'', JNum 0), (''cpu'', JStr ''''), (''hostname'', JStr ''''), (''id'', JStr ''''), (''memory'', JStr ''''),
      (''os'', JStr ''''), (''username'', JStr ''''), (''uuid'', JStr ''''), (''version'', JStr '''')]"

definition peers_toAdd :: "view \<Rightarrow> view" where
  "peers_toAdd v = v\<lparr>formVisible := True, formData := spread (formData v) peers_reset\<rparr>"

definition peers_submit :: "bool \<Rightarrow> page option \<Rightarrow> view \<Rightarrow> view" where
  "peers_submit ok res v =
     (let api = (if truthy (get (formData v) ''row_id'') then peer_update else peer_create)
      in submit_form (api (JObj (formData v))) (peers_getList res) ok v)"

text \<open>
  \<open>isOnline(row)\<close>: last seen less than a minute ago. Times are in milliseconds, \<open>time\<close> in seconds; a
  missing time is infinitely long ago.
\<close>

definition isOnline :: "int \<Rightarrow> obj \<Rightarrow> bool" where
  "isOnline now row = (case get row ''last_online_time'' of JNum t \<Rightarrow> t \<noteq> 0 \<and> now - t * 1000 < 60000 | _ \<Rightarrow> False)"

subsection \<open>Export\<close>

definition PAGE_SIZE :: nat where "PAGE_SIZE = 1000"
definition MAX_ROWS :: nat where "MAX_ROWS = 100000"

text \<open>
  The pages are asked for until one is short. \<open>answers p\<close> is what the server gives for page \<open>p\<close>, \<open>None\<close>
  when the call fails or the answer has no list; the result is the rows, the pages asked for and
  whether one failed.
\<close>

function export_loop :: "(nat \<Rightarrow> obj list option) \<Rightarrow> nat \<Rightarrow> obj list \<Rightarrow> obj list \<times> nat list \<times> bool" where
  "export_loop answers p all =
     (if MAX_ROWS \<le> length all then (all, [], False)
      else
        (case answers p of
           None \<Rightarrow> (all, [p], True)
         | Some xs \<Rightarrow>
             if length xs < PAGE_SIZE then (all @ xs, [p], False)
             else (let (all', ps, failed) = export_loop answers (p + 1) (all @ xs) in (all', p # ps, failed))))"
  by pat_completeness auto
termination
  by (relation "measure (\<lambda>(_, _, all). MAX_ROWS - length all)") (auto simp: PAGE_SIZE_def)

declare export_loop.simps [simp del]

definition export_page_query :: "obj \<Rightarrow> nat \<Rightarrow> obj" where
  "export_page_query q p = put (put q ''page_size'' (JNum (int PAGE_SIZE))) ''page'' (JNum (int p))"

definition delete_key :: "string \<Rightarrow> obj \<Rightarrow> obj" where
  "delete_key k o' = filter (\<lambda>p. fst p \<noteq> k) o'"

definition export_item :: "(jsval \<Rightarrow> string) \<Rightarrow> obj \<Rightarrow> obj" where
  "export_item locale item =
     (let t = get item ''last_online_time''
      in delete_key ''user'' (delete_key ''user_id'' (put item ''last_online_time'' (JStr (if truthy t then locale t else ''-'')))))"

definition peers_toExport :: "(jsval \<Rightarrow> string) \<Rightarrow> (nat \<Rightarrow> obj list option) \<Rightarrow> view \<Rightarrow> view" where
  "peers_toExport locale answers v =
     (let (all, ps, failed) = export_loop answers 1 [];
          v = v\<lparr>calls := calls v @ map (\<lambda>p. peer_list (JObj (export_page_query (listQuery v) p))) ps\<rparr>
      in if failed then toast (Error ''ExportPageFailed'') v
         else if all = [] then v
         else
           (case jsonToCsv (map (export_item locale) (take MAX_ROWS all)) of
              Inl _ \<Rightarrow> v
            | Inr csv \<Rightarrow>
                (let v = v\<lparr>downloads := downloads v @ [(''peers.csv'', csv)]\<rparr>
                 in if length all \<ge> MAX_ROWS then toast (Warning ''ExportTruncated'') v else v)))"

subsection \<open>Import\<close>

definition canKeys :: "string list" where
  "canKeys = [''id'', ''cpu'', ''hostname'', ''memory'', ''os'', ''username'', ''uuid'', ''version'', ''group_id'']"

definition missing_columns :: "string list \<Rightarrow> string list" where
  "missing_columns header = filter (\<lambda>k. k \<noteq> ''group_id'' \<and> k \<notin> set header) canKeys"

text \<open>One row of the file under the header: cells beyond the shorter of the two are not used.\<close>

definition row_object :: "string list \<Rightarrow> string list \<Rightarrow> obj" where
  "row_object header cells = spread [] (zip header (map JStr cells))"

text \<open>\<open>parseInt(item.group_id) || 0\<close>.\<close>

definition group_number :: "jsval \<Rightarrow> int" where
  "group_number v = (case parseInt (toStr v) of Some i \<Rightarrow> i | None \<Rightarrow> 0)"

definition import_item :: "obj \<Rightarrow> obj" where
  "import_item item =
     filter (\<lambda>p. fst p \<in> set canKeys) (put item ''group_id'' (JNum (group_number (get item ''group_id''))))"

definition import_items :: "string list list \<Rightarrow> obj list" where
  "import_items rs =
     map import_item (filter (\<lambda>item. truthy (get item ''id'')) (map (row_object (hd rs)) (tl rs)))"

text \<open>
  \<open>reader.onload\<close>. The mark at the start of a Unicode file is no character of this model and is stripped
  by the reader already. All calls are made at once; \<open>ok item\<close> says whether the call for it succeeds.
\<close>

definition import_toast :: "nat \<Rightarrow> nat \<Rightarrow> toast" where
  "import_toast ok fail =
     (if fail = 0 then Success ''OperationSuccess''
      else if ok > 0 then Warning (''Import: '' @ show_nat ok @ '' Success, '' @ show_nat fail @ '' Failed'')
      else Error ''OperationFailed'')"

definition parseCsv :: "string \<Rightarrow> (obj \<Rightarrow> bool) \<Rightarrow> page option \<Rightarrow> view \<Rightarrow> view" where
  "parseCsv text ok res v =
     (let rs = parseCsvRows text
      in if length rs < 2 then toast (Warning ''CsvNoData'') v
         else if missing_columns (hd rs) \<noteq> [] then toast (Error ''ImportMissingColumns'') v
         else
           (let items = import_items rs;
                v = v\<lparr>calls := calls v @ map (\<lambda>i. peer_create (JObj i)) items\<rparr>
            in peers_getList res (toast (import_toast (length (filter ok items)) (length (filter (\<lambda>i. \<not> ok i) items))) v)))"

subsection \<open>Selection and address books\<close>

definition peers_ids :: "obj list \<Rightarrow> jsval" where
  "peers_ids rs = JArr (map (\<lambda>r. get r ''row_id'') rs)"

definition handleSelectionChange :: "obj list \<Rightarrow> peers \<Rightarrow> peers" where
  "handleSelectionChange rs p = p\<lparr>multipleSelection := rs\<rparr>"

text \<open>The selection is emptied when the devices have been removed.\<close>

definition peers_toBatchDelete :: "bool \<Rightarrow> bool \<Rightarrow> page option \<Rightarrow> peers \<Rightarrow> peers" where
  "peers_toBatchDelete confirmed ok res p =
     (let (removed, v) =
            batchConfirmAndRemove (\<lambda>rs. peer_batchRemove (JObj [(''row_ids'', peers_ids rs)])) id (peers_getList res)
              (multipleSelection p) confirmed ok (pview p)
      in p\<lparr>pview := v, multipleSelection := (if removed then [] else multipleSelection p)\<rparr>)"

definition toAddressBook :: "obj \<Rightarrow> peers \<Rightarrow> peers" where
  "toAddressBook row p = p\<lparr>clickRow := row, ABFormVisible := True\<rparr>"

definition changeUserForBatchCreateAB :: "jsval \<Rightarrow> page option \<Rightarrow> peers \<Rightarrow> peers" where
  "changeUserForBatchCreateAB val res p =
     p\<lparr>batchABFormData := put (batchABFormData p) ''collection_id'' (JNum 0),
       collectionsForBatch := collection_getList Admin res (set_query ''user_id'' val (collectionsForBatch p))\<rparr>"

definition toBatchAddToAB :: "peers \<Rightarrow> peers" where
  "toBatchAddToAB p = p\<lparr>batchABFormVisible := True\<rparr>"

definition submitBatchAddToAB :: "bool \<Rightarrow> peers \<Rightarrow> peers" where
  "submitBatchAddToAB ok p =
     (if multipleSelection p = [] then p\<lparr>pview := toast (Warning ''PleaseSelectData'') (pview p)\<rparr>
      else
        (let form = put (batchABFormData p) ''peer_ids'' (peers_ids (multipleSelection p));
             p = p\<lparr>batchABFormData := form, pview := call (address_book_batchCreateFromPeers (JObj form)) (pview p)\<rparr>
         in if ok then p\<lparr>pview := toast (Success ''OperationSuccess'') (pview p), batchABFormVisible := False\<rparr> else p))"

subsection \<open>Columns\<close>

definition saveColumnSetting :: "peers \<Rightarrow> peers" where
  "saveColumnSetting p =
     p\<lparr>stored_columns := Some (json_text (JArr (visibleColumns p))),
       pview := toast (Success ''OperationSuccess'') (pview p), columnSettingVisible := False\<rparr>"

text \<open>\<open>splice(i, 1)\<close> and \<open>splice(i, 0, x)\<close>.\<close>

definition splice_out :: "nat \<Rightarrow> 'a list \<Rightarrow> 'a list" where
  "splice_out i xs = take i xs @ drop (Suc i) xs"

definition splice_in :: "nat \<Rightarrow> 'a \<Rightarrow> 'a list \<Rightarrow> 'a list" where
  "splice_in i x xs = take i xs @ x # drop i xs"

definition upColumn :: "nat \<Rightarrow> 'a list \<Rightarrow> 'a list" where
  "upColumn i cs = (if i = 0 then cs else splice_in (i - 1) (cs ! i) (splice_out i cs))"

definition downColumn :: "nat \<Rightarrow> 'a list \<Rightarrow> 'a list" where
  "downColumn i cs = (if i = length cs - 1 then cs else splice_in (i + 1) (cs ! i) (splice_out i cs))"

text \<open>The names of the columns the table shows, the status first.\<close>

definition tableColumns :: "jsval list \<Rightarrow> jsval list" where
  "tableColumns cs = JStr ''Status'' # map (\<lambda>c. opt_prop c ''name'') (filter (\<lambda>c. truthy (opt_prop c ''visible'')) cs)"

subsection \<open>Putting one device into address books (createABForm.vue)\<close>

text \<open>The state is the one of the address book view; \<open>user_ids\<close> are the owners.\<close>

definition owner_ids :: "ab_view \<Rightarrow> jsval list" where
  "owner_ids w = (case get (formData (aview w)) ''user_ids'' of JArr us \<Rightarrow> us | _ \<Rightarrow> [])"

definition form_changeUser :: "jsval list \<Rightarrow> page option \<Rightarrow> ab_view \<Rightarrow> ab_view" where
  "form_changeUser val res w =
     (let w = w\<lparr>aview := set_form ''tags'' (JArr []) (set_form ''collection_id'' (JNum 0) (aview w))\<rparr>
      in case val of
           [u] \<Rightarrow> ab_changeUserForUpdate Admin u res w
         | [] \<Rightarrow> w\<lparr>collectionListForUpdate := clear_list (collectionListForUpdate w)\<rparr>
         | _ \<Rightarrow> w)"

text \<open>The result is whether the dialog is told to close.\<close>

definition ABSubmit :: "bool \<Rightarrow> ab_view \<Rightarrow> bool \<times> ab_view" where
  "ABSubmit ok w =
     (if owner_ids w = [] then (False, w\<lparr>aview := toast (Error ''ParamRequired'') (aview w)\<rparr>)
      else if \<not> truthy (get (formData (aview w)) ''id'') then (False, w\<lparr>aview := toast (Error ''ParamRequired'') (aview w)\<rparr>)
      else
        (let v = aview w;
             v = (if length (owner_ids w) > 1 then set_form ''tags'' (JArr []) (set_form ''collection_id'' (JNum 0) v) else v);
             v = call (address_book_batchCreate (JObj (formData v))) v
         in if ok then (True, w\<lparr>aview := toast (Success ''OperationSuccess'') v\<rparr>) else (False, w\<lparr>aview := v\<rparr>)))"

subsection \<open>The personal view\<close>

definition my_peers_query :: obj where
  "my_peers_query =
     [(''page'', JNum 1), (''page_size'', JNum 10), (''time_ago'', JNull), (''id'', JStr ''''), (''hostname'', JStr '''')]"

definition my_peers_getList :: "page option \<Rightarrow> view \<Rightarrow> view" where
  "my_peers_getList res v = load my_peer_list Some res v"

definition my_peers_del :: "obj \<Rightarrow> bool \<Rightarrow> bool \<Rightarrow> page option \<Rightarrow> view \<Rightarrow> view" where
  "my_peers_del row confirmed ok res v = delete_row (my_peer_remove (row_payload row)) (my_peers_getList res) confirmed ok v"

definition my_export_query :: "obj \<Rightarrow> obj" where
  "my_export_query q = put (put q ''page_size'' (JNum 10000)) ''page'' (JNum 1)"

text \<open>An empty answer raises in \<open>jsonToCsv\<close>.\<close>

definition my_peers_toExport :: "(jsval \<Rightarrow> string) \<Rightarrow> page option \<Rightarrow> view \<Rightarrow> view" where
  "my_peers_toExport locale res v =
     (let v = call (my_peer_list (JObj (my_export_query (listQuery v)))) v
      in case res of
           None \<Rightarrow> v
         | Some pg \<Rightarrow>
             (case jsonToCsv (map (export_item locale) (page_list pg)) of
                Inl _ \<Rightarrow> v
              | Inr csv \<Rightarrow> v\<lparr>downloads := downloads v @ [(''peers.csv'', csv)]\<rparr>))"

definition my_peers_toBatchDelete :: "bool \<Rightarrow> bool \<Rightarrow> page option \<Rightarrow> obj list \<times> view \<Rightarrow> obj list \<times> view" where
  "my_peers_toBatchDelete confirmed ok res s =
     (let (removed, v) =
            batchConfirmAndRemove (\<lambda>rs. my_peer_batchRemove (JObj [(''row_ids'', peers_ids rs)])) id (my_peers_getList res)
              (fst s) confirmed ok (snd s)
      in (if removed then [] else fst s, v))"

definition my_form :: obj where
  "my_form =
     [(''row_id'', JNum 0), (''cpu'', JStr ''''), (''hostname'', JStr ''''), (''id'', JStr ''''), (''memory'', JStr ''''),
      (''os'', JStr ''''), (''username'', JStr ''''), (''uuid'', JStr ''''), (''version'', JStr '''')]"

definition my_toView :: "obj \<Rightarrow> view \<Rightarrow> view" where
  "my_toView row v = v\<lparr>formVisible := True, formData := copy_keys (formData v) row\<rparr>"

text \<open>The batch dialog: its form and whether it is shown, next to the view and the address book form.\<close>

definition my_batch_form :: obj where
  "my_batch_form = [(''collection_id'', JNum 0), (''tags'', JArr []), (''peer_ids'', JArr [])]"

definition changeCollectionForBatchCreateAB ::
    "jsval \<Rightarrow> page option \<Rightarrow> obj \<times> ab_view \<Rightarrow> obj \<times> ab_view" where
  "changeCollectionForBatchCreateAB val res s =
     (put (fst s) ''tags'' (JArr []), changeCollectionForUpdate My val res (snd s))"

definition my_submitBatchAddToAB ::
    "obj list \<Rightarrow> bool \<Rightarrow> obj \<times> bool \<times> view \<Rightarrow> obj \<times> bool \<times> view" where
  "my_submitBatchAddToAB selection ok s =
     (case s of (form, visible, v) \<Rightarrow>
        if selection = [] then (form, visible, toast (Warning ''PleaseSelectData'') v)
        else
          (let form = put form ''peer_ids'' (peers_ids selection);
               v = call (my_address_book_batchCreateFromPeers (JObj form)) v
           in if ok then (form, False, toast (Success ''OperationSuccess'') v) else (form, visible, v)))"

definition my_toAddressBook :: "obj \<Rightarrow> view \<Rightarrow> view" where
  "my_toAddressBook peer v = (fromPeer peer v)\<lparr>formVisible := True\<rparr>"

subsection \<open>Lemmas\<close>

text \<open>A server that holds the rows \<open>db\<close> and serves pages of them.\<close>

definition paged :: "obj list \<Rightarrow> nat \<Rightarrow> obj list option" where
  "paged db p = Some (take PAGE_SIZE (drop (PAGE_SIZE * (p - 1)) db))"

definition pages :: "obj list \<Rightarrow> nat" where
  "pages db = min 100 (length db div PAGE_SIZE + 1)"

lemma export_loop_paged:
  "k \<le> 100 \<Longrightarrow> PAGE_SIZE * k \<le> length db \<Longrightarrow>
    export_loop (paged db) (Suc k) (take (PAGE_SIZE * k) db) = (take MAX_ROWS db, [Suc k..<Suc (pages db)], False)"
proof (induction "100 - k" arbitrary: k)
  case 0
  then show ?case by (subst export_loop.simps) (simp add: MAX_ROWS_def PAGE_SIZE_def pages_def)
next
  case (Suc n)
  let ?xs = "take PAGE_SIZE (drop (PAGE_SIZE * k) db)"
  have go: "export_loop (paged db) (Suc k) (take (PAGE_SIZE * k) db) =
    (if length ?xs < PAGE_SIZE then (take (PAGE_SIZE * k) db @ ?xs, [Suc k], False)
     else (let (all', ps, failed) = export_loop (paged db) (Suc (Suc k)) (take (PAGE_SIZE * k) db @ ?xs) in (all', Suc k # ps, failed)))"
    using Suc by (subst export_loop.simps) (auto simp: MAX_ROWS_def PAGE_SIZE_def paged_def)
  have joined: "take (PAGE_SIZE * k) db @ ?xs = take (PAGE_SIZE * Suc k) db" by (simp add: take_add [symmetric] add.commute)
  show ?case
  proof (cases "PAGE_SIZE * Suc k \<le> length db")
    case True
    then have "length db div PAGE_SIZE \<ge> Suc k" by (simp add: PAGE_SIZE_def less_eq_div_iff_mult_less_eq mult.commute)
    then have "Suc k < Suc (pages db)" using Suc by (simp add: pages_def)
    then show ?thesis using Suc(1) [of "Suc k"] Suc(2-4) True unfolding go joined by (simp add: upt_rec [of "Suc k"])
  next
    case False
    then have "length db div PAGE_SIZE = k" using Suc(4) by (intro div_nat_eqI) (simp_all add: mult.commute PAGE_SIZE_def)
    then have "pages db = Suc k" using Suc by (simp add: pages_def)
    moreover have "take (PAGE_SIZE * Suc k) db = db" "take MAX_ROWS db = db"
      using False Suc by (simp_all add: PAGE_SIZE_def MAX_ROWS_def)
    moreover have "length ?xs < PAGE_SIZE" using False Suc(4) by (simp add: PAGE_SIZE_def)
    ultimately show ?thesis unfolding go joined by simp
  qed
qed

lemma get_filter: "get (filter (\<lambda>p. P (fst p)) o') k = (if P k then get o' k else JUndef)"
  by (induction o') (auto simp: get_def)

lemma get_delete_key [simp]: "get (delete_key j o') k = (if k = j then JUndef else get o' k)"
  using get_filter [of "\<lambda>k. k \<noteq> j" o' k] by (simp add: delete_key_def)

lemma keys_delete_key [simp]: "keys (delete_key j o') = filter (\<lambda>k. k \<noteq> j) (keys o')"
  by (induction o') (simp_all add: keys_def delete_key_def)

lemma get_export_item:
  "k \<notin> {''last_online_time'', ''user'', ''user_id''} \<Longrightarrow> get (export_item locale row) k = get row k"
  by (simp add: export_item_def Let_def)

lemma keys_export_item:
  "keys (export_item locale row) =
    filter (\<lambda>k. k \<noteq> ''user'') (filter (\<lambda>k. k \<noteq> ''user_id'')
      (if ''last_online_time'' \<in> set (keys row) then keys row else keys row @ [''last_online_time'']))"
  by (simp add: export_item_def Let_def keys_put)

lemma get_row_object:
  "distinct header \<Longrightarrow> get (row_object header (map f header)) k = (if k \<in> set header then JStr (f k) else JUndef)"
proof -
  assume d: "distinct header"
  have z: "zip header (map JStr (map f header)) = map (\<lambda>k. (k, JStr (f k))) header" by (induction header) simp_all
  have w: "obj_wf (map (\<lambda>k. (k, JStr (f k))) header)" using d by (simp add: obj_wf_def keys_def comp_def)
  have "get (map (\<lambda>k. (k, JStr (f k))) header) k = JStr (f k)" if "k \<in> set header"
    using that by (induction header) auto
  then show ?thesis using get_spread [OF w, of "[]" k] unfolding row_object_def z by (simp add: keys_def comp_def)
qed

lemma get_import_item:
  "k \<in> set canKeys \<Longrightarrow>
    get (import_item item) k = (if k = ''group_id'' then JNum (group_number (get item ''group_id'')) else get item k)"
  using get_filter [of "\<lambda>k. k \<in> set canKeys"] by (simp add: import_item_def)

lemma group_number_text: "group_number (JStr (show_int g)) = g"
  by (simp add: group_number_def parseInt_show_int)

subsection \<open>Properties\<close>

text \<open>
  C10: An export is complete. Whatever number of devices the server holds, the administrator's export asks
  for its pages in order, each once and at most a hundred, and writes exactly the first hundred
  thousand devices, in order, into one file. The warning that the file was cut off comes from a hundred
  thousand devices on, also when these were all.
\<close>

theorem export_complete:
  assumes "db \<noteq> []"
  shows "\<exists>csv. jsonToCsv (map (export_item locale) (take MAX_ROWS db)) = Inr csv
    \<and> peers_toExport locale (paged db) v =
      v\<lparr>calls := calls v @ map (\<lambda>p. peer_list (JObj (export_page_query (listQuery v) p))) [1..<Suc (pages db)],
        downloads := downloads v @ [(''peers.csv'', csv)],
        toasts_shown := toasts_shown v @ (if MAX_ROWS \<le> length db then [Warning ''ExportTruncated''] else [])\<rparr>"
proof -
  have e: "export_loop (paged db) 1 [] = (take MAX_ROWS db, [1..<Suc (pages db)], False)"
    using export_loop_paged [of 0 db] by simp
  have ne: "take MAX_ROWS db \<noteq> []" using assms by (simp add: MAX_ROWS_def)
  then obtain csv where csv: "jsonToCsv (map (export_item locale) (take MAX_ROWS db)) = Inr csv"
    by (cases "take MAX_ROWS db") simp_all
  have "take MAX_ROWS (take MAX_ROWS db) = take MAX_ROWS db" by simp
  then show ?thesis using csv ne unfolding peers_toExport_def e by (intro exI [of _ csv]) (simp add: Let_def del: upt_Suc)
qed

definition one_peer :: obj where
  "one_peer =
     [(''row_id'', JNum 4), (''id'', JStr ''7''), (''cpu'', JStr ''c''), (''hostname'', JStr ''a,b''), (''memory'', JStr ''''),
      (''os'', JStr ''Windows''), (''username'', JStr ''u''), (''uuid'', JStr ''x''), (''version'', JStr ''1''), (''group_id'', JNum 3),
      (''user_id'', JNum 1)]"

theorem export_complete_witness:
  "\<exists>csv. jsonToCsv [export_item (\<lambda>_. []) one_peer] = Inr csv
    \<and> downloads (peers_toExport (\<lambda>_. []) (paged [one_peer]) (mk_view peers_query peers_form)) = [(''peers.csv'', csv)]
    \<and> toasts_shown (peers_toExport (\<lambda>_. []) (paged [one_peer]) (mk_view peers_query peers_form)) = []"
  using export_complete [of "[one_peer]" "\<lambda>_. []" "mk_view peers_query peers_form"]
  by (auto simp: MAX_ROWS_def mk_view_def)

text \<open>A device whose fields are texts, as the server sends them.\<close>

definition plain_peer :: "obj \<Rightarrow> bool" where
  "plain_peer row \<longleftrightarrow>
     (\<forall>k \<in> set canKeys. case get row k of JStr s \<Rightarrow> k \<noteq> ''group_id'' \<and> (k = ''id'' \<longrightarrow> s \<noteq> []) | JNum g \<Rightarrow> k = ''group_id'' | _ \<Rightarrow> False)"

lemma plain_peer_text:
  assumes "plain_peer row" "k \<in> set canKeys" "k \<noteq> ''group_id''"
  obtains s where "get row k = JStr s" "k = ''id'' \<Longrightarrow> s \<noteq> []"
  using assms by (cases "get row k") (fastforce simp: plain_peer_def)+

lemma plain_peer_id: "plain_peer row \<Longrightarrow> \<exists>s. get row ''id'' = JStr s \<and> s \<noteq> []"
proof -
  assume "plain_peer row"
  moreover have "''id'' \<in> set canKeys" "''id'' \<noteq> ''group_id''" by (simp_all add: canKeys_def)
  ultimately show ?thesis by (metis plain_peer_text)
qed

lemma plain_peer_group: "plain_peer row \<Longrightarrow> \<exists>g. get row ''group_id'' = JNum g"
  by (auto simp: plain_peer_def canKeys_def split: jsval.splits)

lemma plain_peer_keys: "plain_peer row \<Longrightarrow> k \<in> set canKeys \<Longrightarrow> k \<in> set (keys row)"
  using get_notin_keys [of k row] by (fastforce simp: plain_peer_def)

lemma cell_text_str: "cell_text (JStr s) = s"
  by (simp add: cell_text_def)

lemma import_row:
  assumes "plain_peer row" "distinct header" "set canKeys \<subseteq> set header"
    and item_def: "item = row_object header (map (\<lambda>k. cell_text (get (export_item locale row) k)) header)"
  shows "truthy (get item ''id'')" and "k \<in> set canKeys \<Longrightarrow> get (import_item item) k = get row k"
proof -
  have get: "get item k = JStr (cell_text (get row k))" if "k \<in> set canKeys" for k
  proof -
    have "k \<notin> {''last_online_time'', ''user'', ''user_id''}" using that by (auto simp: canKeys_def)
    then show ?thesis using that assms(3) by (auto simp: item_def get_row_object [OF assms(2)] get_export_item)
  qed
  obtain s where "get row ''id'' = JStr s" "s \<noteq> []" using plain_peer_id [OF assms(1)] by blast
  then show "truthy (get item ''id'')" using get [of "''id''"] by (simp add: canKeys_def cell_text_def)
  show "get (import_item item) k = get row k" if k: "k \<in> set canKeys"
  proof (cases "k = ''group_id''")
    case True
    then show ?thesis using plain_peer_group [OF assms(1)] k get [OF k]
      by (auto simp: get_import_item cell_text_def group_number_text)
  next
    case False
    then show ?thesis using plain_peer_text [OF assms(1) k False] k get [OF k]
      by (metis False get_import_item cell_text_str)
  qed
qed

text \<open>
  C11: What was exported can be imported. When the devices of an export have their fields as texts and
  their group as a number, and the column names need no quoting, the import of the file creates one
  device for each, in order, with the same id, processor, host name, memory, system, user, identifier,
  version and group, and then reloads the list; nothing is refused or left out.
\<close>

theorem import_restores_export:
  assumes "db \<noteq> []" "\<forall>row \<in> set db. plain_peer row" "distinct (keys (hd db))" "\<forall>k \<in> set (keys (hd db)). needs_no_quotes k"
  shows "\<exists>csv items. jsonToCsv (map (export_item locale) db) = Inr csv
    \<and> calls (parseCsv csv ok res v) = calls v @ map (\<lambda>i. peer_create (JObj i)) items @ [peer_list (JObj (listQuery v))]
    \<and> length items = length db \<and> (\<forall>i < length db. \<forall>k \<in> set canKeys. get (items ! i) k = get (db ! i) k)"
proof -
  let ?data = "map (export_item locale) db" and ?header = "keys (export_item locale (hd db))"
  let ?cells = "\<lambda>row. map (\<lambda>k. cell_text (get (export_item locale row) k)) ?header"
  have hd: "hd ?data = export_item locale (hd db)" using assms(1) by (simp add: hd_map)
  have t: "needs_no_quotes ''last_online_time''" by code_simp
  have "set ?header \<subseteq> insert ''last_online_time'' (set (keys (hd db)))" by (auto simp: keys_export_item)
  then have quotes: "\<forall>k \<in> set ?header. needs_no_quotes k" using assms(4) t by blast
  have d: "distinct ?header" using assms(3) by (auto simp: keys_export_item)
  have sub: "set canKeys \<subseteq> set ?header"
    using plain_peer_keys [of "hd db"] assms(1,2) by (auto simp: keys_export_item canKeys_def)
  have row: "truthy (get (row_object ?header (?cells r)) ''id'')" if "r \<in> set db" for r
    by (rule import_row(1) [OF _ d sub refl]) (use assms(2) that in simp)
  have id: "''id'' \<in> set ?header" using sub by (auto simp: canKeys_def)
  have "nonblank (?cells r)" if "r \<in> set db" for r
  proof -
    have "plain_peer r" using assms(2) that by simp
    from plain_peer_id [OF this] obtain s where "get r ''id'' = JStr s" "s \<noteq> []" by (elim exE conjE)
    then have "cell_text (get (export_item locale r) ''id'') = s" by (simp add: get_export_item cell_text_str)
    with id have "s \<in> set (?cells r)" by (auto simp only: set_map)
    with \<open>s \<noteq> []\<close> show ?thesis unfolding nonblank_def by blast
  qed
  then have "filter nonblank (map ?cells db) = map ?cells db" by simp
  moreover have "nonblank ?header" using id unfolding nonblank_def by blast
  ultimately obtain csv where csv: "jsonToCsv ?data = Inr csv" "parseCsvRows csv = ?header # map ?cells db"
    using csv_round_trip [of ?data] assms(1) quotes hd by (auto simp: comp_def)
  have items: "import_items (?header # map ?cells db) = map (\<lambda>r. import_item (row_object ?header (?cells r))) db"
  proof -
    have "filter (\<lambda>item. truthy (get item ''id'')) (map (row_object ?header) (map ?cells db)) = map (row_object ?header) (map ?cells db)"
      using row by (simp add: filter_map comp_def cong: filter_cong)
    then show ?thesis by (simp add: import_items_def comp_def)
  qed
  have "get (import_item (row_object ?header (?cells (db ! i)))) k = get (db ! i) k" if "i < length db" "k \<in> set canKeys" for i k
    using import_row(2) [OF _ d sub refl that(2)] assms(2) that(1) by simp
  moreover have "missing_columns ?header = []" using sub by (auto simp: missing_columns_def filter_empty_conv)
  moreover have "\<not> length (?header # map ?cells db) < 2" using assms(1) by (cases db) simp_all
  ultimately show ?thesis using csv items
    by (intro exI [of _ csv] exI [of _ "map (\<lambda>r. import_item (row_object ?header (?cells r))) db"])
      (simp add: parseCsv_def peers_getList_def Let_def)
qed

theorem import_restores_export_witness:
  "\<exists>csv i. jsonToCsv [export_item (\<lambda>_. []) one_peer] = Inr csv
    \<and> calls (parseCsv csv (\<lambda>_. True) None (mk_view peers_query peers_form)) = [peer_create (JObj i), peer_list (JObj peers_query)]
    \<and> get i ''hostname'' = JStr ''a,b'' \<and> get i ''group_id'' = JNum 3"
proof -
  have plain: "\<forall>row \<in> set [one_peer]. plain_peer row" by (simp add: plain_peer_def canKeys_def one_peer_def)
  have keys: "distinct (keys (hd [one_peer]))" "\<forall>k \<in> set (keys (hd [one_peer])). needs_no_quotes k"
    by code_simp+
  obtain csv items where i: "jsonToCsv (map (export_item (\<lambda>_. [])) [one_peer]) = Inr csv"
    "calls (parseCsv csv (\<lambda>_. True) None (mk_view peers_query peers_form)) =
      map (\<lambda>i. peer_create (JObj i)) items @ [peer_list (JObj peers_query)]"
    "length items = 1" "\<forall>k \<in> set canKeys. get (items ! 0) k = get one_peer k"
    using import_restores_export [OF _ plain keys, of "\<lambda>_. []" "\<lambda>_. True" None "mk_view peers_query peers_form"]
    by (auto simp: mk_view_def)
  then obtain x where "items = [x]" by (auto simp: length_Suc_conv)
  then show ?thesis using i by (auto simp: canKeys_def one_peer_def)
qed

text \<open>
  The form for a new device keeps the group of the device edited before: what is submitted for the new
  one assigns it to that group unless the user changes it.
\<close>

lemma add_keeps_group:
  assumes "obj_wf (formData v)" "''group_id'' \<in> set (keys (formData v))"
  shows "get (formData (peers_toAdd (peers_toEdit row v))) ''group_id'' = get row ''group_id''"
proof -
  have "get (copy_keys form row) k = get row k" if "k \<in> set (keys form)" for form k
    using that by (induction form) (auto simp: copy_keys_def keys_def)
  then show ?thesis using assms(2)
    by (subst peers_toAdd_def) (simp add: peers_toEdit_def get_spread peers_reset_def obj_wf_def keys_def)
qed

subsection \<open>Columns\<close>

lemma up_permutes: "i < length cs \<Longrightarrow> mset (upColumn i cs) = mset cs"
proof -
  assume i: "i < length cs"
  have in_mset: "mset (as @ x # bs) = add_mset x (mset (as @ bs))" for x :: 'a and as bs by simp
  have "mset (splice_in j x ys) = add_mset x (mset ys)" for j and x :: 'a and ys
    by (simp only: splice_in_def in_mset append_take_drop_id)
  moreover have "add_mset (cs ! i) (mset (splice_out i cs)) = mset cs"
    using arg_cong [OF id_take_nth_drop [OF i], of mset] by (simp add: splice_out_def)
  ultimately show ?thesis by (simp add: upColumn_def)
qed

lemma down_undoes_up:
  assumes "0 < i" "i < length cs"
  shows "downColumn (i - 1) (upColumn i cs) = cs"
proof -
  let ?j = "i - 1"
  obtain xs a b ys where cs: "cs = xs @ a # b # ys" "length xs = ?j"
  proof -
    have "cs = take ?j cs @ cs ! ?j # cs ! i # drop (Suc i) cs"
      using assms by (metis Cons_nth_drop_Suc Suc_diff_1 append_take_drop_id less_imp_diff_less)
    then show ?thesis using that [of "take ?j cs" "cs ! ?j" "cs ! i" "drop (Suc i) cs"] assms by simp
  qed
  then have i: "i = Suc (length xs)" using assms by simp
  have "upColumn i cs = xs @ b # a # ys" using cs(1) i by (simp add: upColumn_def splice_in_def splice_out_def nth_append)
  then show ?thesis using cs(1) i by (simp add: downColumn_def splice_in_def splice_out_def nth_append)
qed

text \<open>Saved columns are there again after a reload.\<close>

lemma columns_saved: "list_all json_ok (visibleColumns p) \<Longrightarrow> visibleColumns (peers_init (stored_columns (saveColumnSetting p))) = visibleColumns p"
  using JSON_round_trip [of "JArr (visibleColumns p)"] by (simp add: saveColumnSetting_def peers_init_def columns_of_def)

end
