(* ===== verification/ServerControl.thy ===== *)
theory ServerControl
  imports Tag
begin

text \<open>
  The page that controls the ID and the relay server (\<open>views/rustdesk/control.vue\<close>) with its panels
  (\<open>relay_servers.vue\<close>, \<open>always_use_relay.vue\<close>, \<open>must_login.vue\<close>, \<open>usage.vue\<close>, \<open>blocklist.vue\<close> and
  \<open>blacklist.vue\<close>) and its list of stored commands. The panels are disabled until the server they
  control has answered a first command. A state keeps the commands sent, in order, and the requests
  that are still in flight; answers come in any order.
\<close>

definition ID_TARGET :: string where "ID_TARGET = ''21115''"
definition RELAY_TARGET :: string where "RELAY_TARGET = ''21117''"

subsection \<open>The stored commands\<close>

definition cmd_form :: obj where
  "cmd_form = [(''cmd'', JStr ''''), (''alias'', JStr ''''), (''option'', JStr ''''), (''target'', JStr ''''), (''explain'', JStr '''')]"

definition cmd_view :: view where
  "cmd_view = mk_view [(''page'', JNum 1), (''page_size'', JNum 10)] cmd_form"

definition cmd_getList :: "page option \<Rightarrow> view \<Rightarrow> view" where
  "cmd_getList res v = load rustdesk_list Some res v"

definition cmd_handlerQuery :: "page option \<Rightarrow> view \<Rightarrow> view" where
  "cmd_handlerQuery res v = query_first_page (cmd_getList res) v"

definition cmd_del :: "obj \<Rightarrow> bool \<Rightarrow> bool \<Rightarrow> page option \<Rightarrow> view \<Rightarrow> view" where
  "cmd_del row confirmed ok res v =
     delete_row (rustdesk_remove (JObj [(''id'', get row ''id'')])) (cmd_getList res) confirmed ok v"

definition cmd_toAdd :: "view \<Rightarrow> view" where
  "cmd_toAdd v = v\<lparr>formVisible := True, formData := spread (formData v)
     [(''cmd'', JStr ''''), (''alias'', JStr ''''), (''option'', JStr ''''), (''explain'', JStr '''')]\<rparr>"

definition cmd_toUpdate :: "obj \<Rightarrow> view \<Rightarrow> view" where
  "cmd_toUpdate row v = v\<lparr>formVisible := True, formData := spread (formData v)
     [(''id'', get row ''id''), (''cmd'', get row ''cmd''), (''alias'', get row ''alias''), (''option'', get row ''option''),
      (''target'', get row ''target''), (''explain'', get row ''explain'')]\<rparr>"

definition cmd_submit :: "bool \<Rightarrow> page option \<Rightarrow> view \<Rightarrow> view" where
  "cmd_submit ok res v =
     (if \<not> truthy (get (formData v) ''cmd'') then toast (Error ''ParamRequired'') v
      else
        (let api = (if truthy (get (formData v) ''id'') then rustdesk_update else rustdesk_create)
         in submit_form (api (JObj (formData v))) (cmd_getList res) ok v))"

definition cmd_cancel :: "view \<Rightarrow> view" where
  "cmd_cancel v = v\<lparr>formVisible := False\<rparr>"

text \<open>What the user can do with the list and the form; a field of the form is typed or chosen.\<close>

definition typed_fields :: "string list" where
  "typed_fields = [''cmd'', ''alias'', ''option'', ''target'', ''explain'']"

inductive cmd_step :: "view \<Rightarrow> view \<Rightarrow> bool" where
  cmd_load: "cmd_step v (cmd_getList res v)"
| cmd_query: "cmd_step v (cmd_handlerQuery res v)"
| cmd_delete: "cmd_step v (cmd_del row confirmed ok res v)"
| cmd_add: "cmd_step v (cmd_toAdd v)"
| cmd_edit: "truthy (get row ''id'') \<Longrightarrow> cmd_step v (cmd_toUpdate row v)"
| cmd_type: "k \<in> set typed_fields \<Longrightarrow> cmd_step v (set_form k x v)"
| cmd_save: "cmd_step v (cmd_submit ok res v)"
| cmd_close: "cmd_step v (cmd_cancel v)"

subsection \<open>The panels\<close>

datatype ip_list = Blocklist | Blacklist

datatype request =
    IdProbe | RelayProbe | RsGet | RsSave | AurGet | AurSave | MlGet | MlSave | UsageGet
  | IpGet ip_list | IpAdd ip_list | IpRemove ip_list | CmdSend

record control =
  can_id :: bool
  can_relay :: bool
  can_must_login :: bool
  rs_option :: string
  aur_option :: string
  ml_option :: string
  usage_rows :: "string list list"
  ip_entries :: "ip_list \<Rightarrow> string list"
  ip_input :: "ip_list \<Rightarrow> string"
  ip_visible :: "ip_list \<Rightarrow> bool"
  ip_type :: "ip_list \<Rightarrow> string"
  customCmd :: obj
  showCmdForm :: bool
  sent_cmds :: "obj list"
  inflight :: "request list"
  notices :: "toast list"

definition command :: "string \<Rightarrow> string \<Rightarrow> obj" where
  "command cmd target = [(''cmd'', JStr cmd), (''target'', JStr target)]"

definition command_with :: "string \<Rightarrow> string \<Rightarrow> string \<Rightarrow> obj" where
  "command_with cmd opt target = [(''cmd'', JStr cmd), (''option'', JStr opt), (''target'', JStr target)]"

definition issue :: "request \<Rightarrow> obj \<Rightarrow> control \<Rightarrow> control" where
  "issue r d c = c\<lparr>sent_cmds := sent_cmds c @ [d], inflight := inflight c @ [r]\<rparr>"

definition notice :: "toast \<Rightarrow> control \<Rightarrow> control" where
  "notice t c = c\<lparr>notices := notices c @ [t]\<rparr>"

text \<open>The page when it is mounted: both servers are asked.\<close>

definition control_init :: control where
  "control_init =
     issue RelayProbe (command ''h'' RELAY_TARGET)
       (issue IdProbe (command ''h'' ID_TARGET)
         \<lparr>can_id = False, can_relay = False, can_must_login = False, rs_option = [], aur_option = ''N'', ml_option = ''N'',
          usage_rows = [], ip_entries = (\<lambda>_. []), ip_input = (\<lambda>_. []),
          ip_visible = (\<lambda>_. False), ip_type = (\<lambda>_. []),
          customCmd = [(''cmd'', JStr ''''), (''option'', JStr ''''), (''target'', JStr ''''), (''res'', JStr ''''), (''example'', JStr '''')],
          showCmdForm = False, sent_cmds = [], inflight = [], notices = []\<rparr>)"

text \<open>\<open>data.split('\n').filter(i => i)\<close>.\<close>

definition entry_lines :: "string \<Rightarrow> string list" where
  "entry_lines s = filter (\<lambda>l. l \<noteq> []) (split_on lf s)"

definition rs_get :: "control \<Rightarrow> control" where
  "rs_get = issue RsGet (command ''rs'' ID_TARGET)"

definition rs_read :: "jsval option \<Rightarrow> control \<Rightarrow> control" where
  "rs_read res c = (case res of Some (JStr s) \<Rightarrow> c\<lparr>rs_option := join [comma] (entry_lines s)\<rparr> | _ \<Rightarrow> c)"

definition rs_save :: "control \<Rightarrow> control" where
  "rs_save c = issue RsSave (command_with ''rs'' (rs_option c) ID_TARGET) c"

definition saved :: "jsval option \<Rightarrow> control \<Rightarrow> control" where
  "saved res c = (if res \<noteq> None then notice (Success ''OperationSuccess'') c else c)"

text \<open>The switches: the answer counts as yes only in this spelling.\<close>

definition switch_of :: "string \<Rightarrow> jsval \<Rightarrow> string" where
  "switch_of name v = (if v = JStr (name @ '': true'') \<or> v = JStr (name @ '': true'' @ [lf]) then ''Y'' else ''N'')"

definition switch_form :: "string \<Rightarrow> string \<Rightarrow> obj" where
  "switch_form cmd opt = command_with cmd opt ID_TARGET @ [(''value'', JNum 0)]"

definition aur_get :: "control \<Rightarrow> control" where
  "aur_get = issue AurGet (command ''aur'' ID_TARGET)"

definition aur_read :: "jsval option \<Rightarrow> control \<Rightarrow> control" where
  "aur_read res c = (case res of None \<Rightarrow> c | Some v \<Rightarrow> c\<lparr>aur_option := switch_of ''ALWAYS_USE_RELAY'' v\<rparr>)"

definition aur_save :: "control \<Rightarrow> control" where
  "aur_save c = issue AurSave (switch_form ''aur'' (aur_option c)) c"

text \<open>A success is passed on to the page, which saves the relay servers again (\<open>handleAlwaysUseRelaySuccess\<close>).\<close>

definition aur_saved :: "jsval option \<Rightarrow> control \<Rightarrow> control" where
  "aur_saved res c = (if res \<noteq> None then rs_save (saved res c) else c)"

definition ml_get :: "control \<Rightarrow> control" where
  "ml_get = issue MlGet (command ''ml'' ID_TARGET)"

definition ml_read :: "jsval option \<Rightarrow> control \<Rightarrow> control" where
  "ml_read res c = (case res of None \<Rightarrow> c | Some v \<Rightarrow> c\<lparr>ml_option := switch_of ''MUST_LOGIN'' v\<rparr>)"

definition ml_save :: "control \<Rightarrow> control" where
  "ml_save c = issue MlSave (switch_form ''ml'' (ml_option c)) c"

text \<open>The two lists of addresses.\<close>

fun ip_cmd :: "ip_list \<Rightarrow> string" where
  "ip_cmd Blocklist = ''blocklist''"
| "ip_cmd Blacklist = ''blacklist''"

definition ip_get :: "ip_list \<Rightarrow> control \<Rightarrow> control" where
  "ip_get l = issue (IpGet l) (command (ip_cmd l) RELAY_TARGET)"

definition ip_read :: "ip_list \<Rightarrow> jsval option \<Rightarrow> control \<Rightarrow> control" where
  "ip_read l res c = (case res of Some (JStr s) \<Rightarrow> c\<lparr>ip_entries := (ip_entries c)(l := entry_lines s)\<rparr> | _ \<Rightarrow> c)"

definition ip_showForm :: "ip_list \<Rightarrow> string \<Rightarrow> control \<Rightarrow> control" where
  "ip_showForm l type c =
     c\<lparr>ip_visible := (ip_visible c)(l := True), ip_input := (ip_input c)(l := []), ip_type := (ip_type c)(l := type)\<rparr>"

definition ip_add :: "ip_list \<Rightarrow> control \<Rightarrow> control" where
  "ip_add l c = issue (IpAdd l) (command_with (ip_cmd l @ ''-add'') (ip_input c l) RELAY_TARGET) c"

definition ip_remove :: "ip_list \<Rightarrow> control \<Rightarrow> control" where
  "ip_remove l c = issue (IpRemove l) (command_with (ip_cmd l @ ''-remove'') (ip_input c l) RELAY_TARGET) c"

text \<open>The button of the dialog: \<open>@confirm\<close>.\<close>

definition ip_confirm :: "ip_list \<Rightarrow> control \<Rightarrow> control" where
  "ip_confirm l c = (if ip_type c l = ''add'' then ip_add l c else ip_remove l c)"

definition ip_changed :: "ip_list \<Rightarrow> jsval option \<Rightarrow> control \<Rightarrow> control" where
  "ip_changed l res c = (if res \<noteq> None then ip_get l (saved res c) else c)"

text \<open>
  \<open>parseUsage\<close>: lines end in a line feed, a carriage return before it belongs to the end; \<open>split(/\s+/)\<close>
  cuts at runs of white space.
\<close>

fun drop_cr :: "string list \<Rightarrow> string list" where
  "drop_cr [] = []"
| "drop_cr [l] = [l]"
| "drop_cr (l # m # ls) = (if l \<noteq> [] \<and> last l = cr then butlast l else l) # drop_cr (m # ls)"

declare length_dropWhile_le [termination_simp]

fun split_ws :: "string \<Rightarrow> string list" where
  "split_ws [] = [[]]"
| "split_ws (x # s) =
     (if is_ws x then [] # split_ws (dropWhile is_ws s)
      else (case split_ws s of [] \<Rightarrow> [[x]] | w # ws \<Rightarrow> (x # w) # ws))"

definition parseUsage :: "jsval \<Rightarrow> string list list" where
  "parseUsage raw =
     (case raw of
        JStr s \<Rightarrow> map split_ws (filter (\<lambda>l. length l > 0) (map trim (drop_cr (split_on lf s))))
      | _ \<Rightarrow> [])"

definition usage_get :: "control \<Rightarrow> control" where
  "usage_get = issue UsageGet (command ''u'' RELAY_TARGET)"

definition usage_read :: "jsval option \<Rightarrow> control \<Rightarrow> control" where
  "usage_read res c = (case res of None \<Rightarrow> c | Some v \<Rightarrow> c\<lparr>usage_rows := parseUsage v\<rparr>)"

subsection \<open>The probes\<close>

text \<open>
  A panel reads its server when the server becomes available (\<open>watch(() => props.canSend, ...)\<close>). Only
  the text of an answer is looked into; another value raises after the server counts as available.
\<close>

definition id_available :: "control \<Rightarrow> control" where
  "id_available c =
     (let c = aur_get (rs_get c) in if can_must_login c then ml_get c else c)"

definition checkCanSendIdServerCmd :: "jsval option \<Rightarrow> control \<Rightarrow> control" where
  "checkCanSendIdServerCmd res c =
     (let data = (case res of None \<Rightarrow> JUndef | Some v \<Rightarrow> v);
          before = can_id c;
          c = c\<lparr>can_id := truthy data\<rparr>;
          c = (case data of
                 JStr s \<Rightarrow>
                   if s \<noteq> [] then c\<lparr>can_must_login := list_ex (\<lambda>l. str_includes l ''must-login'') (entry_lines s)\<rparr> else c
               | _ \<Rightarrow> c)
      in if truthy data \<and> \<not> before then id_available c else c)"

definition checkCanSendRelayServerCmd :: "jsval option \<Rightarrow> control \<Rightarrow> control" where
  "checkCanSendRelayServerCmd res c =
     (let data = (case res of None \<Rightarrow> JUndef | Some v \<Rightarrow> v);
          before = can_relay c;
          c = c\<lparr>can_relay := truthy data\<rparr>
      in if truthy data \<and> \<not> before then ip_get Blacklist (ip_get Blocklist (usage_get c)) else c)"

definition canSendCmd :: "string \<Rightarrow> control \<Rightarrow> bool" where
  "canSendCmd target c =
     (if target = ID_TARGET then can_id c else if target = RELAY_TARGET then can_relay c else False)"

subsection \<open>Commands of the user's own\<close>

definition showCmd :: "obj \<Rightarrow> control \<Rightarrow> control" where
  "showCmd row c =
     c\<lparr>showCmdForm := True,
       customCmd := spread (customCmd c)
         [(''cmd'', get row ''cmd''), (''option'', JStr ''''), (''res'', JStr ''''), (''target'', get row ''target''),
          (''example'', JStr (toStr (get row ''cmd'') @ '' '' @ toStr (get row ''option'')))]\<rparr>"

definition custom_target :: "control \<Rightarrow> string" where
  "custom_target c = (case get (customCmd c) ''target'' of JStr t \<Rightarrow> t | _ \<Rightarrow> [])"

text \<open>The whole record of the dialog is sent, with the answer and the example.\<close>

definition submitCmd :: "bool \<Rightarrow> control \<Rightarrow> control" where
  "submitCmd confirmed c = (if confirmed then issue CmdSend (customCmd c) c else c)"

definition cmd_answered :: "jsval option \<Rightarrow> control \<Rightarrow> control" where
  "cmd_answered res c =
     (case res of
        None \<Rightarrow> c
      | Some v \<Rightarrow> notice (Success ''OperationSuccess'') (c\<lparr>customCmd := put (customCmd c) ''res'' v\<rparr>))"

definition clearCmdResult :: "control \<Rightarrow> control" where
  "clearCmdResult c = c\<lparr>customCmd := put (customCmd c) ''res'' (JStr '''')\<rparr>"

definition copyCmdResult :: "bool \<Rightarrow> control \<Rightarrow> control" where
  "copyCmdResult ok c =
     (if \<not> truthy (get (customCmd c) ''res'') then c
      else notice (if ok then Success ''CopySuccess'' else Error ''CopyFailed'') c)"

subsection \<open>Steps\<close>

fun answered :: "request \<Rightarrow> jsval option \<Rightarrow> control \<Rightarrow> control" where
  "answered IdProbe res c = checkCanSendIdServerCmd res c"
| "answered RelayProbe res c = checkCanSendRelayServerCmd res c"
| "answered RsGet res c = rs_read res c"
| "answered RsSave res c = saved res c"
| "answered AurGet res c = aur_read res c"
| "answered AurSave res c = aur_saved res c"
| "answered MlGet res c = ml_read res c"
| "answered MlSave res c = saved res c"
| "answered UsageGet res c = usage_read res c"
| "answered (IpGet l) res c = ip_read l res c"
| "answered (IpAdd l) res c = ip_changed l res c"
| "answered (IpRemove l) res c = ip_changed l res c"
| "answered CmdSend res c = cmd_answered res c"

text \<open>What a user can do: a panel is disabled while its server is not available.\<close>

inductive control_user :: "control \<Rightarrow> control \<Rightarrow> bool" where
  type_rs: "can_id c \<Longrightarrow> control_user c (c\<lparr>rs_option := s\<rparr>)"
| refresh_rs: "can_id c \<Longrightarrow> control_user c (rs_get c)"
| click_rs: "can_id c \<Longrightarrow> control_user c (rs_save c)"
| toggle_aur: "can_id c \<Longrightarrow> s \<in> {''Y'', ''N''} \<Longrightarrow> control_user c (c\<lparr>aur_option := s\<rparr>)"
| refresh_aur: "can_id c \<Longrightarrow> control_user c (aur_get c)"
| click_aur: "can_id c \<Longrightarrow> control_user c (aur_save c)"
| toggle_ml: "can_id c \<Longrightarrow> can_must_login c \<Longrightarrow> s \<in> {''Y'', ''N''} \<Longrightarrow> control_user c (c\<lparr>ml_option := s\<rparr>)"
| refresh_ml: "can_id c \<Longrightarrow> can_must_login c \<Longrightarrow> control_user c (ml_get c)"
| click_ml: "can_id c \<Longrightarrow> can_must_login c \<Longrightarrow> control_user c (ml_save c)"
| refresh_usage: "can_relay c \<Longrightarrow> control_user c (usage_get c)"
| refresh_ip: "can_relay c \<Longrightarrow> control_user c (ip_get l c)"
| open_ip: "can_relay c \<Longrightarrow> type \<in> {''add'', ''delete''} \<Longrightarrow> control_user c (ip_showForm l type c)"
| type_ip: "ip_visible c l \<Longrightarrow> control_user c (c\<lparr>ip_input := (ip_input c)(l := s)\<rparr>)"
| confirm_ip: "ip_visible c l \<Longrightarrow> control_user c (ip_confirm l c)"
| close_ip: "control_user c (c\<lparr>ip_visible := (ip_visible c)(l := False)\<rparr>)"
| open_cmd: "get row ''target'' = JStr t \<Longrightarrow> canSendCmd t c \<Longrightarrow> control_user c (showCmd row c)"
| type_cmd: "k \<in> {''cmd'', ''option''} \<Longrightarrow> canSendCmd (custom_target c) c \<Longrightarrow> control_user c (c\<lparr>customCmd := put (customCmd c) k (JStr s)\<rparr>)"
| send_cmd: "canSendCmd (custom_target c) c \<Longrightarrow> control_user c (submitCmd confirmed c)"
| clear_cmd: "control_user c (clearCmdResult c)"
| copy_cmd: "control_user c (copyCmdResult ok c)"

inductive control_step :: "control \<Rightarrow> control \<Rightarrow> bool" where
  user: "control_user c d \<Longrightarrow> control_step c d"
| answer: "r \<in> set (inflight c) \<Longrightarrow> control_step c (answered r res (c\<lparr>inflight := remove1 r (inflight c)\<rparr>))"

definition control_reachable :: "control \<Rightarrow> bool" where
  "control_reachable c = control_step\<^sup>*\<^sup>* control_init c"

subsection \<open>Lemmas\<close>

named_theorems control_ops

lemmas control_op_defs [control_ops] =
  issue_def notice_def rs_get_def rs_read_def rs_save_def saved_def aur_get_def aur_read_def aur_save_def aur_saved_def
  ml_get_def ml_read_def ml_save_def ip_get_def ip_read_def ip_showForm_def ip_add_def ip_remove_def ip_confirm_def ip_changed_def usage_get_def usage_read_def
  id_available_def checkCanSendIdServerCmd_def checkCanSendRelayServerCmd_def showCmd_def submitCmd_def cmd_answered_def
  clearCmdResult_def copyCmdResult_def command_def command_with_def switch_form_def Let_def

text \<open>A probe of a server, or a command to a server that is available.\<close>

definition allowed :: "bool \<Rightarrow> bool \<Rightarrow> obj \<Rightarrow> bool" where
  "allowed i r d \<longleftrightarrow>
     get d ''cmd'' = JStr ''h'' \<or> (get d ''target'' = JStr ID_TARGET \<and> i) \<or> (get d ''target'' = JStr RELAY_TARGET \<and> r)"

text \<open>Which server a request that leads to another command belongs to.\<close>

fun leads_to :: "bool \<Rightarrow> bool \<Rightarrow> request \<Rightarrow> bool" where
  "leads_to i r AurSave = i"
| "leads_to i r (IpAdd l) = r"
| "leads_to i r (IpRemove l) = r"
| "leads_to i r _ = True"

definition probes_once :: "control \<Rightarrow> bool" where
  "probes_once c \<longleftrightarrow>
     count_list (inflight c) IdProbe + of_bool (can_id c) \<le> 1 \<and> count_list (inflight c) RelayProbe + of_bool (can_relay c) \<le> 1"

definition control_inv :: "control \<Rightarrow> bool" where
  "control_inv c \<longleftrightarrow> list_all (allowed (can_id c) (can_relay c)) (sent_cmds c) \<and> list_all (leads_to (can_id c) (can_relay c)) (inflight c) \<and> probes_once c
     \<and> (\<forall>l. ip_visible c l \<longrightarrow> can_relay c)"

lemma control_inv_init: "control_inv control_init"
  by (simp add: control_inv_def probes_once_def control_init_def allowed_def control_ops)

lemma canSend_allowed:
  "canSendCmd (custom_target c) c \<Longrightarrow> allowed (can_id c) (can_relay c) (customCmd c)"
  by (auto simp: canSendCmd_def custom_target_def allowed_def ID_TARGET_def RELAY_TARGET_def split: if_splits jsval.splits)

lemma allowed_more: "allowed i r d \<Longrightarrow> (i \<longrightarrow> i') \<Longrightarrow> (r \<longrightarrow> r') \<Longrightarrow> allowed i' r' d"
  by (auto simp: allowed_def)

lemma leads_to_more: "leads_to i r q \<Longrightarrow> (i \<longrightarrow> i') \<Longrightarrow> (r \<longrightarrow> r') \<Longrightarrow> leads_to i' r' q"
  by (cases q) auto

lemma control_inv_user: "control_user c d \<Longrightarrow> control_inv c \<Longrightarrow> control_inv d"
proof (induction rule: control_user.induct)
  case (send_cmd c confirmed)
  then show ?case using canSend_allowed [OF send_cmd(1)]
    by (simp add: control_inv_def probes_once_def issue_def submitCmd_def)
qed (auto simp: control_inv_def probes_once_def allowed_def control_ops)

lemma id_answer:
  obtains x where "checkCanSendIdServerCmd res c =
    (let d = c\<lparr>can_id := truthy (case res of None \<Rightarrow> JUndef | Some v \<Rightarrow> v), can_must_login := x\<rparr>
     in if can_id d \<and> \<not> can_id c then id_available d else d)"
proof (cases "case res of None \<Rightarrow> JUndef | Some v \<Rightarrow> v")
  case (JStr s)
  then show ?thesis
    using that [of "if s \<noteq> [] then list_ex (\<lambda>l. str_includes l ''must-login'') (entry_lines s) else can_must_login c"]
    by (simp add: checkCanSendIdServerCmd_def Let_def)
qed (use that [of "can_must_login c"] in \<open>simp_all add: checkCanSendIdServerCmd_def Let_def\<close>)

text \<open>An answer that is only read or reported changes nothing the invariant looks at.\<close>

lemma rs_read_frame [simp]:
  "can_id (rs_read res c) = can_id c" "can_relay (rs_read res c) = can_relay c" "sent_cmds (rs_read res c) = sent_cmds c" "inflight (rs_read res c) = inflight c"
  "ip_visible (rs_read res c) = ip_visible c"
  by (auto simp: rs_read_def notice_def split: option.split jsval.split)

lemma saved_frame [simp]:
  "can_id (saved res c) = can_id c" "can_relay (saved res c) = can_relay c" "sent_cmds (saved res c) = sent_cmds c" "inflight (saved res c) = inflight c"
  "ip_visible (saved res c) = ip_visible c"
  by (auto simp: saved_def notice_def split: option.split jsval.split)

lemma aur_read_frame [simp]:
  "can_id (aur_read res c) = can_id c" "can_relay (aur_read res c) = can_relay c" "sent_cmds (aur_read res c) = sent_cmds c" "inflight (aur_read res c) = inflight c"
  "ip_visible (aur_read res c) = ip_visible c"
  by (auto simp: aur_read_def notice_def split: option.split jsval.split)

lemma ml_read_frame [simp]:
  "can_id (ml_read res c) = can_id c" "can_relay (ml_read res c) = can_relay c" "sent_cmds (ml_read res c) = sent_cmds c" "inflight (ml_read res c) = inflight c"
  "ip_visible (ml_read res c) = ip_visible c"
  by (auto simp: ml_read_def notice_def split: option.split jsval.split)

lemma usage_read_frame [simp]:
  "can_id (usage_read res c) = can_id c" "can_relay (usage_read res c) = can_relay c" "sent_cmds (usage_read res c) = sent_cmds c" "inflight (usage_read res c) = inflight c"
  "ip_visible (usage_read res c) = ip_visible c"
  by (auto simp: usage_read_def notice_def split: option.split jsval.split)

lemma ip_read_frame [simp]:
  "can_id (ip_read l res c) = can_id c" "can_relay (ip_read l res c) = can_relay c" "sent_cmds (ip_read l res c) = sent_cmds c" "inflight (ip_read l res c) = inflight c"
  "ip_visible (ip_read l res c) = ip_visible c"
  by (auto simp: ip_read_def notice_def split: option.split jsval.split)

lemma cmd_answered_frame [simp]:
  "can_id (cmd_answered res c) = can_id c" "can_relay (cmd_answered res c) = can_relay c" "sent_cmds (cmd_answered res c) = sent_cmds c" "inflight (cmd_answered res c) = inflight c"
  "ip_visible (cmd_answered res c) = ip_visible c"
  by (auto simp: cmd_answered_def notice_def split: option.split jsval.split)

lemma control_inv_answered:
  assumes "r \<in> set (inflight c)" "control_inv c"
  shows "control_inv (answered r res (c\<lparr>inflight := remove1 r (inflight c)\<rparr>))"
proof -
  let ?q = "remove1 r (inflight c)" and ?c = "c\<lparr>inflight := remove1 r (inflight c)\<rparr>"
  have q: "list_all (leads_to (can_id c) (can_relay c)) ?q" "leads_to (can_id c) (can_relay c) r"
    using assms set_remove1_subset [of r "inflight c"] by (auto simp: control_inv_def list_all_iff)
  have s: "list_all (allowed (can_id c) (can_relay c)) (sent_cmds c)"
    using assms(2) by (simp add: control_inv_def)
  have up: "list_all (allowed i' r') (sent_cmds c) \<and> list_all (leads_to i' r') ?q"
    if "can_id c \<longrightarrow> i'" "can_relay c \<longrightarrow> r'" for i' r'
    using q(1) s that by (auto simp: list_all_iff intro: allowed_more leads_to_more)
  have one: "count_list (inflight c) r \<ge> 1"
    using assms(1) count_list_0_iff [of "inflight c" r] by (cases "count_list (inflight c) r") simp_all
  have v: "(\<exists>l. ip_visible c l) \<longrightarrow> can_relay c"
    using assms(2) by (auto simp: control_inv_def)
  have p: "count_list (inflight c) IdProbe + of_bool (can_id c) \<le> 1"
    "count_list (inflight c) RelayProbe + of_bool (can_relay c) \<le> 1"
    using assms(2) by (simp_all add: control_inv_def probes_once_def)
  show ?thesis
  proof (cases r)
    case IdProbe
    obtain x where x: "checkCanSendIdServerCmd res ?c =
      (let d = ?c\<lparr>can_id := truthy (case res of None \<Rightarrow> JUndef | Some v \<Rightarrow> v), can_must_login := x\<rparr>
       in if can_id d \<and> \<not> can_id ?c then id_available d else d)" by (rule id_answer)
    have "\<not> can_id c" using one p(1) IdProbe by (cases "can_id c") simp_all
    then show ?thesis using x up [of True "can_relay c"] up [of "can_id c" "can_relay c"] p v one IdProbe
      by (simp add: control_inv_def probes_once_def allowed_def control_ops)
  next
    case RelayProbe
    have "\<not> can_relay c" using one p(2) RelayProbe by (cases "can_relay c") simp_all
    then show ?thesis using up [of "can_id c" True] up [of "can_id c" "can_relay c"] p v one RelayProbe
      by (simp add: control_inv_def probes_once_def allowed_def control_ops)
  next
    case AurSave
    then show ?thesis using q s p v
      by (simp add: control_inv_def probes_once_def allowed_def aur_saved_def rs_save_def issue_def command_with_def)
  next
    case (IpAdd l)
    then show ?thesis using q s p v
      by (simp add: control_inv_def probes_once_def allowed_def ip_changed_def ip_get_def issue_def command_def)
  next
    case (IpRemove l)
    then show ?thesis using q s p v
      by (simp add: control_inv_def probes_once_def allowed_def ip_changed_def ip_get_def issue_def command_def)
  qed (use q s p v in \<open>simp_all add: control_inv_def probes_once_def\<close>)
qed

lemma control_inv_reachable: "control_reachable c \<Longrightarrow> control_inv c"
  unfolding control_reachable_def
proof (induction rule: rtranclp_induct)
  case (step c d)
  from step(2) show ?case
    by (cases rule: control_step.cases) (use step(3) control_inv_user control_inv_answered in auto)
qed (rule control_inv_init)

text \<open>
  C9: nothing is sent to a server before it has answered a probe. In every state the page can reach,
  whatever the user does and in whatever order the answers come, each command sent is the harmless
  \<open>h\<close> or goes to the ID server while it counts as available, or to the relay server while that does.
\<close>

theorem commands_gated:
  assumes "control_reachable c" "d \<in> set (sent_cmds c)"
  shows "get d ''cmd'' = JStr ''h'' \<or> (get d ''target'' = JStr ID_TARGET \<and> can_id c)
         \<or> (get d ''target'' = JStr RELAY_TARGET \<and> can_relay c)"
  using control_inv_reachable [OF assms(1)] assms(2) by (auto simp: control_inv_def list_all_iff allowed_def)

text \<open>A state in which the ID server has answered and the relay server has not.\<close>

definition id_up :: control where
  "id_up = answered IdProbe (Some (JStr ''relay-servers(rs)'')) (control_init\<lparr>inflight := [RelayProbe]\<rparr>)"

lemma id_up_commands: "list_ex (\<lambda>l. str_includes l ''must-login'') (entry_lines ''relay-servers(rs)'') = False"
  by code_simp

lemma id_up_shape:
  "can_id id_up" "inflight id_up = [RelayProbe, RsGet, AurGet]" "rs_option id_up = []"
  "sent_cmds id_up = [command ''h'' ID_TARGET, command ''h'' RELAY_TARGET, command ''rs'' ID_TARGET, command ''aur'' ID_TARGET]"
  unfolding id_up_def answered.simps checkCanSendIdServerCmd_def option.case jsval.case Let_def id_up_commands
  by (simp_all add: id_up_commands control_init_def issue_def id_available_def rs_get_def aur_get_def)

lemma id_up_reachable: "control_reachable id_up"
proof -
  have "control_step control_init id_up"
    using answer [of IdProbe control_init "Some (JStr ''relay-servers(rs)'')"] by (simp add: id_up_def control_init_def issue_def)
  then show ?thesis by (simp add: control_reachable_def)
qed

theorem commands_gated_witness:
  "get (command ''rs'' ID_TARGET) ''cmd'' = JStr ''h'' \<or> (get (command ''rs'' ID_TARGET) ''target'' = JStr ID_TARGET \<and> can_id id_up)
   \<or> (get (command ''rs'' ID_TARGET) ''target'' = JStr RELAY_TARGET \<and> can_relay id_up)"
proof (rule commands_gated [OF id_up_reachable])
  show "command ''rs'' ID_TARGET \<in> set (sent_cmds id_up)"
    by (simp add: id_up_shape)
qed

text \<open>
  Saving the always-use-relay switch can erase the relay servers. The page answers a successful
  save by saving the relay servers of the panel once more, and the panel's field is empty until its
  own read has come back: in a state the page reaches by one click, with the read refused, the last
  command sent clears the list on the server.
\<close>

lemma relay_servers_wiped:
  "\<exists>c. control_reachable c \<and> map (\<lambda>d. get d ''cmd'') (sent_cmds c) = [JStr ''h'', JStr ''h'', JStr ''rs'', JStr ''aur'', JStr ''aur'', JStr ''rs'']
     \<and> last (sent_cmds c) = command_with ''rs'' '''' ID_TARGET"
proof -
  let ?a = "answered RsGet None (id_up\<lparr>inflight := remove1 RsGet (inflight id_up)\<rparr>)"
  let ?b = "aur_save ?a"
  let ?c = "answered AurSave (Some (JStr '''')) (?b\<lparr>inflight := remove1 AurSave (inflight ?b)\<rparr>)"
  have "control_step id_up ?a" by (rule answer) (simp add: id_up_shape)
  moreover have "control_step ?a ?b" by (rule control_step.user, rule click_aur) (simp add: id_up_shape)
  moreover have "control_step ?b ?c" by (rule answer) (simp add: aur_save_def issue_def)
  ultimately have "control_reachable ?c"
    using id_up_reachable unfolding control_reachable_def by (meson rtranclp.rtrancl_into_rtrancl)
  then show ?thesis
    by (intro exI [of _ ?c]) (simp add: id_up_shape command_def aur_saved_def saved_def aur_save_def rs_save_def rs_read_def issue_def notice_def
        switch_form_def command_with_def)
qed

text \<open>The creations the list has asked the server for.\<close>

definition creations :: "view \<Rightarrow> config list" where
  "creations v = filter (\<lambda>c. url c = ''/rustdesk/cmdCreate'') (calls v)"

lemma cmd_step_keeps_id:
  "cmd_step v w \<Longrightarrow> truthy (get (formData v) ''id'') \<Longrightarrow> truthy (get (formData w) ''id'') \<and> creations w = creations v"
proof (induction rule: cmd_step.induct)
  case (cmd_type k v x)
  then show ?case by (auto simp: typed_fields_def set_form_def creations_def)
qed (simp_all add: cmd_getList_def cmd_handlerQuery_def query_first_page_def cmd_del_def delete_row_def cmd_toAdd_def
    cmd_toUpdate_def cmd_submit_def submit_form_def cmd_cancel_def creations_def Let_def rustdesk_list_def rustdesk_remove_def
    rustdesk_update_def)



end
