(* ===== verification/GithubBuild.thy ===== *)
theory GithubBuild
  imports Api
begin

text \<open>
  The page of the GitHub build integration (\<open>views/server/github-build.vue\<close>): the repository and its
  secrets, the approval of a workflow tag, and the buttons that call the server. A state keeps the
  calls made and the requests in flight; answers come in any order. The focus and the attributes of
  elements are not modelled.
\<close>

subsection \<open>State\<close>

text \<open>A message is a text of the server or the key of a translation.\<close>

datatype message = Text string | Key string

datatype gh_request = GhConfig | GhTags | GhApprove jsval | GhSave | GhGenerate | GhSync | GhTest | GhDispatch

record gh =
  g_loading :: bool
  g_saving :: bool
  g_testing :: bool
  g_dispatching :: bool
  g_generating :: bool
  g_syncing :: bool
  g_approving :: bool
  showToken :: bool
  showPayloadKey :: bool
  generateError :: message
  generatedKeyStatus :: message
  syncResult :: jsval
  sync_message :: message
  workflowTags :: "jsval list"
  workflowTagsState :: string
  workflowTagsError :: message
  configError :: bool
  configErrorMessage :: message
  approvalError :: message
  selectedWorkflowTag :: jsval
  currentWorkflowTag :: jsval
  has_token :: bool
  has_payload_key :: bool
  workflow_ref :: jsval
  workflow_ref_approved :: bool
  workflow_ref_status :: string
  repo :: jsval
  ftoken :: string
  payload_key :: string
  generatedKey :: jsval
  testResult :: jsval
  test_message :: message
  dispatchResult :: jsval
  dispatch_message :: message
  saveError :: message
  saveStatus :: message
  repoError :: message
  g_calls :: "config list"
  g_inflight :: "gh_request list"

abbreviation blank :: message where "blank \<equiv> Text []"

definition gh_init :: gh where
  "gh_init =
     \<lparr>g_loading = False, g_saving = False, g_testing = False, g_dispatching = False, g_generating = False, g_syncing = False,
      g_approving = False, showToken = False, showPayloadKey = False, generateError = blank, generatedKeyStatus = blank,
      syncResult = JNull, sync_message = blank, workflowTags = [], workflowTagsState = ''loading'', workflowTagsError = blank,
      configError = False, configErrorMessage = blank, approvalError = blank, selectedWorkflowTag = JStr '''',
      currentWorkflowTag = JStr '''', has_token = False, has_payload_key = False, workflow_ref = JStr '''',
      workflow_ref_approved = False, workflow_ref_status = ''approval-required'', repo = JStr '''', ftoken = [], payload_key = [],
      generatedKey = JStr '''', testResult = JNull, test_message = blank, dispatchResult = JNull, dispatch_message = blank,
      saveError = blank, saveStatus = blank, repoError = blank, g_calls = [], g_inflight = []\<rparr>"

definition ask :: "gh_request \<Rightarrow> config \<Rightarrow> gh \<Rightarrow> gh" where
  "ask r c g = g\<lparr>g_calls := g_calls g @ [c], g_inflight := g_inflight g @ [r]\<rparr>"

subsection \<open>Errors\<close>

text \<open>
  \<open>extractApiError\<close>: the first text that is not blank, from the body of the answer and then, when the
  error carries an integer code, from the error itself; their \<open>message\<close> and that of their \<open>data\<close>.
\<close>

definition envelopes :: "jsval \<Rightarrow> jsval list" where
  "envelopes err =
     [opt_prop (opt_prop err ''response'') ''data'', (case opt_prop err ''code'' of JNum _ \<Rightarrow> err | _ \<Rightarrow> JNull)]"

fun own_text :: "jsval \<Rightarrow> bool" where
  "own_text (JStr s) = (trim s \<noteq> [])"
| "own_text _ = False"

definition envelope_message :: "jsval \<Rightarrow> string option" where
  "envelope_message e =
     (case find own_text [opt_prop e ''message'', opt_prop (opt_prop e ''data'') ''message''] of
        Some (JStr s) \<Rightarrow> Some (trim s)
      | _ \<Rightarrow> None)"

definition extractApiError :: "jsval \<Rightarrow> string \<Rightarrow> message" where
  "extractApiError err fallback =
     (case List.map_filter envelope_message (envelopes err) of m # _ \<Rightarrow> Text m | [] \<Rightarrow> Key fallback)"

subsection \<open>Repository\<close>

definition clearRepositoryError :: "gh \<Rightarrow> gh" where
  "clearRepositoryError g = g\<lparr>repoError := blank\<rparr>"

definition validateRepository :: "gh \<Rightarrow> bool \<times> gh" where
  "validateRepository g =
     (let r = trim (toStr (js_or (repo g) (JStr '''')))
      in if r \<noteq> [] then (True, g\<lparr>repo := JStr r, repoError := blank\<rparr>)
         else (False, g\<lparr>repoError := Key ''GithubBuildRepositoryRequired''\<rparr>))"

subsection \<open>Loading\<close>

definition gh_load :: "gh \<Rightarrow> gh" where
  "gh_load g =
     ask GhConfig github_build_config_get
       (g\<lparr>g_loading := True, configError := False, configErrorMessage := blank, approvalError := blank,
          workflowTagsState := ''loading'', workflowTagsError := blank, workflowTags := [],
          selectedWorkflowTag := JStr '''', currentWorkflowTag := JStr '''', workflow_ref := JStr '''',
          workflow_ref_approved := False, workflow_ref_status := ''approval-required''\<rparr>)"

definition ref_states :: "string list" where
  "ref_states = [''approval-required'', ''provider-policy-unverified'', ''approved'']"

definition applyApprovalState :: "jsval \<Rightarrow> gh \<Rightarrow> gh" where
  "applyApprovalState data g =
     (let ref = js_or (opt_prop data ''workflow_ref'') (JStr '''');
          approved = truthy (opt_prop data ''workflow_ref_approved'');
          status = (case opt_prop data ''workflow_ref_status'' of
                      JStr s \<Rightarrow> if s \<in> set ref_states then s else if approved then ''provider-policy-unverified'' else ''approval-required''
                    | _ \<Rightarrow> if approved then ''provider-policy-unverified'' else ''approval-required'')
      in g\<lparr>workflow_ref := ref, workflow_ref_approved := approved, workflow_ref_status := status, currentWorkflowTag := ref\<rparr>)"

definition offers :: "jsval list \<Rightarrow> jsval \<Rightarrow> bool" where
  "offers tags t = list_ex (\<lambda>option. opt_prop option ''tag'' = t) tags"

definition selectCurrentWorkflowTag :: "gh \<Rightarrow> gh" where
  "selectCurrentWorkflowTag g =
     g\<lparr>selectedWorkflowTag := (if offers (workflowTags g) (currentWorkflowTag g) then currentWorkflowTag g else JStr '''')\<rparr>"

definition payload_of :: "jsval \<Rightarrow> jsval" where
  "payload_of res = js_or (opt_prop res ''data'') res"

fun is_text :: "jsval \<Rightarrow> bool" where
  "is_text (JStr _) = True"
| "is_text _ = False"

definition tag_options :: "jsval \<Rightarrow> jsval list" where
  "tag_options d =
     (case opt_prop d ''tags'' of
        JArr xs \<Rightarrow> filter (\<lambda>option. truthy option \<and> is_text (opt_prop option ''tag'') \<and> is_text (opt_prop option ''label'')) xs
      | _ \<Rightarrow> [])"

text \<open>The continuations of \<open>load\<close>; \<open>Inl\<close> is a rejected call, with its error.\<close>

definition config_answered :: "jsval + jsval \<Rightarrow> gh \<Rightarrow> gh" where
  "config_answered res g =
     (case res of
        Inl err \<Rightarrow> g\<lparr>workflowTagsState := ''error'', configError := True,
                    configErrorMessage := extractApiError err ''WorkflowApprovalConfigError'', g_loading := False\<rparr>
      | Inr v \<Rightarrow>
          (let d = payload_of v;
               g = g\<lparr>repo := js_or (opt_prop d ''repo'') (JStr ''''), has_token := truthy (opt_prop d ''has_token''),
                     has_payload_key := truthy (opt_prop d ''has_payload_key'')\<rparr>
           in ask GhTags github_build_config_getWorkflowTags (applyApprovalState d g)))"

definition tags_answered :: "jsval + jsval \<Rightarrow> gh \<Rightarrow> gh" where
  "tags_answered res g =
     (case res of
        Inl err \<Rightarrow> g\<lparr>workflowTagsState := ''error'', configError := False,
                    workflowTagsError := extractApiError err ''WorkflowApprovalLoadError'', g_loading := False\<rparr>
      | Inr v \<Rightarrow>
          (let tags = tag_options (payload_of v);
               g = g\<lparr>workflowTags := tags, workflowTagsState := (if tags \<noteq> [] then ''ready'' else ''empty'')\<rparr>
           in (selectCurrentWorkflowTag g)\<lparr>g_loading := False\<rparr>))"

subsection \<open>Approval\<close>

definition onApproveWorkflowRef :: "gh \<Rightarrow> gh" where
  "onApproveWorkflowRef g =
     (if \<not> truthy (selectedWorkflowTag g) then g
      else ask (GhApprove (selectedWorkflowTag g)) (github_build_config_approveWorkflowRef (selectedWorkflowTag g))
             (g\<lparr>g_approving := True, approvalError := blank\<rparr>))"

definition approve_answered :: "jsval + jsval \<Rightarrow> gh \<Rightarrow> gh" where
  "approve_answered res g =
     (case res of
        Inl err \<Rightarrow> g\<lparr>approvalError := extractApiError err ''WorkflowApprovalRequestFailed'', g_approving := False\<rparr>
      | Inr v \<Rightarrow> (selectCurrentWorkflowTag (applyApprovalState (payload_of v) g))\<lparr>g_approving := False\<rparr>)"

definition workflowRefStatusLabel :: "gh \<Rightarrow> string" where
  "workflowRefStatusLabel g =
     (if workflow_ref_status g = ''approved'' then ''WorkflowApprovalStatusApproved''
      else if workflow_ref_status g = ''provider-policy-unverified'' then ''WorkflowApprovalStatusProviderPolicyUnverified''
      else ''WorkflowApprovalStatusApprovalRequired'')"

definition workflowRefStatusType :: "gh \<Rightarrow> string" where
  "workflowRefStatusType g =
     (if workflow_ref_status g = ''approved'' then ''success''
      else if workflow_ref_status g = ''provider-policy-unverified'' then ''warning'' else ''info'')"

subsection \<open>The other buttons\<close>

definition save_payload :: "gh \<Rightarrow> jsval" where
  "save_payload g =
     JObj [(''repo'', JStr (trim (toStr (repo g)))), (''token'', JStr (ftoken g)), (''payload_key'', JStr (payload_key g))]"

definition onSave :: "gh \<Rightarrow> gh" where
  "onSave g =
     (let (ok, g) = validateRepository g
      in if \<not> ok then g
         else ask GhSave (github_build_config_save (save_payload g))
                (g\<lparr>g_saving := True, saveError := blank, saveStatus := Key ''GithubBuildSaveSaving''\<rparr>))"

definition save_answered :: "jsval + jsval \<Rightarrow> gh \<Rightarrow> gh" where
  "save_answered res g =
     (case res of
        Inl err \<Rightarrow>
          (let m = extractApiError err ''GithubBuildSaveError''
           in g\<lparr>saveError := m, g_saving := False, saveStatus := m\<rparr>)
      | Inr _ \<Rightarrow>
          gh_load (g\<lparr>g_saving := False, saveStatus := Key ''GithubBuildSaveSuccess'', ftoken := [], payload_key := [],
                     showToken := False, showPayloadKey := False\<rparr>))"

definition onGenerate :: "gh \<Rightarrow> gh" where
  "onGenerate g =
     ask GhGenerate github_build_config_generateKey
       (g\<lparr>g_generating := True, generateError := blank, generatedKeyStatus := blank\<rparr>)"

definition generate_answered :: "jsval + jsval \<Rightarrow> gh \<Rightarrow> gh" where
  "generate_answered res g =
     (case res of
        Inl err \<Rightarrow> g\<lparr>generateError := extractApiError err ''GithubBuildSaveError'', g_generating := False\<rparr>
      | Inr v \<Rightarrow> g\<lparr>generatedKey := opt_prop (payload_of v) ''payload_key'', has_payload_key := True,
                  generatedKeyStatus := Key ''GeneratedKeyCreated'', g_generating := False\<rparr>)"

definition copyKey :: "bool \<Rightarrow> gh \<Rightarrow> gh" where
  "copyKey ok g =
     (if \<not> truthy (generatedKey g) then g
      else g\<lparr>generatedKeyStatus := Key (if ok then ''CopySuccess'' else ''CopyFailed'')\<rparr>)"

text \<open>A result shown under a button is the payload of the answer, or a message of its own.\<close>

definition onSyncSecret :: "gh \<Rightarrow> gh" where
  "onSyncSecret g = ask GhSync github_build_config_syncSecret (g\<lparr>g_syncing := True, syncResult := JNull, sync_message := blank\<rparr>)"

definition sync_answered :: "jsval + jsval \<Rightarrow> gh \<Rightarrow> gh" where
  "sync_answered res g =
     (case res of
        Inl err \<Rightarrow> g\<lparr>syncResult := JObj [(''ok'', JBool False)], sync_message := extractApiError err ''GithubBuildSaveError'', g_syncing := False\<rparr>
      | Inr v \<Rightarrow> g\<lparr>syncResult := payload_of v, g_syncing := False\<rparr>)"

definition onTest :: "gh \<Rightarrow> gh" where
  "onTest g =
     (let (ok, g) = validateRepository g
      in if \<not> ok then g
         else ask GhTest github_build_config_test (g\<lparr>g_testing := True, testResult := JNull, test_message := blank\<rparr>))"

definition test_answered :: "jsval + jsval \<Rightarrow> gh \<Rightarrow> gh" where
  "test_answered res g =
     (case res of
        Inl err \<Rightarrow> g\<lparr>testResult := JObj [(''ok'', JBool False)], test_message := extractApiError err ''GithubBuildSaveError'', g_testing := False\<rparr>
      | Inr v \<Rightarrow> g\<lparr>testResult := payload_of v, g_testing := False\<rparr>)"

definition onDispatchTest :: "bool \<Rightarrow> gh \<Rightarrow> gh" where
  "onDispatchTest confirmed g =
     (let (ok, g) = validateRepository g
      in if \<not> ok \<or> \<not> confirmed then g
         else ask GhDispatch github_build_config_dispatchTest
                (g\<lparr>g_dispatching := True, dispatchResult := JNull, dispatch_message := blank\<rparr>))"

definition dispatch_answered :: "jsval + jsval \<Rightarrow> gh \<Rightarrow> gh" where
  "dispatch_answered res g =
     (case res of
        Inl err \<Rightarrow> g\<lparr>dispatchResult := JObj [], dispatch_message := extractApiError err ''GithubBuildSaveError'', g_dispatching := False\<rparr>
      | Inr v \<Rightarrow> g\<lparr>dispatchResult := payload_of v, g_dispatching := False\<rparr>)"

subsection \<open>Steps\<close>

fun gh_answered :: "gh_request \<Rightarrow> jsval + jsval \<Rightarrow> gh \<Rightarrow> gh" where
  "gh_answered GhConfig res g = config_answered res g"
| "gh_answered GhTags res g = tags_answered res g"
| "gh_answered (GhApprove t) res g = approve_answered res g"
| "gh_answered GhSave res g = save_answered res g"
| "gh_answered GhGenerate res g = generate_answered res g"
| "gh_answered GhSync res g = sync_answered res g"
| "gh_answered GhTest res g = test_answered res g"
| "gh_answered GhDispatch res g = dispatch_answered res g"

text \<open>The selector of the tags is shown; the button to load again is shown instead of it.\<close>

definition selector_shown :: "gh \<Rightarrow> bool" where
  "selector_shown g \<longleftrightarrow> \<not> configError g \<and> workflowTagsState g \<notin> {''loading'', ''error'', ''empty''}"

text \<open>What a user can do: a button with a loading mark takes no click.\<close>

inductive gh_user :: "gh \<Rightarrow> gh \<Rightarrow> bool" where
  type_repo: "gh_user g (clearRepositoryError (g\<lparr>repo := JStr s\<rparr>))"
| type_token: "gh_user g (g\<lparr>ftoken := s\<rparr>)"
| type_key: "gh_user g (g\<lparr>payload_key := s\<rparr>)"
| toggle_token: "gh_user g (g\<lparr>showToken := \<not> showToken g\<rparr>)"
| toggle_key: "gh_user g (g\<lparr>showPayloadKey := \<not> showPayloadKey g\<rparr>)"
| choose_tag: "selector_shown g \<Longrightarrow> \<not> g_approving g \<Longrightarrow> option \<in> set (workflowTags g) \<Longrightarrow> gh_user g (g\<lparr>selectedWorkflowTag := opt_prop option ''tag''\<rparr>)"
| click_approve: "selector_shown g \<Longrightarrow> \<not> g_approving g \<Longrightarrow> gh_user g (onApproveWorkflowRef g)"
| click_retry: "\<not> selector_shown g \<Longrightarrow> gh_user g (gh_load g)"
| click_save: "\<not> g_saving g \<Longrightarrow> gh_user g (onSave g)"
| click_generate: "\<not> g_generating g \<Longrightarrow> gh_user g (onGenerate g)"
| click_copy: "gh_user g (copyKey ok g)"
| click_sync: "\<not> g_syncing g \<Longrightarrow> gh_user g (onSyncSecret g)"
| click_test: "\<not> g_testing g \<Longrightarrow> gh_user g (onTest g)"
| click_dispatch: "\<not> g_dispatching g \<Longrightarrow> gh_user g (onDispatchTest confirmed g)"

inductive gh_step :: "gh \<Rightarrow> gh \<Rightarrow> bool" where
  gh_click: "gh_user g h \<Longrightarrow> gh_step g h"
| gh_answer: "r \<in> set (g_inflight g) \<Longrightarrow> gh_step g (gh_answered r res (g\<lparr>g_inflight := remove1 r (g_inflight g)\<rparr>))"

definition gh_reachable :: "gh \<Rightarrow> bool" where
  "gh_reachable g = gh_step\<^sup>*\<^sup>* (gh_load gh_init) g"

subsection \<open>Lemmas\<close>

lemma extracted_not_blank: "extractApiError err k = Text m \<Longrightarrow> m \<noteq> []"
proof -
  assume a: "extractApiError err k = Text m"
  then have "m \<in> set (List.map_filter envelope_message (envelopes err))"
    by (auto simp: extractApiError_def split: list.splits)
  then obtain e where "envelope_message e = Some m" by (auto simp: List.map_filter_def)
  then show ?thesis
    by (auto simp: envelope_message_def split: option.splits jsval.splits if_splits)
qed

text \<open>The requests of a kind in flight, and the marks of the buttons.\<close>

fun is_approve :: "gh_request \<Rightarrow> bool" where
  "is_approve (GhApprove _) = True"
| "is_approve _ = False"

definition pending :: "(gh_request \<Rightarrow> bool) \<Rightarrow> gh \<Rightarrow> nat" where
  "pending P g = length (filter P (g_inflight g))"

definition marks_ok :: "gh \<Rightarrow> bool" where
  "marks_ok g \<longleftrightarrow>
     pending is_approve g = of_bool (g_approving g) \<and> pending (\<lambda>r. r = GhSave) g = of_bool (g_saving g)
     \<and> pending (\<lambda>r. r = GhGenerate) g = of_bool (g_generating g) \<and> pending (\<lambda>r. r = GhSync) g = of_bool (g_syncing g)
     \<and> pending (\<lambda>r. r = GhTest) g = of_bool (g_testing g) \<and> pending (\<lambda>r. r = GhDispatch) g = of_bool (g_dispatching g)"

definition selection_ok :: "gh \<Rightarrow> bool" where
  "selection_ok g \<longleftrightarrow>
     list_all (\<lambda>option. is_text (opt_prop option ''tag'')) (workflowTags g)
     \<and> (selectedWorkflowTag g = JStr '''' \<or> offers (workflowTags g) (selectedWorkflowTag g))"

named_theorems gh_ops

lemmas gh_op_defs [gh_ops] =
  ask_def gh_load_def clearRepositoryError_def validateRepository_def onApproveWorkflowRef_def onSave_def onGenerate_def copyKey_def
  onSyncSecret_def onTest_def onDispatchTest_def Let_def

lemmas gh_answer_defs [gh_ops] =
  config_answered_def tags_answered_def approve_answered_def save_answered_def generate_answered_def sync_answered_def
  test_answered_def dispatch_answered_def

lemma apply_frame [simp]:
  "workflowTags (applyApprovalState d g) = workflowTags g" "selectedWorkflowTag (applyApprovalState d g) = selectedWorkflowTag g"
  "g_inflight (applyApprovalState d g) = g_inflight g" "g_approving (applyApprovalState d g) = g_approving g"
  "g_saving (applyApprovalState d g) = g_saving g" "g_generating (applyApprovalState d g) = g_generating g"
  "g_syncing (applyApprovalState d g) = g_syncing g" "g_testing (applyApprovalState d g) = g_testing g"
  "g_dispatching (applyApprovalState d g) = g_dispatching g" "g_calls (applyApprovalState d g) = g_calls g"
  by (simp_all add: applyApprovalState_def Let_def)

lemma select_ok [simp]: "selection_ok (selectCurrentWorkflowTag g) = list_all (\<lambda>option. is_text (opt_prop option ''tag'')) (workflowTags g)"
  by (simp add: selection_ok_def selectCurrentWorkflowTag_def)

lemma select_frame [simp]:
  "workflowTags (selectCurrentWorkflowTag g) = workflowTags g"
  "g_inflight (selectCurrentWorkflowTag g) = g_inflight g" "g_approving (selectCurrentWorkflowTag g) = g_approving g"
  "g_saving (selectCurrentWorkflowTag g) = g_saving g" "g_generating (selectCurrentWorkflowTag g) = g_generating g"
  "g_syncing (selectCurrentWorkflowTag g) = g_syncing g" "g_testing (selectCurrentWorkflowTag g) = g_testing g"
  "g_dispatching (selectCurrentWorkflowTag g) = g_dispatching g"
  by (simp_all add: selectCurrentWorkflowTag_def)

lemma tag_options_text: "list_all (\<lambda>option. is_text (opt_prop option ''tag'')) (tag_options d)"
  by (cases "opt_prop d ''tags''") (auto simp: tag_options_def list_all_iff)

lemma selection_ok_cong:
  "workflowTags h = workflowTags g \<Longrightarrow> selectedWorkflowTag h = selectedWorkflowTag g \<Longrightarrow> selection_ok h = selection_ok g"
  by (simp add: selection_ok_def)

lemma selection_ok_user: "gh_user g h \<Longrightarrow> selection_ok g \<Longrightarrow> selection_ok h"
proof (induction rule: gh_user.induct)
  case (choose_tag g option)
  then show ?case by (auto simp: selection_ok_def offers_def list_ex_iff)
qed (auto simp: selection_ok_def gh_ops offers_def)

lemma selection_ok_answered: "selection_ok g \<Longrightarrow> selection_ok (gh_answered r res (g\<lparr>g_inflight := q\<rparr>))"
  by (cases r; cases res) (auto simp: gh_ops selection_ok_def selectCurrentWorkflowTag_def tag_options_text)

lemma pending_remove1:
  "r \<in> set xs \<Longrightarrow> length (filter P (remove1 r xs)) = length (filter P xs) - of_bool (P r)"
proof -
  assume "r \<in> set xs"
  then have "length (filter P (remove1 r xs)) + of_bool (P r) = length (filter P xs)" by (induction xs) auto
  then show ?thesis by simp
qed

lemma count_filter: "count_list xs x = length (filter (\<lambda>y. y = x) xs)"
  by (induction xs) auto

lemma pending_pos: "r \<in> set xs \<Longrightarrow> P r \<Longrightarrow> length (filter P xs) \<noteq> 0"
  by (auto simp: filter_empty_conv)

lemma marks_ok_user: "gh_user g h \<Longrightarrow> marks_ok g \<Longrightarrow> marks_ok h"
  by (induction rule: gh_user.induct) (auto simp: marks_ok_def pending_def gh_ops)

lemma marks_ok_answered:
  "r \<in> set (g_inflight g) \<Longrightarrow> marks_ok g \<Longrightarrow> marks_ok (gh_answered r res (g\<lparr>g_inflight := remove1 r (g_inflight g)\<rparr>))"
  by (cases r; cases res) (auto simp: marks_ok_def pending_def gh_ops pending_remove1 dest: pending_pos)

lemma gh_reachable_ok: "gh_reachable g \<Longrightarrow> marks_ok g \<and> selection_ok g"
  unfolding gh_reachable_def
proof (induction rule: rtranclp_induct)
  case base
  then show ?case by (simp add: marks_ok_def pending_def selection_ok_def gh_init_def gh_ops)
next
  case (step g h)
  from step(2) show ?case
    by (cases rule: gh_step.cases)
      (use step(3) marks_ok_user selection_ok_user marks_ok_answered selection_ok_answered in auto)
qed

text \<open>
  C13: Only a tag that the server offers is sent for approval. Whatever the user does and in whatever
  order the answers come, when a click adds a request that approves a tag, the page has loaded and shows
  the selector, and the tag is a text that is not empty and belongs to one of the options shown.
\<close>

theorem approves_offered_tag:
  assumes "gh_reachable g" "gh_user g h" "g_calls h = g_calls g @ [github_build_config_approveWorkflowRef t]"
  shows "selector_shown g \<and> offers (workflowTags g) t \<and> (\<exists>s. t = JStr s \<and> s \<noteq> [])"
proof -
  have s: "selection_ok g" using gh_reachable_ok [OF assms(1)] by simp
  have c: "selector_shown g \<and> t = selectedWorkflowTag g \<and> truthy t"
    using assms(2,3)
  proof (induction rule: gh_user.induct)
    case (click_approve g)
    then show ?case
      by (auto simp: onApproveWorkflowRef_def ask_def github_build_config_approveWorkflowRef_def default_config_def split: if_splits)
  qed (auto simp: gh_ops github_build_config_approveWorkflowRef_def github_build_config_get_def github_build_config_save_def
      github_build_config_generateKey_def github_build_config_syncSecret_def github_build_config_test_def
      github_build_config_dispatchTest_def default_config_def split: if_splits)
  then have o: "offers (workflowTags g) t" using s by (auto simp: selection_ok_def)
  then have "is_text t" using s by (auto simp: selection_ok_def offers_def list_ex_iff list_all_iff)
  then obtain u where "t = JStr u" by (cases t) auto
  then show ?thesis using c o by auto
qed

text \<open>A page that has loaded two tags, the first of them in use.\<close>

definition sample_config :: jsval where
  "sample_config = JObj [(''data'', JObj [(''repo'', JStr ''a/b''), (''workflow_ref'', JStr ''v1'')])]"

definition sample_tags :: jsval where
  "sample_tags =
     JObj [(''data'', JObj [(''tags'', JArr [JObj [(''tag'', JStr ''v1''), (''label'', JStr ''1'')],
                                           JObj [(''tag'', JStr ''v2''), (''label'', JStr ''2'')]])])]"

definition gh_ready :: gh where
  "gh_ready =
     gh_answered GhTags (Inr sample_tags)
       ((gh_answered GhConfig (Inr sample_config) ((gh_load gh_init)\<lparr>g_inflight := []\<rparr>))\<lparr>g_inflight := []\<rparr>)"

lemma gh_ready_reachable: "gh_reachable gh_ready"
proof -
  let ?a = "gh_answered GhConfig (Inr sample_config) ((gh_load gh_init)\<lparr>g_inflight := []\<rparr>)"
  have "gh_step (gh_load gh_init) ?a"
    using gh_answer [of GhConfig "gh_load gh_init" "Inr sample_config"] by (simp add: gh_load_def gh_init_def ask_def)
  moreover have "gh_step ?a gh_ready"
    using gh_answer [of GhTags ?a "Inr sample_tags"] by (simp add: gh_ready_def config_answered_def ask_def Let_def)
  ultimately show ?thesis unfolding gh_reachable_def by (meson rtranclp.rtrancl_into_rtrancl rtranclp.rtrancl_refl)
qed

lemma gh_ready_shape:
  "selectedWorkflowTag gh_ready = JStr ''v1''" "configError gh_ready = False" "workflowTagsState gh_ready = ''ready''"
  "g_approving gh_ready = False" "g_inflight gh_ready = []"
  by code_simp+

theorem approves_offered_tag_witness:
  "selector_shown gh_ready \<and> offers (workflowTags gh_ready) (JStr ''v1'') \<and> (\<exists>s. JStr ''v1'' = JStr s \<and> s \<noteq> [])"
proof (rule approves_offered_tag [OF gh_ready_reachable])
  show "gh_user gh_ready (onApproveWorkflowRef gh_ready)"
    by (rule click_approve) (simp_all add: selector_shown_def gh_ready_shape)
  show "g_calls (onApproveWorkflowRef gh_ready) = g_calls gh_ready @ [github_build_config_approveWorkflowRef (JStr ''v1'')]"
    by (simp add: onApproveWorkflowRef_def ask_def gh_ready_shape)
qed

text \<open>
  C37: The buttons of the page send one request at a time. In every state it can reach, an approval, a
  save, the generation of a key, its transfer, a test and a test build are each under way at most once,
  and exactly when the button carries its loading mark: no answer leaves a mark behind, and a failed
  call gives the button back.
\<close>

theorem buttons_follow_requests:
  assumes "gh_reachable g"
  shows "length (filter is_approve (g_inflight g)) = of_bool (g_approving g)
         \<and> count_list (g_inflight g) GhSave = of_bool (g_saving g) \<and> count_list (g_inflight g) GhGenerate = of_bool (g_generating g)
         \<and> count_list (g_inflight g) GhSync = of_bool (g_syncing g) \<and> count_list (g_inflight g) GhTest = of_bool (g_testing g)
         \<and> count_list (g_inflight g) GhDispatch = of_bool (g_dispatching g)"
  using gh_reachable_ok [OF assms] by (simp add: marks_ok_def pending_def count_filter)

theorem buttons_follow_requests_witness:
  "count_list (g_inflight gh_ready) GhSave = 0 \<and> \<not> g_saving gh_ready"
  using buttons_follow_requests [OF gh_ready_reachable] by (simp add: gh_ready_shape)

text \<open>
  A load that has been replaced still writes to the page. While the page loads, the button to load
  again is shown; when the second load has brought the tags and the first then fails, the page shows the
  error of the first in place of the tags it holds, with nothing under way that would correct it.
\<close>

lemma stale_load_hides_tags:
  "\<exists>g. gh_reachable g \<and> g_inflight g = [] \<and> workflowTags g \<noteq> [] \<and> configError g \<and> \<not> selector_shown g"
proof -
  let ?l = "gh_load gh_init"
  let ?r = "gh_load ?l"
  let ?c = "gh_answered GhConfig (Inr sample_config) (?r\<lparr>g_inflight := remove1 GhConfig (g_inflight ?r)\<rparr>)"
  let ?t = "gh_answered GhTags (Inr sample_tags) (?c\<lparr>g_inflight := remove1 GhTags (g_inflight ?c)\<rparr>)"
  let ?e = "gh_answered GhConfig (Inl JNull) (?t\<lparr>g_inflight := remove1 GhConfig (g_inflight ?t)\<rparr>)"
  have "gh_step ?l ?r" by (rule gh_click, rule click_retry) (simp add: selector_shown_def gh_load_def ask_def)
  moreover have "gh_step ?r ?c" by (rule gh_answer) (simp add: gh_load_def ask_def)
  moreover have "gh_step ?c ?t" by (rule gh_answer) (simp add: config_answered_def ask_def Let_def)
  moreover have "gh_step ?t ?e" by (rule gh_answer) code_simp
  ultimately have "gh_reachable ?e" unfolding gh_reachable_def by (meson rtranclp.rtrancl_into_rtrancl rtranclp.rtrancl_refl)
  moreover have "g_inflight ?e = [] \<and> workflowTags ?e \<noteq> [] \<and> configError ?e \<and> \<not> selector_shown ?e" by code_simp
  ultimately show ?thesis by blast
qed

end
