(* ===== verification/Account.thy ===== *)
theory Account
  imports Permission Crud
begin

text \<open>
  The pages of an account: signing in (\<open>views/login/login.vue\<close>), registering
  (\<open>views/register/index.vue\<close>), the dialog that changes the password
  (\<open>components/changePwdDialog.vue\<close>), the profile (\<open>views/my/info.vue\<close>) and the two pages that confirm
  a device or bind an identity (\<open>views/oauth/login.vue\<close>, \<open>views/oauth/bind.vue\<close>). They work on the
  session of the user store and push paths, which the navigation guard then decides about.
\<close>

definition emit_call :: "config \<Rightarrow> session \<Rightarrow> session" where
  "emit_call c s = s\<lparr>issued := issued s @ [c]\<rparr>"

subsection \<open>The sign-in page\<close>

text \<open>\<open>navigator.platform.indexOf(p) === 0\<close> and the tests of the user agent, without regard to case.\<close>

definition platform_of :: "string \<Rightarrow> string" where
  "platform_of pf =
     (if startsWith pf ''Mac'' then ''mac''
      else if startsWith pf ''Win'' then ''windows''
      else if startsWith pf ''Linux armv'' then ''android''
      else if startsWith pf ''Linux'' then ''linux'' else pf)"

definition browser_of :: "string \<Rightarrow> string" where
  "browser_of ua =
     (let has = str_includes (toLowerCase ua)
      in if has ''chrome'' \<or> has ''crios'' then ''Chrome''
         else if has ''firefox'' \<or> has ''fxios'' then ''Firefox''
         else if has ''safari'' \<and> \<not> has ''chrome'' then ''Safari''
         else if has ''edg'' then ''Edge'' else ''Unknown Browser'')"

record login_page =
  l_session :: session
  l_username :: string
  l_password :: string
  l_captcha :: string
  captcha_id :: jsval
  l_agent :: string
  l_platform :: string
  captchaCode :: jsval
  l_options :: "string list"
  allowRegister :: jsval
  disablePwd :: jsval
  redirect :: "string option"
  l_toasts :: "toast list"
  l_pushed :: "string list"

definition login_setup :: "string \<Rightarrow> string \<Rightarrow> string option \<Rightarrow> session \<Rightarrow> login_page" where
  "login_setup ua pf r s =
     \<lparr>l_session = s, l_username = [], l_password = [], l_captcha = [], captcha_id = JStr '''', l_agent = ua,
      l_platform = platform_of pf, captchaCode = JStr '''', l_options = [], allowRegister = JBool False,
      disablePwd = JBool False, redirect = r, l_toasts = [], l_pushed = []\<rparr>"

definition login_form :: "login_page \<Rightarrow> obj" where
  "login_form p =
     [(''username'', JStr (l_username p)), (''password'', JStr (l_password p)), (''platform'', JStr (l_platform p)),
      (''captcha'', JStr (l_captcha p)), (''captcha_id'', captcha_id p)]"

text \<open>\<open>redirect || '/dashboard'\<close>.\<close>

definition landing :: "login_page \<Rightarrow> string" where
  "landing p = (case redirect p of Some r \<Rightarrow> if r \<noteq> [] then r else ''/dashboard'' | None \<Rightarrow> ''/dashboard'')"

definition land :: "login_page \<Rightarrow> login_page" where
  "land p = p\<lparr>l_toasts := l_toasts p @ [Success ''LoginSuccess''], l_pushed := l_pushed p @ [landing p]\<rparr>"

definition loadCaptcha :: "login_page \<Rightarrow> login_page" where
  "loadCaptcha p = p\<lparr>l_session := emit_call login_captcha (l_session p)\<rparr>"

text \<open>A refused call makes the property access raise; nothing is shown then.\<close>

definition captcha_answered :: "jsval option \<Rightarrow> login_page \<Rightarrow> login_page" where
  "captcha_answered res p =
     (case res of
        None \<Rightarrow> p
      | Some c \<Rightarrow>
          (let p = p\<lparr>captchaCode := c\<rparr> in if nullish c then p else p\<lparr>captcha_id := opt_prop c ''id''\<rparr>))"

text \<open>\<open>login\<close>: the call and its answer. A rejection without a code counts as a success.\<close>

definition click_login :: "login_page \<Rightarrow> login_page" where
  "click_login p = p\<lparr>l_session := emit_call (user_login (JObj (login_form p))) (l_session p)\<rparr>"

definition login_answered :: "jsval \<Rightarrow> user_data option \<Rightarrow> login_page \<Rightarrow> login_page" where
  "login_answered code payload p =
     (let (res, s) = login code payload (l_session p);
          p = p\<lparr>l_session := s\<rparr>
      in case res of
           Inr _ \<Rightarrow> land p
         | Inl LoginTypeError \<Rightarrow> land p
         | Inl (Rejected c) \<Rightarrow> if c = JNum 110 then loadCaptcha p else p)"

text \<open>\<open>userStore.oidc\<close> with the provider the page passes, which is \<open>undefined\<close> when there is none.\<close>

definition handleOIDCLogin :: "jsval \<Rightarrow> int \<Rightarrow> (string \<times> string) option \<Rightarrow> login_page \<Rightarrow> login_page" where
  "handleOIDCLogin provider now res p =
     (let req = JObj (put (as_obj (oidc_request (l_agent p) [] (l_platform p) (browser_of (l_agent p)))) ''op'' provider);
          s = emit_call (login_oidcAuth req) (l_session p)
      in p\<lparr>l_session := (case res of
                          Some (code, link) \<Rightarrow> s\<lparr>stored := setCode now code (stored s), opened := opened s @ [link]\<rparr>
                        | None \<Rightarrow> s)\<rparr>)"

record login_options =
  lo_ops :: "string list"
  lo_auto_oidc :: jsval
  lo_disable_pwd :: jsval
  lo_register :: jsval
  lo_need_captcha :: jsval

definition loadLoginOptions :: "login_page \<Rightarrow> login_page" where
  "loadLoginOptions p = p\<lparr>l_session := emit_call login_loginOptions (l_session p)\<rparr>"

definition options_answered ::
    "login_options option \<Rightarrow> int \<Rightarrow> (string \<times> string) option \<Rightarrow> login_page \<Rightarrow> login_page" where
  "options_answered res now auth p =
     (case res of
        None \<Rightarrow> p
      | Some lo \<Rightarrow>
          (let p = p\<lparr>l_options := l_options p @ lo_ops lo\<rparr>;
               p = (if truthy (lo_auto_oidc lo)
                    then handleOIDCLogin (case lo_ops lo of [] \<Rightarrow> JUndef | q # _ \<Rightarrow> JStr q) now auth p else p);
               p = p\<lparr>disablePwd := lo_disable_pwd lo, allowRegister := lo_register lo\<rparr>
           in if truthy (lo_need_captcha lo) then loadCaptcha p else p))"

text \<open>
  \<open>onMounted\<close>: a stored code of a sign-in by OIDC is exchanged for the user; otherwise the options are
  loaded. \<open>res\<close> is the answer to the exchange.
\<close>

definition login_mounted :: "int \<Rightarrow> user_data option \<Rightarrow> login_page \<Rightarrow> login_page" where
  "login_mounted now res p =
     (let (code, st) = getCode now (stored (l_session p));
          p = p\<lparr>l_session := (l_session p)\<lparr>stored := st\<rparr>\<rparr>
      in case code of
           Some c \<Rightarrow>
             if c = [] then loadLoginOptions p
             else
               (case query c res (l_session p) of
                  (Some _, s) \<Rightarrow> land (p\<lparr>l_session := s\<lparr>stored := removeCode (stored s)\<rparr>\<rparr>)
                | (None, s) \<Rightarrow> p\<lparr>l_session := s\<rparr>)
         | None \<Rightarrow> loadLoginOptions p)"

definition providerImageMap :: "string \<rightharpoonup> string" where
  "providerImageMap =
     map_of [(''google'', ''google.png''), (''github'', ''github.png''), (''oidc'', ''oidc.png''), (''default'', ''oidc.png'')]"

definition getProviderImage :: "string \<Rightarrow> string" where
  "getProviderImage provider =
     (case providerImageMap (toLowerCase provider) of Some i \<Rightarrow> i | None \<Rightarrow> ''oidc.png'')"

definition go_register :: "login_page \<Rightarrow> login_page" where
  "go_register p = p\<lparr>l_pushed := l_pushed p @ [''/register'']\<rparr>"

subsection \<open>Forms with rules\<close>

text \<open>
  A form of the component library is checked rule by rule: \<open>validate rules v\<close> is its verdict on a field.
\<close>

datatype rule = Required | Check "string \<Rightarrow> bool"

fun rule_ok :: "string \<Rightarrow> rule \<Rightarrow> bool" where
  "rule_ok v Required = (v \<noteq> [])"
| "rule_ok v (Check c) = c v"

record register_form =
  r_username :: string
  r_email :: string
  r_password :: string
  r_confirm :: string

definition register_rules :: "register_form \<Rightarrow> (string \<times> rule list) list" where
  "register_rules f =
     [(r_username f, [Required]), (r_password f, [Required]), (r_confirm f, [Required, Check (\<lambda>v. v = r_password f)])]"

definition register_payload :: "register_form \<Rightarrow> jsval" where
  "register_payload f =
     JObj [(''username'', JStr (r_username f)), (''email'', JStr (r_email f)), (''password'', JStr (r_password f)),
           (''confirm_password'', JStr (r_confirm f))]"

text \<open>\<open>submit\<close> of the registration: the session, the messages and the paths pushed.\<close>

definition register_submit ::
    "(rule list \<Rightarrow> string \<Rightarrow> bool) \<Rightarrow> register_form \<Rightarrow> user_data option \<Rightarrow> session \<Rightarrow> session \<times> toast list \<times> string list" where
  "register_submit validate f res s =
     (if \<not> list_all (\<lambda>(v, rs). validate rs v) (register_rules f) then (s, [], [])
      else
        (let s = emit_call (user_register (register_payload f)) s
         in case res of
              None \<Rightarrow> (s, [], [])
            | Some ud \<Rightarrow>
                (let s = saveUserData ud s
                 in (s\<lparr>issued := issued s @ load_config_calls\<rparr>, [Success ''Submit''], [''/''] ))))"

definition toLogin :: "string list" where
  "toLogin = [''/login'']"

subsection \<open>Changing the password\<close>

record pwd_form =
  old_password :: string
  new_password :: string
  confirmPwd :: string

record pwd_dialog =
  pwd_visible :: bool
  changePwdForm :: pwd_form
  alert_open :: bool
  pwd_session :: session
  pwd_pushed :: "string list"

definition empty_pwd :: pwd_form where
  "empty_pwd = \<lparr>old_password = [], new_password = [], confirmPwd = []\<rparr>"

definition showChangePwd :: "pwd_dialog \<Rightarrow> pwd_dialog" where
  "showChangePwd d = d\<lparr>pwd_visible := True, changePwdForm := empty_pwd\<rparr>"

definition cancelChangePwd :: "pwd_dialog \<Rightarrow> pwd_dialog" where
  "cancelChangePwd d = d\<lparr>pwd_visible := False\<rparr>"

definition pwd_rules :: "pwd_form \<Rightarrow> (string \<times> rule list) list" where
  "pwd_rules f =
     [(old_password f, [Required]), (new_password f, [Required, Check (\<lambda>v. v \<noteq> old_password f)]),
      (confirmPwd f, [Required, Check (\<lambda>v. v = new_password f)])]"

definition pwd_payload :: "pwd_form \<Rightarrow> jsval" where
  "pwd_payload f =
     JObj [(''old_password'', JStr (old_password f)), (''new_password'', JStr (new_password f)), (''confirmPwd'', JStr (confirmPwd f))]"

definition changePassword :: "(rule list \<Rightarrow> string \<Rightarrow> bool) \<Rightarrow> bool \<Rightarrow> bool \<Rightarrow> pwd_dialog \<Rightarrow> pwd_dialog" where
  "changePassword validate confirmed ok d =
     (if \<not> list_all (\<lambda>(v, rs). validate rs v) (pwd_rules (changePwdForm d)) \<or> \<not> confirmed then d
      else
        (let d = d\<lparr>pwd_session := emit_call (user_changeCurPwd (pwd_payload (changePwdForm d))) (pwd_session d)\<rparr>
         in if ok then d\<lparr>alert_open := True\<rparr> else d))"

text \<open>The callback of the alert: \<open>await userStore.logout()\<close>, then the sign-in page.\<close>

definition pwd_alert_closed :: "bool \<Rightarrow> pwd_dialog \<Rightarrow> pwd_dialog" where
  "pwd_alert_closed revoked d =
     d\<lparr>alert_open := False, pwd_session := logout_answered revoked (logout (pwd_session d)),
       pwd_pushed := pwd_pushed d @ [''/login'']\<rparr>"

subsection \<open>The profile\<close>

record profile =
  p_session :: session
  p_nickname :: string
  p_email :: string
  p_saving :: bool
  oidcData :: jsval
  changePwdVisible :: bool
  p_opened :: "string list"
  p_toasts :: "toast list"

definition getMyOauth :: "profile \<Rightarrow> profile" where
  "getMyOauth p = p\<lparr>p_session := emit_call user_myOauth (p_session p)\<rparr>"

definition myOauth_answered :: "jsval option \<Rightarrow> profile \<Rightarrow> profile" where
  "myOauth_answered res p = (case res of None \<Rightarrow> p | Some data \<Rightarrow> p\<lparr>oidcData := data\<rparr>)"

definition profile_setup :: "session \<Rightarrow> profile" where
  "profile_setup s =
     getMyOauth
       \<lparr>p_session = s, p_nickname = nickname (store s), p_email = email (store s), p_saving = False, oidcData = JArr [],
        changePwdVisible = False, p_opened = [], p_toasts = []\<rparr>"

definition profile_showChangePwd :: "profile \<Rightarrow> profile" where
  "profile_showChangePwd p = p\<lparr>changePwdVisible := True\<rparr>"

definition saveProfile :: "profile \<Rightarrow> profile" where
  "saveProfile p =
     p\<lparr>p_saving := True,
       p_session := emit_call (user_updateCurrent (JObj [(''nickname'', JStr (p_nickname p)), (''email'', JStr (p_email p))])) (p_session p)\<rparr>"

text \<open>\<open>res && !res.code\<close>: after a success the user is read again, and with him the form.\<close>

definition saveProfile_answered :: "jsval \<Rightarrow> user_data option \<Rightarrow> profile \<Rightarrow> profile" where
  "saveProfile_answered res current p =
     (let p = p\<lparr>p_saving := False\<rparr>
      in if truthy res \<and> \<not> truthy (opt_prop res ''code'') then
           (let s = snd (info current (p_session p))
            in p\<lparr>p_toasts := p_toasts p @ [Success ''OperationSuccess''], p_session := s,
                 p_nickname := nickname (store s), p_email := email (store s)\<rparr>)
         else
           (let m = js_or (js_or (opt_prop res ''msg'') (opt_prop res ''message'')) (JStr ''OperationFailed'')
            in p\<lparr>p_toasts := p_toasts p @ [Error (toStr m)]\<rparr>))"

definition toBind :: "jsval \<Rightarrow> string option \<Rightarrow> profile \<Rightarrow> profile" where
  "toBind oper res p =
     (let p = p\<lparr>p_session := emit_call (oauth_bind (JObj [(''op'', oper)])) (p_session p)\<rparr>
      in case res of None \<Rightarrow> p | Some link \<Rightarrow> p\<lparr>p_opened := p_opened p @ [link]\<rparr>)"

definition toUnBind :: "jsval \<Rightarrow> bool \<Rightarrow> bool \<Rightarrow> profile \<Rightarrow> profile" where
  "toUnBind oper confirmed ok p =
     (if \<not> confirmed then p
      else
        (let p = p\<lparr>p_session := emit_call (oauth_unbind (JObj [(''op'', oper)])) (p_session p)\<rparr>
         in if ok then getMyOauth p else p))"

subsection \<open>Confirming a device, binding an identity\<close>

text \<open>\<open>Confirm\<close> is the page that lets a device sign in, \<open>Bind\<close> the one that binds an identity.\<close>

datatype oauth_kind = Confirm | Bind

record oauth_page =
  o_code :: jsval
  oauthInfo :: jsval
  resStatus :: nat
  o_calls :: "config list"
  o_pushed :: "string list"
  o_toasts :: "toast list"
  close_timers :: nat
  o_closed :: bool

definition oauth_params :: "oauth_page \<Rightarrow> jsval" where
  "oauth_params p = JObj [(''code'', o_code p)]"

definition getInfo :: "oauth_page \<Rightarrow> oauth_page" where
  "getInfo p = p\<lparr>o_calls := o_calls p @ [oauth_info (oauth_params p)]\<rparr>"

definition oauth_setup :: "oauth_kind \<Rightarrow> jsval \<Rightarrow> oauth_page" where
  "oauth_setup k code =
     getInfo
       \<lparr>o_code = code, oauthInfo = JObj [], resStatus = 0, o_calls = [],
        o_pushed = (if k = Bind \<and> \<not> truthy code then [''/''] else []), o_toasts = [], close_timers = 0, o_closed = False\<rparr>"

definition info_answered :: "oauth_kind \<Rightarrow> jsval option \<Rightarrow> oauth_page \<Rightarrow> oauth_page" where
  "info_answered k res p =
     (case res of
        Some data \<Rightarrow> p\<lparr>oauthInfo := data\<rparr>
      | None \<Rightarrow> if k = Bind then p\<lparr>o_pushed := o_pushed p @ [''/'']\<rparr> else p)"

text \<open>The button is shown until the answer to a confirmation has come.\<close>

definition toConfirm :: "oauth_kind \<Rightarrow> oauth_page \<Rightarrow> oauth_page" where
  "toConfirm k p =
     p\<lparr>o_calls := o_calls p @ [(case k of Confirm \<Rightarrow> oauth_confirm | Bind \<Rightarrow> oauth_bindConfirm) (oauth_params p)]\<rparr>"

definition confirm_answered :: "oauth_kind \<Rightarrow> jsval option \<Rightarrow> oauth_page \<Rightarrow> oauth_page" where
  "confirm_answered k res p =
     (case res of
        None \<Rightarrow> p
      | Some data \<Rightarrow>
          (let p = p\<lparr>resStatus := 1\<rparr>
           in if k = Bind \<and> opt_prop data ''device_type'' = JStr ''webadmin''
              then p\<lparr>o_toasts := o_toasts p @ [Success ''OperationSuccess''], o_pushed := o_pushed p @ [''/'']\<rparr>
              else p\<lparr>o_toasts := o_toasts p @ [Success ''OperationSuccessAndCloseAfter3Seconds''], close_timers := close_timers p + 1\<rparr>))"

definition close_out :: "oauth_page \<Rightarrow> oauth_page" where
  "close_out p = p\<lparr>o_closed := True\<rparr>"

definition close_timer_fired :: "oauth_page \<Rightarrow> oauth_page" where
  "close_timer_fired p = close_out (p\<lparr>close_timers := close_timers p - 1\<rparr>)"

subsection \<open>Lemmas\<close>

lemma oidc_by_name:
  "handleOIDCLogin (JStr provider) now res p =
     p\<lparr>l_session := oidc (l_agent p) provider (l_platform p) (browser_of (l_agent p)) now res (l_session p)\<rparr>"
  by (simp add: handleOIDCLogin_def oidc_def oidc_request_def emit_call_def Let_def split: option.split)

text \<open>An agent that names Chrome, as that of Edge does, is never taken for Edge.\<close>

lemma edge_never_told: "str_includes (toLowerCase ua) ''chrome'' \<Longrightarrow> browser_of ua = ''Chrome''"
  by (simp add: browser_of_def)

text \<open>A code whose exchange is refused stays, and the options of the page are not asked for.\<close>

lemma refused_code_stays:
  assumes "getCode now (stored (l_session p)) = (Some c, stored (l_session p))" "c \<noteq> []"
  shows "stored (l_session (login_mounted now None p)) = stored (l_session p)
    \<and> issued (l_session (login_mounted now None p)) = issued (l_session p) @ [login_oidcQuery (JObj [(''code'', JStr c), (''uuid'', JStr [])])]"
  using assms by (simp add: login_mounted_def query_def)

text \<open>A login answered with code zero and no user counts as a success and leaves nobody signed in.\<close>

lemma login_without_user:
  "\<not> signed_in (l_session p) \<Longrightarrow>
   l_toasts (login_answered (JNum 0) None p) = l_toasts p @ [Success ''LoginSuccess'']
   \<and> \<not> signed_in (l_session (login_answered (JNum 0) None p))"
  by (simp add: login_answered_def login_def land_def landing_def signed_in_def Let_def)

lemma saveUserData_signed_in: "ud_token ud \<noteq> [] \<Longrightarrow> signed_in (saveUserData ud s)"
  by (simp add: signed_in_def)

subsection \<open>Properties\<close>

text \<open>
  C14: Signing in leads to the page asked for. When the server accepts a login with a token and at least
  one route name, the sign-in page reports success and pushes the target of the redirection (or the
  dashboard), and the navigation guard lets that navigation settle there at once, without another call,
  whatever the server would answer now.
\<close>

theorem login_reaches_target:
  assumes "ud_token ud \<noteq> []" "ud_route_names ud \<noteq> []"
  shows "let q = login_answered (JNum 0) (Some ud) p
    in l_pushed q = l_pushed p @ [landing p] \<and> l_toasts q = l_toasts p @ [Success ''LoginSuccess'']
    \<and> navigate (Suc n) current revoked (landing p) (l_session q) = Some (landing p, l_session q)"
proof -
  let ?q = "login_answered (JNum 0) (Some ud) p"
  have "signed_in (l_session ?q)" "route_names (store (l_session ?q)) \<noteq> []"
    using assms(1,2) by (simp_all add: login_answered_def login_def land_def landing_def Let_def saveUserData_signed_in)
  then have "navigate (Suc n) current revoked (landing p) (l_session ?q) = Some (landing p, l_session ?q)"
    by (simp add: before_each_known)
  then show ?thesis by (simp add: login_answered_def login_def land_def landing_def Let_def)
qed

theorem login_reaches_target_witness:
  "let q = login_answered (JNum 0) (Some sample_user) (login_setup ''x'' ''Win32'' (Some ''/my/tag'') (init_session Map.empty))
   in l_pushed q = [''/my/tag''] \<and> navigate 1 None False ''/my/tag'' (l_session q) = Some (''/my/tag'', l_session q)"
  using login_reaches_target [of sample_user "login_setup ''x'' ''Win32'' (Some ''/my/tag'') (init_session Map.empty)" 0 None False]
  by (simp add: Let_def landing_def login_setup_def sample_user_def)

text \<open>
  A password is changed only to one that was typed twice and is new, and the change ends the session.
  Given that the forms check their rules, the call is made only when the old and the new password are
  not empty, the new one differs from the old and the confirmation equals it; and when the message about
  the success is closed, the token is gone, whether or not the server revoked it, and the sign-in page
  is shown.
\<close>

lemma password_change:
  assumes "\<And>rs v. validate rs v \<Longrightarrow> list_all (rule_ok v) rs"
    and "changePassword validate confirmed ok d \<noteq> d" "pendingLogout (pwd_session d) = None"
    and "signed_in (pwd_session d)"
  defines f: "f \<equiv> changePwdForm d"
  shows "confirmed \<and> old_password f \<noteq> [] \<and> new_password f \<noteq> [] \<and> new_password f \<noteq> old_password f
      \<and> confirmPwd f = new_password f
    \<and> (let e = pwd_alert_closed revoked (changePassword validate confirmed ok d)
       in \<not> signed_in (pwd_session e) \<and> store (pwd_session e) = init_user_state \<and> last (pwd_pushed e) = ''/login'')"
proof -
  have c: "confirmed" "list_all (\<lambda>(v, rs). validate rs v) (pwd_rules f)"
    using assms(2) by (auto simp: changePassword_def f split: if_splits)
  have g: "old_password f \<noteq> [] \<and> new_password f \<noteq> [] \<and> new_password f \<noteq> old_password f \<and> confirmPwd f = new_password f"
    using c(2) assms(1) by (fastforce simp: pwd_rules_def)
  let ?s = "pwd_session (changePassword validate confirmed ok d)"
  have s: "stored ?s = stored (pwd_session d)" "store ?s = store (pwd_session d)" "pendingLogout ?s = pendingLogout (pwd_session d)"
    by (simp_all add: changePassword_def emit_call_def Let_def)
  have "effective_token (token (store ?s)) (stored ?s) \<noteq> None"
    using assms(4) s by (auto simp: signed_in_def effective_token_def)
  then show ?thesis using c(1) g assms(3) s
    by (auto simp: pwd_alert_closed_def logout_def logout_answered_def signed_in_def Let_def f)
qed

definition checks :: "rule list \<Rightarrow> string \<Rightarrow> bool" where
  "checks rs v = list_all (rule_ok v) rs"

text \<open>What is registered has a name and a password that was typed twice.\<close>

lemma registers_matching_passwords:
  assumes "\<And>rs v. validate rs v \<Longrightarrow> list_all (rule_ok v) rs" "register_submit validate f res s \<noteq> (s, [], [])"
  shows "r_username f \<noteq> [] \<and> r_password f \<noteq> [] \<and> r_confirm f = r_password f"
proof -
  have "list_all (\<lambda>(v, rs). validate rs v) (register_rules f)"
    using assms(2) by (auto simp: register_submit_def split: if_splits)
  then show ?thesis using assms(1) by (fastforce simp: register_rules_def)
qed

end
