(* ===== verification/Dashboard.thy ===== *)
theory Dashboard
  imports Api JsDouble
begin

text \<open>
  The dashboard (\<open>views/index/index.vue\<close>) and its panel about the servers
  (\<open>components/dashboard/ServerHealth.vue\<close>), which asks for their state every fifteen seconds. A number
  of the answer is a non-negative double (theory \<open>JsDouble\<close>); a quotient by a power of two is exact.
\<close>

subsection \<open>Texts\<close>

definition fraction :: "dbl \<Rightarrow> int \<times> int" where
  "fraction x = (case x of (m, s) \<Rightarrow> (case scale 1 1 s of (p, q) \<Rightarrow> (m * q, p)))"

definition is_zero :: "dbl \<Rightarrow> bool" where
  "is_zero x \<longleftrightarrow> fst x = 0"

text \<open>\<open>x / 1024\<close>, and the comparison \<open>k \<le> x\<close>.\<close>

definition kilo :: "dbl \<Rightarrow> dbl" where
  "kilo x = (fst x, snd x + 10)"

definition at_least :: "int \<Rightarrow> dbl \<Rightarrow> bool" where
  "at_least k x = (case fraction x of (a, b) \<Rightarrow> k * b \<le> a)"

text \<open>\<open>x.toFixed(f)\<close>: the decimal nearest to the exact value, the larger of two.\<close>

definition toFixed :: "nat \<Rightarrow> dbl \<Rightarrow> string" where
  "toFixed f x =
     (let (a, b) = fraction x; n = (2 * a * 10 ^ f + b) div (2 * b)
      in if f = 0 then show_int n else show_int (n div 10 ^ f) @ ''.'' @ fixed_digits f (n mod 10 ^ f))"

definition fmtDuration :: "int \<Rightarrow> string" where
  "fmtDuration seconds =
     (if seconds = 0 then ''-''
      else
        (let h = seconds div 3600; m = seconds mod 3600 div 60
         in if h > 0 then show_int h @ ''h '' @ show_int m @ ''m'' else show_int m @ ''m''))"

definition fmtTotal :: "dbl \<Rightarrow> string" where
  "fmtTotal mb =
     (if is_zero mb then ''-''
      else if at_least 1024 mb then toFixed 1 (kilo mb) @ '' GB'' else show_int (dround_int mb) @ '' MB'')"

definition fmtSpeed :: "dbl \<Rightarrow> string" where
  "fmtSpeed kbps =
     (if is_zero kbps then ''0 kb/s''
      else if at_least 1024 kbps then toFixed 1 (kilo kbps) @ '' Mb/s'' else toFixed 1 kbps @ '' kb/s'')"

definition fmtMbps :: "dbl \<Rightarrow> string" where
  "fmtMbps v = (if is_zero v then ''unlimited'' else toFixed (if at_least 10 v then 0 else 1) v @ '' Mb/s'')"

definition fmtKbps :: "dbl \<Rightarrow> string" where
  "fmtKbps kbps =
     (if is_zero kbps then ''0 kb/s''
      else if at_least 1024 kbps then toFixed 1 (kilo kbps) @ '' Mb/s'' else show_int (dround_int kbps) @ '' kb/s'')"

text \<open>Both the division and the multiplication by a hundred round.\<close>

definition bwPct :: "dbl \<Rightarrow> dbl \<Rightarrow> int" where
  "bwPct kbps limitMbps =
     (if is_zero limitMbps then 0
      else
        (case (fraction kbps, fraction limitMbps) of
           ((a, b), (c, d)) \<Rightarrow> min 100 (dround_int (dmul_int (ddiv (a * d) (b * (c * 1024))) 100))))"

subsection \<open>The panel\<close>

record server =
  sv_online :: bool
  sv_port :: int

record health =
  h_id_server :: "server option"
  h_relay_server :: "server option"
  h_active_connections :: int
  h_total_bandwidth :: dbl
  h_single_bandwidth :: dbl
  h_limit_speed :: dbl
  h_current_total_kbps :: dbl
  h_current_peak_kbps :: dbl
  h_usage :: "obj list option"

record panel =
  idOnline :: bool
  relayOnline :: bool
  activeConnections :: int
  totalBW :: dbl
  singleBW :: dbl
  limitSpeed :: dbl
  currentTotalKbps :: dbl
  currentPeakKbps :: dbl
  usage :: "obj list"
  extraCount :: int
  s_loading :: bool
  s_error :: bool
  idPort :: int
  relayPort :: int
  countdown :: nat
  ticking :: bool
  asked :: "config list"
  waiting :: nat

definition REFRESH_SECONDS :: nat where "REFRESH_SECONDS = 15"

definition health_load :: "panel \<Rightarrow> panel" where
  "health_load p = p\<lparr>asked := asked p @ [dashboard_health], waiting := waiting p + 1\<rparr>"

definition port_or :: "int \<Rightarrow> server option \<Rightarrow> int" where
  "port_or old s = (case s of Some sv \<Rightarrow> if sv_port sv \<noteq> 0 then sv_port sv else old | None \<Rightarrow> old)"

definition online :: "server option \<Rightarrow> bool" where
  "online s = (case s of Some sv \<Rightarrow> sv_online sv | None \<Rightarrow> False)"

text \<open>The answer, \<open>None\<close> when the call fails; \<open>res.data || {}\<close> with its fields is \<open>health\<close>.\<close>

definition health_answered :: "health option \<Rightarrow> panel \<Rightarrow> panel" where
  "health_answered res p =
     (let p = p\<lparr>waiting := waiting p - 1\<rparr>;
          p = (case res of
                 None \<Rightarrow> p\<lparr>s_error := True\<rparr>
               | Some d \<Rightarrow>
                   (let us = (case h_usage d of Some us \<Rightarrow> us | None \<Rightarrow> [])
                    in p\<lparr>idOnline := online (h_id_server d), relayOnline := online (h_relay_server d),
                         idPort := port_or (idPort p) (h_id_server d), relayPort := port_or (relayPort p) (h_relay_server d),
                         activeConnections := h_active_connections d, totalBW := h_total_bandwidth d,
                         singleBW := h_single_bandwidth d, limitSpeed := h_limit_speed d,
                         currentTotalKbps := h_current_total_kbps d, currentPeakKbps := h_current_peak_kbps d,
                         usage := us, extraCount := max 0 (h_active_connections d - int (length us)), s_error := False\<rparr>))
      in p\<lparr>s_loading := False, countdown := REFRESH_SECONDS\<rparr>)"

definition refreshNow :: "panel \<Rightarrow> panel" where
  "refreshNow p = health_load (p\<lparr>countdown := REFRESH_SECONDS\<rparr>)"

text \<open>Mounting asks and starts the interval, whose callback is \<open>health_tick\<close>.\<close>

definition health_mounted :: panel where
  "health_mounted =
     health_load
       \<lparr>idOnline = False, relayOnline = False, activeConnections = 0, totalBW = (0, 0), singleBW = (0, 0), limitSpeed = (0, 0),
        currentTotalKbps = (0, 0), currentPeakKbps = (0, 0), usage = [], extraCount = 0, s_loading = True, s_error = False,
        idPort = 21115, relayPort = 21117, countdown = REFRESH_SECONDS, ticking = True, asked = [], waiting = 0\<rparr>"

definition health_tick :: "panel \<Rightarrow> panel" where
  "health_tick p = (if countdown p > 1 then p\<lparr>countdown := countdown p - 1\<rparr> else health_load p)"

definition health_unmounted :: "panel \<Rightarrow> panel" where
  "health_unmounted p = p\<lparr>ticking := False\<rparr>"

inductive panel_step :: "panel \<Rightarrow> panel \<Rightarrow> bool" where
  second: "ticking p \<Longrightarrow> panel_step p (health_tick p)"
| refresh: "ticking p \<Longrightarrow> panel_step p (refreshNow p)"
| health: "waiting p > 0 \<Longrightarrow> panel_step p (health_answered res p)"
| unmount: "ticking p \<Longrightarrow> panel_step p (health_unmounted p)"

definition panel_reachable :: "panel \<Rightarrow> bool" where
  "panel_reachable p = panel_step\<^sup>*\<^sup>* health_mounted p"

subsection \<open>The page\<close>

record home =
  stats :: jsval
  recentLogs :: jsval
  home_loading :: bool
  quickId :: string
  home_calls :: "config list"
  home_opened :: "string list"
  connected :: "string list"

definition home_init :: home where
  "home_init =
     \<lparr>stats = JObj [(''total_users'', JNum 0), (''total_peers'', JNum 0), (''online_peers'', JNum 0), (''total_groups'', JNum 0),
                   (''total_logins'', JNum 0), (''recent_logins'', JNum 0)],
      recentLogs = JArr [], home_loading = True, quickId = [], home_calls = [dashboard_stats], home_opened = [], connected = []\<rparr>"

text \<open>\<open>loadData\<close>: the numbers, then the last logins; a failure of either ends it.\<close>

definition stats_answered :: "jsval option \<Rightarrow> home \<Rightarrow> home" where
  "stats_answered res h =
     (case res of
        None \<Rightarrow> h\<lparr>home_loading := False\<rparr>
      | Some data \<Rightarrow>
          h\<lparr>stats := data, home_calls := home_calls h @ [login_log_list (JObj [(''page'', JNum 1), (''page_size'', JNum 10)])]\<rparr>)"

definition logs_answered :: "jsval option \<Rightarrow> home \<Rightarrow> home" where
  "logs_answered res h =
     (let h = h\<lparr>home_loading := False\<rparr>
      in case res of None \<Rightarrow> h | Some rows \<Rightarrow> h\<lparr>recentLogs := js_or rows (JArr [])\<rparr>)"

definition connectNative :: "home \<Rightarrow> home" where
  "connectNative h = (let d = trim (quickId h) in if d \<noteq> [] then h\<lparr>connected := connected h @ [d]\<rparr> else h)"

definition openWebClient :: "string \<Rightarrow> bool \<Rightarrow> home \<Rightarrow> home" where
  "openWebClient origin enabled h =
     (let d = trim (quickId h)
      in if d \<noteq> [] \<and> enabled then h\<lparr>home_opened := home_opened h @ [origin @ ''/webclient/#/'' @ d]\<rparr> else h)"

subsection \<open>Lemmas\<close>

definition panel_ok :: "panel \<Rightarrow> bool" where
  "panel_ok p \<longleftrightarrow>
     1 \<le> countdown p \<and> countdown p \<le> REFRESH_SECONDS \<and> extraCount p = max 0 (activeConnections p - int (length (usage p)))
     \<and> (s_loading p \<longrightarrow> waiting p > 0) \<and> waiting p \<le> length (asked p)"

lemma answered_ok: "panel_ok p \<Longrightarrow> panel_ok (health_answered res p)"
  by (cases res) (simp_all add: panel_ok_def health_answered_def REFRESH_SECONDS_def Let_def le_diff_conv)

lemma tick_ok: "panel_ok p \<Longrightarrow> panel_ok (health_tick p)"
  by (cases "countdown p > 1") (auto simp: panel_ok_def health_tick_def health_load_def)

lemma refresh_ok: "panel_ok p \<Longrightarrow> panel_ok (refreshNow p)"
  by (simp add: panel_ok_def refreshNow_def health_load_def REFRESH_SECONDS_def)

lemma panel_ok_step: "panel_step p q \<Longrightarrow> panel_ok p \<Longrightarrow> panel_ok q"
proof (induction rule: panel_step.induct)
  case (unmount p)
  then show ?case by (simp add: panel_ok_def health_unmounted_def)
qed (rule tick_ok refresh_ok answered_ok; assumption)+

lemma panel_ok_reachable: "panel_reachable p \<Longrightarrow> panel_ok p"
  unfolding panel_reachable_def
proof (induction rule: rtranclp_induct)
  case base
  show ?case by (simp add: panel_ok_def health_mounted_def health_load_def REFRESH_SECONDS_def)
next
  case (step p q)
  then show ?case by (blast intro: panel_ok_step)
qed

lemma scale_pos: "scale 1 1 s = (p, q) \<Longrightarrow> 0 < p \<and> 0 < q"
  by (auto simp: scale_def split: if_splits)

lemma fraction_nonneg: "0 \<le> fst x \<Longrightarrow> fraction x = (a, b) \<Longrightarrow> 0 \<le> a \<and> 0 < b"
  by (auto simp: fraction_def split: prod.splits dest!: scale_pos)

lemma fraction_pos: "0 < fst x \<Longrightarrow> fraction x = (a, b) \<Longrightarrow> 0 < a \<and> 0 < b"
  by (auto simp: fraction_def split: prod.splits dest!: scale_pos)

lemma scale_nonneg: "0 \<le> n \<Longrightarrow> 0 < d \<Longrightarrow> 0 \<le> fst (scale n d s) \<and> 0 < snd (scale n d s)"
  by (simp add: scale_def)

lemma round_half_even_nonneg: "0 \<le> a \<Longrightarrow> 0 < b \<Longrightarrow> 0 \<le> round_half_even a b"
  using pos_imp_zdiv_nonneg_iff [of b a] by (simp add: round_half_even_def Let_def)

lemma dround_nonneg:
  assumes "0 \<le> n" "0 < d"
  shows "0 \<le> fst (dround n d)"
proof (cases "n = 0")
  case False
  obtain m s where ms: "dround n d = (m, s)" by fastforce
  then have "m = round_half_even (fst (scale n d s)) (snd (scale n d s))"
    using False by (auto simp: dround_def Let_def split: prod.splits if_splits)
  then show ?thesis using scale_nonneg [OF assms, of s] ms by (simp add: round_half_even_nonneg)
qed (simp add: dround_def)

lemma dround_int_nonneg: "0 \<le> fst x \<Longrightarrow> 0 \<le> dround_int x"
proof -
  assume a: "0 \<le> fst x"
  obtain m s p q where x: "x = (m, s)" and pq: "scale 1 1 s = (p, q)" by (metis prod.exhaust)
  have "0 < p" "0 < q" using scale_pos [OF pq] by simp_all
  then have "0 \<le> (2 * m * q + p) div (2 * p)" using a x pos_imp_zdiv_nonneg_iff [of "2 * p" "2 * m * q + p"] by simp
  then show ?thesis by (simp add: dround_int_def x pq)
qed

lemma dmul_int_nonneg: "0 \<le> fst x \<Longrightarrow> 0 \<le> k \<Longrightarrow> 0 \<le> fst (dmul_int x k)"
proof -
  assume a: "0 \<le> fst x" "0 \<le> k"
  obtain m s p q where x: "x = (m, s)" and pq: "scale 1 1 s = (p, q)" by (metis prod.exhaust)
  have "0 < p" "0 < q" using scale_pos [OF pq] by simp_all
  then have "0 \<le> fst (dround (m * k * q) p)" using a x by (intro dround_nonneg) simp_all
  then show ?thesis by (simp add: dmul_int_def x pq)
qed

lemma ticks:
  "1 \<le> countdown p \<Longrightarrow>
   countdown ((health_tick ^^ k) p) = max 1 (countdown p - k)
   \<and> asked ((health_tick ^^ k) p) = asked p @ replicate (k + 1 - countdown p) dashboard_health"
proof (induction k)
  case (Suc k)
  let ?q = "(health_tick ^^ k) p"
  show ?case
  proof (cases "countdown p - k > 1")
    case True
    then show ?thesis using Suc by (simp add: health_tick_def)
  next
    case False
    then have "Suc k + 1 - countdown p = Suc (k + 1 - countdown p)" using Suc.prems by simp
    then show ?thesis using False Suc
      by (simp add: health_tick_def health_load_def replicate_append_same [symmetric])
  qed
qed simp

subsection \<open>Properties\<close>

text \<open>
  C38: The numbers the panel shows stay in their ranges. In every state it can reach, the countdown is
  between one and fifteen seconds, the number of further connections is what the total leaves beyond the
  rows shown and never negative, a panel that says it is loading waits for an answer, and the bars are
  between nothing and full for all rates and limits.
\<close>

theorem panel_ranges:
  assumes "panel_reachable p" "0 \<le> fst kbps" "0 \<le> fst limit"
  shows "1 \<le> countdown p \<and> countdown p \<le> 15 \<and> 0 \<le> extraCount p
    \<and> extraCount p = max 0 (activeConnections p - int (length (usage p))) \<and> (s_loading p \<longrightarrow> waiting p > 0)
    \<and> 0 \<le> bwPct kbps limit \<and> bwPct kbps limit \<le> 100"
proof -
  have "0 \<le> bwPct kbps limit" if z: "\<not> is_zero limit"
  proof -
    obtain a b c d where f: "fraction kbps = (a, b)" "fraction limit = (c, d)" by (metis prod.exhaust)
    have "0 \<le> a" "0 < b" using fraction_nonneg [OF assms(2) f(1)] by simp_all
    moreover have "0 < c" "0 < d" using fraction_pos [OF _ f(2)] assms(3) z by (simp_all add: is_zero_def)
    ultimately have "0 \<le> fst (ddiv (a * d) (b * (c * 1024)))" unfolding ddiv_def by (intro dround_nonneg) simp_all
    then show ?thesis using z f by (simp add: bwPct_def dround_int_nonneg dmul_int_nonneg)
  qed
  then have "0 \<le> bwPct kbps limit" by (cases "is_zero limit") (simp_all add: bwPct_def)
  moreover have "bwPct kbps limit \<le> 100" by (simp add: bwPct_def split: prod.split)
  ultimately show ?thesis using panel_ok_reachable [OF assms(1)] by (simp add: panel_ok_def REFRESH_SECONDS_def)
qed

theorem panel_ranges_witness:
  "1 \<le> countdown health_mounted \<and> 0 \<le> bwPct (300, 0) (1, 2) \<and> bwPct (300, 0) (1, 2) \<le> 100"
  using panel_ranges [of health_mounted "(300, 0)" "(1, 2)"] by (simp add: panel_reachable_def)

text \<open>
  C39: The panel asks again when its countdown has run out, and then every second until an answer comes.
  Of any number of seconds without an answer exactly those after the countdown make a request each: a
  server that takes long to answer is asked once a second.
\<close>

theorem unanswered_seconds:
  assumes "panel_reachable p"
  shows "length (asked ((health_tick ^^ k) p)) = length (asked p) + (k + 1 - countdown p)"
proof -
  have "1 \<le> countdown p" using panel_ok_reachable [OF assms] by (simp add: panel_ok_def)
  then show ?thesis using ticks [of p k] by simp
qed

theorem unanswered_seconds_witness: "length (asked ((health_tick ^^ 44) health_mounted)) = 31"
  using unanswered_seconds [of health_mounted 44]
  by (simp add: panel_reachable_def health_mounted_def health_load_def REFRESH_SECONDS_def)

end
