(* ===== verification/Management.thy ===== *)
theory Management
  imports AddressBook WebLinks Tags
begin

text \<open>
  Further parts of the administration console: the identity providers (\<open>views/oauth/index.vue\<close>), the user
  and device groups (\<open>views/group\<close>), the status switch of the user list (\<open>views/user/index.vue\<close>), the
  dialog that shares a device with the browser client (\<open>shareByWebClient.vue\<close>), the tab bar
  (\<open>layout/components/tags/index.vue\<close>), the filter bar and the cells of a table (\<open>components/ui\<close>).
\<close>

subsection \<open>Identity providers\<close>

definition provider_form :: obj where
  "provider_form =
     [(''id'', JNum 0), (''op'', JStr ''''), (''oauth_type'', JStr ''''), (''issuer'', JStr ''''), (''client_id'', JStr ''''),
      (''client_secret'', JStr ''''), (''redirect_url'', JStr ''''), (''scopes'', JStr ''''), (''auto_register'', JBool False),
      (''pkce_enable'', JBool False), (''pkce_method'', JStr ''S256'')]"

definition provider_view :: view where
  "provider_view = mk_view [(''page'', JNum 1), (''page_size'', JNum 10)] provider_form"

definition provider_getList :: "page option \<Rightarrow> view \<Rightarrow> view" where
  "provider_getList res v = load oauth_list Some res v"

definition provider_handlerQuery :: "page option \<Rightarrow> view \<Rightarrow> view" where
  "provider_handlerQuery res v = query_first_page (provider_getList res) v"

definition provider_bulkDel :: "bool \<Rightarrow> (obj \<Rightarrow> bool) \<Rightarrow> page option \<Rightarrow> bulk \<Rightarrow> nat \<times> bulk" where
  "provider_bulkDel confirmed oks res b =
     bulkConfirmAndRemove oauth_remove default_payload id (provider_getList res) (selectedRows b) confirmed oks b"

definition types :: "(string \<times> string) list" where
  "types = [(''github'', ''GitHub''), (''google'', ''Google''), (''linuxdo'', ''LinuxDo''), (''oidc'', ''OIDC'')]"

definition defaultRedirect :: "string \<Rightarrow> jsval \<Rightarrow> string" where
  "defaultRedirect origin api_server = toStr (js_or api_server (JStr origin)) @ ''/api/oidc/callback''"

definition provider_toEdit :: "obj \<Rightarrow> view \<Rightarrow> view" where
  "provider_toEdit row v = v\<lparr>formVisible := True, formData := spread (formData v)
     [(''id'', get row ''id''), (''op'', get row ''op''), (''oauth_type'', get row ''oauth_type''), (''issuer'', get row ''issuer''),
      (''client_id'', get row ''client_id''), (''client_secret'', get row ''client_secret''), (''scopes'', get row ''scopes''),
      (''auto_register'', JBool (truthy (get row ''auto_register''))), (''pkce_enable'', JBool (truthy (get row ''pkce_enable''))),
      (''pkce_method'', get row ''pkce_method'')]\<rparr>"

definition provider_toAdd :: "view \<Rightarrow> view" where
  "provider_toAdd v = v\<lparr>formVisible := True, formData := spread (formData v)
     [(''id'', JNum 0), (''op'', JStr ''''), (''oauth_type'', JStr ''''), (''issuer'', JStr ''''), (''client_id'', JStr ''''),
      (''client_secret'', JStr ''''), (''scopes'', JStr ''''), (''auto_register'', JBool False), (''pkce_enable'', JBool False),
      (''pkce_method'', JStr ''S256'')]\<rparr>"

text \<open>
  The rules of the form. The component library checks the fields that are shown, one rule after the
  other: \<open>validate rules v\<close> is its verdict on a field.
\<close>

datatype form_rule = FRequired | FCheck "jsval \<Rightarrow> bool"

fun form_rule_ok :: "jsval \<Rightarrow> form_rule \<Rightarrow> bool" where
  "form_rule_ok v FRequired = (v \<noteq> JUndef \<and> v \<noteq> JNull \<and> v \<noteq> JStr '''')"
| "form_rule_ok v (FCheck c) = c v"

definition pkce_rule :: "obj \<Rightarrow> form_rule" where
  "pkce_rule f =
     FCheck (\<lambda>v. if \<not> truthy (get f ''pkce_enable'') then True
                 else if \<not> truthy v then False else v \<in> {JStr ''S256'', JStr ''plain''})"

definition provider_rules :: "obj \<Rightarrow> (string \<times> form_rule list) list" where
  "provider_rules f =
     [(''client_id'', [FRequired]), (''client_secret'', [FRequired]), (''oauth_type'', [FRequired])]
     @ (if get f ''oauth_type'' = JStr ''oidc'' then [(''issuer'', [FRequired])] else [])
     @ (if truthy (get f ''pkce_enable'') then [(''pkce_method'', [pkce_rule f])] else [])"

definition provider_submit :: "(form_rule list \<Rightarrow> jsval \<Rightarrow> bool) \<Rightarrow> bool \<Rightarrow> page option \<Rightarrow> view \<Rightarrow> view" where
  "provider_submit validate ok res v =
     (if \<not> list_all (\<lambda>(k, rs). validate rs (get (formData v) k)) (provider_rules (formData v)) then v
      else
        (let api = (if truthy (get (formData v) ''id'') then oauth_update else oauth_create)
         in submit_form (api (JObj (formData v))) (provider_getList res) ok v))"

subsection \<open>Groups\<close>

text \<open>The users' groups and the devices' groups; the form is the same.\<close>

datatype group_kind = UserGroup | DeviceGroup

definition group_form :: obj where
  "group_form = [(''id'', JNum 0), (''name'', JStr ''''), (''type'', JNum 1)]"

definition group_getList :: "group_kind \<Rightarrow> page option \<Rightarrow> view \<Rightarrow> view" where
  "group_getList k res v = load (case k of UserGroup \<Rightarrow> group_list | DeviceGroup \<Rightarrow> device_group_list) Some res v"

definition group_handlerQuery :: "group_kind \<Rightarrow> page option \<Rightarrow> view \<Rightarrow> view" where
  "group_handlerQuery k res v = query_first_page (group_getList k res) v"

definition group_toEdit :: "obj \<Rightarrow> view \<Rightarrow> view" where
  "group_toEdit row v = v\<lparr>formVisible := True, formData := spread (formData v)
     [(''id'', get row ''id''), (''name'', get row ''name''), (''type'', get row ''type'')]\<rparr>"

definition group_toAdd :: "view \<Rightarrow> view" where
  "group_toAdd v = v\<lparr>formVisible := True, formData := spread (formData v) group_form\<rparr>"

definition group_submit :: "group_kind \<Rightarrow> bool \<Rightarrow> page option \<Rightarrow> view \<Rightarrow> view" where
  "group_submit k ok res v =
     (let new = (case k of UserGroup \<Rightarrow> group_create | DeviceGroup \<Rightarrow> device_group_create);
          old = (case k of UserGroup \<Rightarrow> group_update | DeviceGroup \<Rightarrow> device_group_update);
          api = (if truthy (get (formData v) ''id'') then old else new)
      in submit_form (api (JObj (formData v))) (group_getList k res) ok v)"

text \<open>Deleting one row of the users' groups takes it out of the selection as well.\<close>

definition group_del :: "obj \<Rightarrow> bool \<Rightarrow> bool \<Rightarrow> page option \<Rightarrow> bulk \<Rightarrow> bulk" where
  "group_del row confirmed ok res b =
     b\<lparr>bview := delete_row (group_remove (JObj [(''id'', get row ''id'')])) (group_getList UserGroup res) confirmed ok (bview b),
       selectedRows := (if confirmed \<and> ok then filter (\<lambda>r. get r ''id'' \<noteq> get row ''id'') (selectedRows b) else selectedRows b)\<rparr>"

text \<open>The selection is emptied whatever the server answers, and a failure of every call is not reported.\<close>

definition group_bulkDel :: "bool \<Rightarrow> (obj \<Rightarrow> bool) \<Rightarrow> page option \<Rightarrow> bulk \<Rightarrow> bulk" where
  "group_bulkDel confirmed oks res b =
     (if selectedRows b = [] \<or> \<not> confirmed then b
      else
        (let v = (bview b)\<lparr>calls := calls (bview b) @ map (\<lambda>r. group_remove (JObj [(''id'', get r ''id'')])) (selectedRows b)\<rparr>;
             v = (if filter oks (selectedRows b) \<noteq> [] then group_getList UserGroup res (toast (Success ''OperationSuccess'') v) else v)
         in b\<lparr>bview := v, selectedRows := []\<rparr>))"

definition device_group_bulkDel :: "bool \<Rightarrow> (obj \<Rightarrow> bool) \<Rightarrow> page option \<Rightarrow> bulk \<Rightarrow> nat \<times> bulk" where
  "device_group_bulkDel confirmed oks res b =
     bulkConfirmAndRemove device_group_remove default_payload id (group_getList DeviceGroup res) (selectedRows b) confirmed oks b"

subsection \<open>The status switch of a user\<close>

text \<open>The switch has written the row \<open>i\<close> of the list before \<open>changeStatus\<close> sends it.\<close>

definition write_row :: "nat \<Rightarrow> string \<Rightarrow> jsval \<Rightarrow> view \<Rightarrow> view" where
  "write_row i k x v = v\<lparr>listRes := (listRes v)\<lparr>rows := (rows (listRes v))[i := put (rows (listRes v) ! i) k x]\<rparr>\<rparr>"

definition changeStatus :: "nat \<Rightarrow> bool \<Rightarrow> page option \<Rightarrow> view \<Rightarrow> view" where
  "changeStatus i ok res v =
     (let v = call (user_update (JObj (rows (listRes v) ! i))) v
      in if ok then users_getList res (toast (Success ''OperationSuccess'') v) else v)"

definition toggle_status :: "nat \<Rightarrow> jsval \<Rightarrow> bool \<Rightarrow> page option \<Rightarrow> view \<Rightarrow> view" where
  "toggle_status i x ok res v = changeStatus i ok res (write_row i ''status'' x v)"

subsection \<open>Sharing a device\<close>

record share_dialog =
  sd_id :: string
  sd_hash :: string
  sd_form :: obj
  link :: string
  sd_loading :: bool
  sd_calls :: "config list"
  sd_emitted :: "string list"

definition share_form :: "string \<Rightarrow> string \<Rightarrow> obj" where
  "share_form i h =
     [(''id'', JStr i), (''password_type'', JStr ''once''), (''password'', JStr ''''), (''expire'', JNum 1800), (''hash'', JStr h)]"

definition share_setup :: "string \<Rightarrow> string \<Rightarrow> share_dialog" where
  "share_setup i h =
     \<lparr>sd_id = i, sd_hash = h, sd_form = share_form i h, link = [], sd_loading = False, sd_calls = [], sd_emitted = []\<rparr>"

definition share_reset :: "share_dialog \<Rightarrow> share_dialog" where
  "share_reset d =
     d\<lparr>sd_form := spread (sd_form d)
         [(''id'', JStr (sd_id d)), (''hash'', JStr (sd_hash d)), (''password'', JStr ''''), (''expire'', JNum 1800), (''password_type'', JStr ''once'')],
       link := []\<rparr>"

text \<open>Another device is shown in the dialog: the watcher of the id resets it.\<close>

definition share_device :: "string \<Rightarrow> string \<Rightarrow> share_dialog \<Rightarrow> share_dialog" where
  "share_device i h d =
     (let d' = d\<lparr>sd_id := i, sd_hash := h\<rparr> in if i \<noteq> sd_id d then share_reset d' else d')"

definition expireTimes :: "int list" where
  "expireTimes = [300, 1800, 3600, 86400, 604800, 2592000, 0]"

definition changePwdType :: "string \<Rightarrow> share_dialog \<Rightarrow> share_dialog" where
  "changePwdType val d =
     (let d = (if val = ''fixed'' \<and> \<not> truthy (get (sd_form d) ''password'')
               then d\<lparr>sd_form := put (sd_form d) ''password'' (JStr (sd_hash d))\<rparr> else d)
      in if val = ''once'' then d\<lparr>sd_form := put (sd_form d) ''password'' (JStr '''')\<rparr> else d)"

definition share_cancel :: "share_dialog \<Rightarrow> share_dialog" where
  "share_cancel d = share_reset (d\<lparr>sd_loading := False, sd_emitted := sd_emitted d @ [''cancel'']\<rparr>)"

definition submitShare :: "share_dialog \<Rightarrow> share_dialog" where
  "submitShare d =
     (if \<not> truthy (get (sd_form d) ''password'') then d
      else d\<lparr>sd_loading := True, sd_calls := sd_calls d @ [address_book_shareByWebClient (JObj (sd_form d))]\<rparr>)"

definition share_answered :: "string \<Rightarrow> string option \<Rightarrow> share_dialog \<Rightarrow> share_dialog" where
  "share_answered origin res d =
     (case res of
        None \<Rightarrow> d\<lparr>sd_loading := False\<rparr>
      | Some token \<Rightarrow>
          d\<lparr>link := getV2ShareUrl origin token, sd_emitted := sd_emitted d @ [''success''], sd_loading := False\<rparr>)"

subsection \<open>The tab bar\<close>

text \<open>A route that hides its tab or has no name opens none.\<close>

definition bar_addTag :: "bool \<Rightarrow> tab_route \<Rightarrow> tags_store \<Rightarrow> tags_store" where
  "bar_addTag hide route s =
     (if \<not> hide \<and> (case r_name route of Some n \<Rightarrow> n \<noteq> [] | None \<Rightarrow> False) then addTag route s else s)"

definition bar_init :: "bool \<Rightarrow> tab_route \<Rightarrow> tags_store \<Rightarrow> tags_store" where
  "bar_init hide route s = bar_addTag hide route (if tags s = [] then initTags s else s)"

text \<open>The name of the route pushed, if any.\<close>

definition toLastTag :: "tags_store \<Rightarrow> string option option" where
  "toLastTag s = (if tags s \<noteq> [] then Some (t_name (last (tags s))) else None)"

definition bar_close :: "tag \<Rightarrow> tags_store \<Rightarrow> tags_store \<times> string option option" where
  "bar_close t s = (let s = removeTag (t_name t) s in (s, if t_active t then toLastTag s else None))"

definition toTag :: "tag \<Rightarrow> string option \<Rightarrow> string option option" where
  "toTag t current = (if t_name t \<noteq> current then Some (t_name t) else None)"

subsection \<open>The filter bar\<close>

definition is_set :: "jsval \<Rightarrow> bool" where
  "is_set v \<longleftrightarrow> v \<noteq> JNull \<and> v \<noteq> JUndef \<and> v \<noteq> JStr ''''"

definition hasFilters :: "obj \<Rightarrow> bool" where
  "hasFilters filters = list_ex (\<lambda>p. is_set (snd p)) filters"

definition activeFilterCount :: "obj \<Rightarrow> nat" where
  "activeFilterCount filters = length (filter (\<lambda>p. is_set (snd p)) filters)"

definition nulled :: "obj \<Rightarrow> obj" where
  "nulled filters = map (\<lambda>p. (fst p, JNull)) filters"

text \<open>
  \<open>resetFilters\<close> in a view whose filters are its whole query: every key becomes \<open>null\<close>, the view's
  \<open>handlerQuery\<close> runs, and then the watchers of the page and of its size, which compare with the
  values before.
\<close>

definition resetFilters :: "(view \<Rightarrow> view) \<Rightarrow> view \<Rightarrow> view" where
  "resetFilters getList v =
     (let q = listQuery v;
          v = query_first_page getList (v\<lparr>listQuery := nulled q\<rparr>);
          v = (if get (listQuery v) ''page'' \<noteq> get q ''page'' then getList v else v)
      in if get (listQuery v) ''page_size'' \<noteq> get q ''page_size'' then query_first_page getList v else v)"

subsection \<open>Cells of a table\<close>

text \<open>\<open>String(prop).split('.').reduce((value, key) => value?.[key], row) ?? ''\<close>.\<close>

definition getCell :: "obj \<Rightarrow> string \<Rightarrow> jsval" where
  "getCell row p =
     (if p = [] then JStr ''''
      else
        (let v = fold (\<lambda>k v. opt_prop v k) (split_on (CHR ''.'') p) (JObj row) in if nullish v then JStr '''' else v))"

definition getColumnProps :: "obj \<Rightarrow> obj" where
  "getColumnProps column = filter (\<lambda>p. fst p \<noteq> ''slot'') column"

subsection \<open>Lemmas\<close>

lemma is_set_null [simp]: "\<not> is_set JNull"
  by (simp add: is_set_def)

lemma hasFilters_count: "hasFilters q \<longleftrightarrow> activeFilterCount q > 0"
  by (auto simp: hasFilters_def activeFilterCount_def list_ex_iff filter_empty_conv)

lemma get_nulled: "get (nulled q) k = (if k \<in> set (keys q) then JNull else JUndef)"
  unfolding nulled_def keys_def by (induction q) auto

lemma keys_nulled [simp]: "keys (nulled q) = keys q"
  by (simp add: nulled_def keys_def)

lemma page_always_set: "get q ''page'' = JNum n \<Longrightarrow> hasFilters q"
  by (induction q) (auto simp: hasFilters_def get_def is_set_def split: if_splits)

lemma getCell_plain:
  assumes "p \<noteq> []" "CHR ''.'' \<notin> set p"
  shows "getCell row p = (if nullish (get row p) then JStr '''' else get row p)"
  using assms by (simp add: getCell_def split_on_notin Let_def)

lemma tab_session_inv: "tags_inv s \<Longrightarrow> tags_inv (tab_session ops s)"
  unfolding tab_session_run by (rule tabs.run_inv)

lemma last_name: "tags s \<noteq> [] \<Longrightarrow> t_name (last (tags s)) = last (tab_names s)"
  by (simp add: tab_names_def last_map)

lemma refused_status: "listRes (toggle_status i x False res v) = listRes (write_row i ''status'' x v)"
  by (simp add: toggle_status_def changeStatus_def Let_def)

subsection \<open>Properties\<close>

text \<open>
  Closing the active tab leads to the last of the others. After any session of the tab bar, closing
  the active tab takes exactly it away and pushes the name of the last tab left, if there is one; when the
  router arrives there, that tab is the one active tab, no tab was opened or lost on the way, and the
  kept-alive components still are those of the open tabs.
\<close>

lemma closing_active_tab:
  assumes "s = tab_session ops init_tags_store" "t \<in> set (tags s)" "t_active t" "tags s \<noteq> [t]"
    and "bar_close t s = (u, pushed)"
  shows "tab_names u = remove1 (t_name t) (tab_names s) \<and> pushed = Some (last (tab_names u))
    \<and> (r_name r = last (tab_names u) \<and> r_name r \<notin> {None, Some []} \<longrightarrow>
        active_names (bar_addTag False r u) = [r_name r] \<and> tab_names (bar_addTag False r u) = tab_names u
        \<and> tags_inv (bar_addTag False r u))"
proof -
  have i: "tags_inv s" using assms(1) tab_session_inv [OF init_tags_inv] by simp
  have u: "u = removeTag (t_name t) s" and p: "pushed = toLastTag u"
    using assms(3,5) by (auto simp: bar_close_def Let_def)
  have iu: "tags_inv u" unfolding u by (rule removeTag_inv [OF i])
  have n: "tab_names u = remove1 (t_name t) (tab_names s)" unfolding u by (rule tabs.names_remove [OF i])
  have "t_name t \<in> set (tab_names s)" using assms(2) by (simp add: tab_names_def)
  then have "length (tab_names u) = length (tags s) - 1" unfolding n by (simp add: length_remove1 tab_names_def)
  moreover have "2 \<le> length (tags s)" using assms(2,4) by (cases "tags s"; cases "tl (tags s)") auto
  ultimately have ne: "tags u \<noteq> []" by (auto simp: tab_names_def)
  then have "last (tab_names u) \<in> set (tab_names u)" by (simp add: tab_names_def last_map)
  then show ?thesis using n p ne iu addTag_inv [OF iu, of r] addTag_active [of r u] addTag_names [of r u] last_name [OF ne]
    by (auto simp: toLastTag_def bar_addTag_def split: option.splits)
qed

definition tab_a :: tab_route where "tab_a = \<lparr>r_name = Some ''a'', r_fullPath = ''/a'', r_title = None, r_keepAlive = True\<rparr>"
definition tab_b :: tab_route where "tab_b = \<lparr>r_name = Some ''b'', r_fullPath = ''/b'', r_title = None, r_keepAlive = False\<rparr>"

text \<open>
  A provider is saved only with what it needs. Given that the form library checks the rules of the
  fields shown, a submission that changes anything has a client id, a secret and a type; of the type
  \<open>oidc\<close> it has an issuer; and when PKCE is on its method is one of the two that exist.
\<close>

lemma provider_saved_complete:
  assumes "\<And>rs v. validate rs v \<Longrightarrow> list_all (form_rule_ok v) rs" "provider_submit validate ok res v \<noteq> v"
  shows "let f = formData v
    in (\<forall>k \<in> {''client_id'', ''client_secret'', ''oauth_type''}. is_set (get f k))
       \<and> (get f ''oauth_type'' = JStr ''oidc'' \<longrightarrow> is_set (get f ''issuer''))
       \<and> (truthy (get f ''pkce_enable'') \<longrightarrow> get f ''pkce_method'' \<in> {JStr ''S256'', JStr ''plain''})"
proof -
  have "list_all (\<lambda>(k, rs). validate rs (get (formData v) k)) (provider_rules (formData v))"
    using assms(2) by (auto simp: provider_submit_def split: if_splits)
  then have "list_all (\<lambda>(k, rs). list_all (form_rule_ok (get (formData v) k)) rs) (provider_rules (formData v))"
    using assms(1) by (auto simp: list_all_iff)
  then show ?thesis
    by (auto simp: provider_rules_def pkce_rule_def is_set_def Let_def split: if_splits)
qed

definition form_checks :: "form_rule list \<Rightarrow> jsval \<Rightarrow> bool" where
  "form_checks rs v = list_all (form_rule_ok v) rs"

text \<open>
  The filter bar resets more than the filters, and a second reset shows stale rows. The views pass
  their whole query, so a reset also takes away the size of a page; it reloads only because the
  watcher of the size sees that. From then on, a reset after a filter was used empties the filter and
  leaves the rows of the filtered list, with no request made.
\<close>

lemma second_reset_stale:
  assumes "get (listQuery v) ''page'' = JNum 1" "k \<in> set (keys (listQuery v))" "k \<notin> {''page'', ''page_size''}"
    and "''page_size'' \<in> set (keys (listQuery v))"
  shows "let w = resetFilters (load api prep r1) v;
             x = query_first_page (load api prep r2) (set_query k (JStr s) w);
             y = resetFilters (load api prep r3) x
    in get (listQuery w) ''page_size'' = JNull \<and> calls x = calls w @ [api (JObj (listQuery x))] \<and> get (listQuery x) k = JStr s
       \<and> calls y = calls x \<and> rows (listRes y) = rows (listRes x) \<and> get (listQuery y) k = JNull"
proof -
  have p: "''page'' \<in> set (keys (listQuery v))"
    using assms(1) get_notin_keys [of "''page''" "listQuery v"] by auto
  let ?w = "resetFilters (load api prep r1) v"
  have w: "listQuery ?w = put (nulled (listQuery v)) ''page'' (JNum 1)"
    using assms(1) p by (simp add: resetFilters_def query_first_page_def get_nulled Let_def)
  let ?x = "query_first_page (load api prep r2) (set_query k (JStr s) ?w)"
  have x: "?x = load api prep r2 (set_query k (JStr s) ?w)"
    using w assms(3) by (auto simp: query_first_page_def set_query_def)
  have q: "get (listQuery ?x) ''page'' = JNum 1" "get (listQuery ?x) ''page_size'' = JNull" "get (listQuery ?x) k = JStr s"
    "set (keys (listQuery ?x)) = set (keys (listQuery v))"
    using w assms(2-4) p unfolding x by (auto simp: set_query_def get_nulled set_keys_put)
  let ?y = "resetFilters (load api prep r3) ?x"
  have y: "?y = ?x\<lparr>listQuery := put (nulled (listQuery ?x)) ''page'' (JNum 1)\<rparr>"
    using q p assms(4) by (simp add: resetFilters_def query_first_page_def get_nulled Let_def)
  show ?thesis unfolding Let_def
    using q w x y assms(2-4) by (simp add: get_nulled set_query_def)
qed

text \<open>
  A link that was asked for one device can be shown for another. When another device is chosen while
  the answer is under way, the dialog is reset, and the answer then puts the link of the first device
  beside the id of the second.
\<close>

lemma share_link_misplaced:
  assumes "truthy (get (sd_form d) ''password'')" "i \<noteq> sd_id d"
  shows "let e = submitShare d; f = share_answered origin (Some token) (share_device i h e)
    in last (sd_calls e) = address_book_shareByWebClient (JObj (sd_form d)) \<and> sd_calls f = sd_calls e
       \<and> get (sd_form f) ''id'' = JStr i \<and> link f = getV2ShareUrl origin token"
  using assms by (simp add: submitShare_def share_device_def share_reset_def share_answered_def Let_def)

end
