(* ===== verification/Yuv.thy ===== *)
theory Yuv
  imports "HOL-Library.Multiset" "HOL-Library.Word"
begin

text \<open>
  The worker that turns decoded frames into pixels (\<open>yuv.js\<close> of the browser client): four buffers in
  the memory of a WebAssembly module, replaced when the size of a frame changes, and the loop that
  takes the last frame. The module is a parameter: \<open>malloc\<close>, which gives a block and tells whether the
  memory had to grow for it, and the conversion.
\<close>

subsection \<open>Memory\<close>

type_synonym byte = "8 word"

record heap =
  blocks :: "(nat \<times> nat) list" \<comment> \<open>address and length of what is allocated\<close>
  cells :: "nat \<Rightarrow> byte"
  view_ok :: bool \<comment> \<open>the array over the memory still is the memory\<close>

record wasm =
  malloc :: "(nat \<times> nat) list \<Rightarrow> nat \<Rightarrow> nat \<times> bool"
  yuv420_rgb24_std ::
    "nat \<Rightarrow> nat \<Rightarrow> nat \<Rightarrow> nat \<Rightarrow> nat \<Rightarrow> nat \<Rightarrow> nat \<Rightarrow> nat \<Rightarrow> nat \<Rightarrow> (nat \<Rightarrow> byte) \<Rightarrow> nat \<Rightarrow> byte"

text \<open>A pointer and its length; both are undefined before the first frame.\<close>

record slot =
  ptr :: nat
  len :: "nat option"

definition no_slot :: slot where
  "no_slot = \<lparr>ptr = 0, len = None\<rparr>"

definition free :: "nat \<Rightarrow> heap \<Rightarrow> heap" where
  "free p h = h\<lparr>blocks := filter (\<lambda>b. fst b \<noteq> p) (blocks h)\<rparr>"

text \<open>A memory that grows gets a new buffer: the array made before is detached from it.\<close>

definition alloc :: "wasm \<Rightarrow> nat \<Rightarrow> heap \<Rightarrow> nat \<times> heap" where
  "alloc w n h =
     (case malloc w (blocks h) n of (p, grown) \<Rightarrow> (p, h\<lparr>blocks := blocks h @ [(p, n)], view_ok := view_ok h \<and> \<not> grown\<rparr>))"

text \<open>\<open>if (yPtrLen != n) { if (yPtr) free(yPtr); yPtrLen = n; yPtr = malloc(n) }\<close>.\<close>

definition ensure :: "wasm \<Rightarrow> nat \<Rightarrow> slot \<times> heap \<Rightarrow> slot \<times> heap" where
  "ensure w n s =
     (case s of (sl, h) \<Rightarrow>
        if len sl \<noteq> Some n then
          (let h = (if ptr sl \<noteq> 0 then free (ptr sl) h else h); (p, h) = alloc w n h in (\<lparr>ptr = p, len = Some n\<rparr>, h))
        else (sl, h))"

definition poke :: "nat \<Rightarrow> byte list \<Rightarrow> (nat \<Rightarrow> byte) \<Rightarrow> nat \<Rightarrow> byte" where
  "poke p bs c = (\<lambda>a. if p \<le> a \<and> a < p + length bs then bs ! (a - p) else c a)"

text \<open>
  Making room and copying: \<open>HEAPU8.set(bytes, p)\<close> raises on a detached array (the result is \<open>False\<close>),
  after the pointer was stored.
\<close>

definition store :: "wasm \<Rightarrow> byte list \<Rightarrow> slot \<times> heap \<Rightarrow> bool \<times> slot \<times> heap" where
  "store w bs s =
     (case ensure w (length bs) s of
        (sl, h) \<Rightarrow> (view_ok h, sl, if view_ok h then h\<lparr>cells := poke (ptr sl) bs (cells h)\<rparr> else h))"

subsection \<open>Frames\<close>

record frame =
  y_bytes :: "byte list"
  u_bytes :: "byte list"
  v_bytes :: "byte list"
  y_stride :: nat
  v_stride :: nat
  displayWidth :: nat
  displayHeight :: nat

record yuv =
  y_slot :: slot
  u_slot :: slot
  v_slot :: slot
  out_slot :: slot
  mem :: heap

definition yuv_init :: yuv where
  "yuv_init =
     \<lparr>y_slot = no_slot, u_slot = no_slot, v_slot = no_slot, out_slot = no_slot,
      mem = \<lparr>blocks = [], cells = (\<lambda>_. 0), view_ok = True\<rparr>\<rparr>"

text \<open>The three planes and the output; \<open>Inl\<close> is the state in which an exception is raised.\<close>

definition store_y :: "wasm \<Rightarrow> frame \<Rightarrow> yuv \<Rightarrow> yuv + yuv" where
  "store_y w f s =
     (case store w (y_bytes f) (y_slot s, mem s) of
        (ok, sl, h) \<Rightarrow> (if ok then Inr else Inl) (s\<lparr>y_slot := sl, mem := h\<rparr>))"

definition store_u :: "wasm \<Rightarrow> frame \<Rightarrow> yuv \<Rightarrow> yuv + yuv" where
  "store_u w f s =
     (case store w (u_bytes f) (u_slot s, mem s) of
        (ok, sl, h) \<Rightarrow> (if ok then Inr else Inl) (s\<lparr>u_slot := sl, mem := h\<rparr>))"

definition store_v :: "wasm \<Rightarrow> frame \<Rightarrow> yuv \<Rightarrow> yuv + yuv" where
  "store_v w f s =
     (case store w (v_bytes f) (v_slot s, mem s) of
        (ok, sl, h) \<Rightarrow> (if ok then Inr else Inl) (s\<lparr>v_slot := sl, mem := h\<rparr>))"

text \<open>A new output buffer is filled with 255, the opaque alpha.\<close>

definition room_for_pixels :: "wasm \<Rightarrow> frame \<Rightarrow> yuv \<Rightarrow> yuv + yuv" where
  "room_for_pixels w f s =
     (let n = displayWidth f * displayHeight f * 4
      in if len (out_slot s) = Some n then Inr s
         else
           (case store w (replicate n 255) (out_slot s, mem s) of
              (ok, sl, h) \<Rightarrow> (if ok then Inr else Inl) (s\<lparr>out_slot := sl, mem := h\<rparr>)))"

definition convert :: "wasm \<Rightarrow> frame \<Rightarrow> yuv \<Rightarrow> byte list \<times> yuv" where
  "convert w f s =
     (let c = yuv420_rgb24_std w (displayWidth f) (displayHeight f) (ptr (y_slot s)) (ptr (u_slot s)) (ptr (v_slot s))
                (y_stride f) (v_stride f) (ptr (out_slot s)) (displayWidth f * 4) (cells (mem s));
          n = displayWidth f * displayHeight f * 4
      in (map c [ptr (out_slot s)..<ptr (out_slot s) + n], s\<lparr>mem := (mem s)\<lparr>cells := c\<rparr>\<rparr>))"

fun and_then :: "yuv + yuv \<Rightarrow> (yuv \<Rightarrow> yuv + yuv) \<Rightarrow> yuv + yuv" where
  "and_then (Inl s) g = Inl s"
| "and_then (Inr s) g = g s"

text \<open>
  \<open>I420ToARGB\<close>: the array is made anew over the memory at each call. The result is the pixels, or
  \<open>None\<close> for an exception.
\<close>

definition I420ToARGB :: "wasm \<Rightarrow> frame \<Rightarrow> yuv \<Rightarrow> byte list option \<times> yuv" where
  "I420ToARGB w f s =
     (let s = s\<lparr>mem := (mem s)\<lparr>view_ok := True\<rparr>\<rparr>
      in case and_then (and_then (and_then (store_y w f s) (store_u w f)) (store_v w f)) (room_for_pixels w f) of
           Inl s \<Rightarrow> (None, s)
         | Inr s \<Rightarrow> (case convert w f s of (out, s) \<Rightarrow> (Some out, s)))"

subsection \<open>The worker\<close>

text \<open>
  \<open>exports\<close> is the module once it is loaded; before, a frame is answered with \<open>undefined\<close> (\<open>None\<close> in
  \<open>posted\<close>). An exception leaves \<open>run\<close> before the timer for the next round is set.
\<close>

record worker =
  exports :: "wasm option"
  yuv_state :: yuv
  currentFrame :: "frame option"
  scheduled :: bool
  posted :: "byte list option list"

definition worker_init :: worker where
  "worker_init = \<lparr>exports = None, yuv_state = yuv_init, currentFrame = None, scheduled = True, posted = []\<rparr>"

definition on_message :: "frame \<Rightarrow> worker \<Rightarrow> worker" where
  "on_message f k = k\<lparr>currentFrame := Some f\<rparr>"

definition yuv_ready :: "wasm \<Rightarrow> worker \<Rightarrow> worker" where
  "yuv_ready w k = k\<lparr>exports := Some w\<rparr>"

definition run_round :: "worker \<Rightarrow> worker" where
  "run_round k =
     (case currentFrame k of
        None \<Rightarrow> k
      | Some f \<Rightarrow>
          (case exports k of
             None \<Rightarrow> k\<lparr>posted := posted k @ [None], currentFrame := None\<rparr>
           | Some w \<Rightarrow>
               (case I420ToARGB w f (yuv_state k) of
                  (None, s) \<Rightarrow> k\<lparr>yuv_state := s, scheduled := False\<rparr>
                | (Some out, s) \<Rightarrow> k\<lparr>yuv_state := s, posted := posted k @ [Some out], currentFrame := None\<rparr>)))"

inductive worker_step :: "wasm \<Rightarrow> worker \<Rightarrow> worker \<Rightarrow> bool" for w where
  message: "worker_step w k (on_message f k)"
| loaded: "exports k = None \<Longrightarrow> worker_step w k (yuv_ready w k)"
| timer: "scheduled k \<Longrightarrow> worker_step w k (run_round k)"

subsection \<open>Lemmas\<close>

definition apart :: "nat \<times> nat \<Rightarrow> nat \<times> nat \<Rightarrow> bool" where
  "apart b c \<longleftrightarrow> fst b + snd b \<le> fst c \<or> fst c + snd c \<le> fst b"

definition blocks_ok :: "(nat \<times> nat) list \<Rightarrow> bool" where
  "blocks_ok bs \<longleftrightarrow> sorted_wrt apart bs \<and> distinct (map fst bs)"

text \<open>What \<open>malloc\<close> promises: an address other than zero, of a block apart from those in use.\<close>

definition malloc_ok :: "wasm \<Rightarrow> bool" where
  "malloc_ok w \<longleftrightarrow>
     (\<forall>bs n. fst (malloc w bs n) \<noteq> 0 \<and> fst (malloc w bs n) \<notin> fst ` set bs
       \<and> (\<forall>b \<in> set bs. apart b (fst (malloc w bs n), n)))"

definition held :: "slot \<Rightarrow> (nat \<times> nat) multiset" where
  "held sl = (case len sl of None \<Rightarrow> {#} | Some n \<Rightarrow> {#(ptr sl, n)#})"

definition slot_ok :: "slot \<Rightarrow> bool" where
  "slot_ok sl \<longleftrightarrow> (ptr sl = 0 \<longleftrightarrow> len sl = None)"

definition holds :: "heap \<Rightarrow> slot \<Rightarrow> byte list \<Rightarrow> bool" where
  "holds h sl bs \<longleftrightarrow> len sl = Some (length bs) \<and> (\<forall>i < length bs. cells h (ptr sl + i) = bs ! i)"

lemma apart_sym: "apart b c \<Longrightarrow> apart c b"
  by (auto simp: apart_def)

lemma blocks_apart: "sorted_wrt apart bs \<Longrightarrow> b \<in> set bs \<Longrightarrow> c \<in> set bs \<Longrightarrow> b \<noteq> c \<Longrightarrow> apart b c"
  by (induction bs) (auto dest: apart_sym)

lemma filter_ne_mset: "distinct (map fst bs) \<Longrightarrow> (p, n) \<in> set bs \<Longrightarrow> mset (filter (\<lambda>b. fst b \<noteq> p) bs) + {#(p, n)#} = mset bs"
proof (induction bs)
  case (Cons b bs)
  show ?case
  proof (cases "fst b = p")
    case True
    then have "p \<notin> set (map fst bs)" using Cons.prems by auto
    then have "filter (\<lambda>b. fst b \<noteq> p) bs = bs" by (auto simp: filter_id_conv)
    moreover have "b = (p, n)" using Cons.prems True by (force simp: image_iff)
    ultimately show ?thesis by simp
  next
    case False
    then show ?thesis using Cons by auto
  qed
qed simp

lemma blocks_ok_free: "blocks_ok (blocks h) \<Longrightarrow> blocks_ok (blocks (free p h))"
  by (simp add: blocks_ok_def free_def sorted_wrt_filter distinct_map_filter)

lemma blocks_ok_alloc:
  assumes "malloc_ok w" "blocks_ok (blocks h)" "alloc w n h = (p, k)"
  shows "blocks_ok (blocks k) \<and> mset (blocks k) = mset (blocks h) + {#(p, n)#} \<and> p \<noteq> 0 \<and> cells k = cells h"
proof -
  obtain g where m: "malloc w (blocks h) n = (p, g)" and k: "blocks k = blocks h @ [(p, n)]" "cells k = cells h"
    using assms(3) by (auto simp: alloc_def split: prod.splits)
  have "p \<noteq> 0 \<and> p \<notin> fst ` set (blocks h) \<and> (\<forall>b \<in> set (blocks h). apart b (p, n))"
    using assms(1) m unfolding malloc_ok_def by (metis fst_conv)
  then show ?thesis using assms(2) k by (auto simp: blocks_ok_def sorted_wrt_append)
qed

lemma ensure_ok:
  assumes "malloc_ok w" "blocks_ok (blocks h)" "slot_ok sl" "mset (blocks h) = held sl + R" "ensure w n (sl, h) = (sl', k)"
  shows "blocks_ok (blocks k) \<and> slot_ok sl' \<and> len sl' = Some n \<and> mset (blocks k) = held sl' + R \<and> cells k = cells h"
proof (cases "len sl = Some n")
  case True
  then show ?thesis using assms by (simp add: ensure_def)
next
  case False
  let ?h = "if ptr sl \<noteq> 0 then free (ptr sl) h else h"
  obtain p where p: "alloc w n ?h = (p, k)" and sl': "sl' = \<lparr>ptr = p, len = Some n\<rparr>"
    using assms(5) False by (auto simp: ensure_def Let_def split: prod.splits)
  have ok: "blocks_ok (blocks ?h)" using assms(2) blocks_ok_free by simp
  have "mset (blocks ?h) = R"
  proof (cases "len sl")
    case None
    then show ?thesis using assms(3,4) by (simp add: slot_ok_def held_def)
  next
    case (Some m)
    then have "(ptr sl, m) \<in> set (blocks h)" using assms(4) by (simp add: held_def flip: set_mset_mset)
    then have f: "mset (filter (\<lambda>b. fst b \<noteq> ptr sl) (blocks h)) + {#(ptr sl, m)#} = mset (blocks h)"
      using assms(2) by (intro filter_ne_mset) (simp_all add: blocks_ok_def)
    have "mset (blocks h) = R + {#(ptr sl, m)#}" using assms(4) Some by (simp add: held_def)
    with f have "mset (filter (\<lambda>b. fst b \<noteq> ptr sl) (blocks h)) = R" by (metis add_right_imp_eq)
    then show ?thesis using assms(3) Some by (simp add: slot_ok_def free_def)
  qed
  then show ?thesis using blocks_ok_alloc [OF assms(1) ok p] sl' by (simp add: held_def slot_ok_def free_def)
qed

lemma poke_at: "i < length bs \<Longrightarrow> poke p bs c (p + i) = bs ! i"
  by (simp add: poke_def)

lemma poke_apart: "apart (p, length bs) (q, n) \<Longrightarrow> i < n \<Longrightarrow> poke p bs c (q + i) = c (q + i)"
  by (auto simp: poke_def apart_def)

text \<open>Making room and copying touches no other block.\<close>

lemma store_ok:
  assumes "malloc_ok w" "blocks_ok (blocks h)" "slot_ok sl" "mset (blocks h) = held sl + R" "store w bs (sl, h) = (ok, sl', k)"
  shows "blocks_ok (blocks k) \<and> slot_ok sl' \<and> len sl' = Some (length bs) \<and> mset (blocks k) = held sl' + R"
    and "ok \<Longrightarrow> holds k sl' bs"
    and "held ot \<subseteq># R \<Longrightarrow> holds h ot cs \<Longrightarrow> holds k ot cs"
proof -
  obtain l where l: "ensure w (length bs) (sl, h) = (sl', l)" and ok: "ok = view_ok l"
    and k: "k = (if ok then l\<lparr>cells := poke (ptr sl') bs (cells l)\<rparr> else l)"
    using assms(5) by (auto simp: store_def split: prod.splits)
  note e = ensure_ok [OF assms(1-4) l]
  show g: "blocks_ok (blocks k) \<and> slot_ok sl' \<and> len sl' = Some (length bs) \<and> mset (blocks k) = held sl' + R"
    using e k by simp
  show "ok \<Longrightarrow> holds k sl' bs" using e k by (simp add: holds_def poke_at)
  show "holds k ot cs" if t: "held ot \<subseteq># R" "holds h ot cs"
  proof -
    have "(ptr ot, length cs) \<in># R" using t by (simp add: held_def holds_def)
    then have i: "(ptr ot, length cs) \<in> set (blocks k)" using g by (simp flip: set_mset_mset)
    have j: "(ptr sl', length bs) \<in> set (blocks k)" using g by (simp add: held_def flip: set_mset_mset)
    have "{#(ptr ot, length cs)#} \<subseteq># R" using t by (simp add: held_def holds_def)
    then have "{#(ptr sl', length bs), (ptr ot, length cs)#} \<subseteq># mset (blocks k)"
      using g by (simp add: held_def)
    then have c: "count {#(ptr sl', length bs), (ptr ot, length cs)#} (ptr ot, length cs) \<le> count (mset (blocks k)) (ptr ot, length cs)"
      by (rule mset_subset_eq_count)
    have "distinct (blocks k)" using g by (simp add: blocks_ok_def distinct_map)
    then have "count (mset (blocks k)) (ptr ot, length cs) \<le> 1" by (simp add: distinct_count_atmost_1)
    with c have "(ptr sl', length bs) \<noteq> (ptr ot, length cs)" by auto
    then have "apart (ptr sl', length bs) (ptr ot, length cs)"
      using blocks_apart [OF _ j i] g by (simp add: blocks_ok_def)
    then show ?thesis using t(2) e k by (auto simp: holds_def poke_apart)
  qed
qed

definition yuv_ok :: "yuv \<Rightarrow> bool" where
  "yuv_ok s \<longleftrightarrow>
     blocks_ok (blocks (mem s)) \<and> slot_ok (y_slot s) \<and> slot_ok (u_slot s) \<and> slot_ok (v_slot s) \<and> slot_ok (out_slot s)
     \<and> mset (blocks (mem s)) = held (y_slot s) + held (u_slot s) + held (v_slot s) + held (out_slot s)"

definition planes :: "frame \<Rightarrow> bool \<Rightarrow> bool \<Rightarrow> bool \<Rightarrow> yuv \<Rightarrow> bool" where
  "planes f y u v s \<longleftrightarrow>
     (y \<longrightarrow> holds (mem s) (y_slot s) (y_bytes f)) \<and> (u \<longrightarrow> holds (mem s) (u_slot s) (u_bytes f))
     \<and> (v \<longrightarrow> holds (mem s) (v_slot s) (v_bytes f))"

fun either :: "'a + 'a \<Rightarrow> 'a" where
  "either (Inl x) = x"
| "either (Inr x) = x"

lemma store_y_ok:
  assumes "malloc_ok w" "yuv_ok s"
  shows "yuv_ok (either (store_y w f s))" and "store_y w f s = Inr t \<Longrightarrow> planes f True False False t"
proof -
  obtain ok sl h where st: "store w (y_bytes f) (y_slot s, mem s) = (ok, sl, h)" by (metis prod.exhaust)
  have p: "blocks_ok (blocks (mem s))" "slot_ok (y_slot s)"
    "mset (blocks (mem s)) = held (y_slot s) + (held (u_slot s) + held (v_slot s) + held (out_slot s))"
    using assms(2) by (simp_all add: yuv_ok_def ac_simps)
  note g = store_ok [OF assms(1) p st]
  show "yuv_ok (either (store_y w f s))" using g(1) assms(2) by (simp add: store_y_def st yuv_ok_def ac_simps)
  show "store_y w f s = Inr t \<Longrightarrow> planes f True False False t"
    using g(2) by (auto simp: store_y_def st planes_def split: if_splits)
qed

lemma store_u_ok:
  assumes "malloc_ok w" "yuv_ok s" "planes f True False False s"
  shows "yuv_ok (either (store_u w f s))" and "store_u w f s = Inr t \<Longrightarrow> planes f True True False t"
proof -
  obtain ok sl h where st: "store w (u_bytes f) (u_slot s, mem s) = (ok, sl, h)" by (metis prod.exhaust)
  have p: "blocks_ok (blocks (mem s))" "slot_ok (u_slot s)"
    "mset (blocks (mem s)) = held (u_slot s) + (held (y_slot s) + held (v_slot s) + held (out_slot s))"
    using assms(2) by (simp_all add: yuv_ok_def ac_simps)
  note g = store_ok [OF assms(1) p st]
  show "yuv_ok (either (store_u w f s))" using g(1) assms(2) by (simp add: store_u_def st yuv_ok_def ac_simps)
  have "held (y_slot s) \<subseteq># held (y_slot s) + held (v_slot s) + held (out_slot s)" by (simp add: union_assoc)
  then have "holds h (y_slot s) (y_bytes f)" using g(3) assms(3) by (simp add: planes_def)
  then show "store_u w f s = Inr t \<Longrightarrow> planes f True True False t"
    using g(2) by (auto simp: store_u_def st planes_def split: if_splits)
qed

lemma store_v_ok:
  assumes "malloc_ok w" "yuv_ok s" "planes f True True False s"
  shows "yuv_ok (either (store_v w f s))" and "store_v w f s = Inr t \<Longrightarrow> planes f True True True t"
proof -
  obtain ok sl h where st: "store w (v_bytes f) (v_slot s, mem s) = (ok, sl, h)" by (metis prod.exhaust)
  have p: "blocks_ok (blocks (mem s))" "slot_ok (v_slot s)"
    "mset (blocks (mem s)) = held (v_slot s) + (held (y_slot s) + held (u_slot s) + held (out_slot s))"
    using assms(2) by (simp_all add: yuv_ok_def ac_simps)
  note g = store_ok [OF assms(1) p st]
  show "yuv_ok (either (store_v w f s))" using g(1) assms(2) by (simp add: store_v_def st yuv_ok_def ac_simps)
  have "held (y_slot s) \<subseteq># held (y_slot s) + held (u_slot s) + held (out_slot s)"
    "held (u_slot s) \<subseteq># held (y_slot s) + held (u_slot s) + held (out_slot s)"
    by (simp_all add: union_assoc union_lcomm [of "held (y_slot s)"])
  then have "holds h (y_slot s) (y_bytes f)" "holds h (u_slot s) (u_bytes f)" using g(3) assms(3) by (simp_all add: planes_def)
  then show "store_v w f s = Inr t \<Longrightarrow> planes f True True True t"
    using g(2) by (auto simp: store_v_def st planes_def split: if_splits)
qed

lemma room_ok:
  assumes "malloc_ok w" "yuv_ok s" "planes f True True True s"
  shows "yuv_ok (either (room_for_pixels w f s))" and "room_for_pixels w f s = Inr t \<Longrightarrow> planes f True True True t"
proof -
  let ?n = "displayWidth f * displayHeight f * 4"
  obtain ok sl h where st: "store w (replicate ?n 255) (out_slot s, mem s) = (ok, sl, h)" by (metis prod.exhaust)
  have p: "blocks_ok (blocks (mem s))" "slot_ok (out_slot s)"
    "mset (blocks (mem s)) = held (out_slot s) + (held (y_slot s) + held (u_slot s) + held (v_slot s))"
    using assms(2) by (simp_all add: yuv_ok_def ac_simps)
  note g = store_ok [OF assms(1) p st]
  have "yuv_ok (s\<lparr>out_slot := sl, mem := h\<rparr>)" using g(1) assms(2) by (simp add: yuv_ok_def ac_simps)
  then show "yuv_ok (either (room_for_pixels w f s))"
    using assms(2) unfolding room_for_pixels_def Let_def st by simp
  have "held (y_slot s) \<subseteq># held (y_slot s) + held (u_slot s) + held (v_slot s)"
    "held (u_slot s) \<subseteq># held (y_slot s) + held (u_slot s) + held (v_slot s)"
    "held (v_slot s) \<subseteq># held (y_slot s) + held (u_slot s) + held (v_slot s)"
    by (simp_all add: union_assoc union_lcomm [of "held (y_slot s)"])
  then have "planes f True True True (s\<lparr>out_slot := sl, mem := h\<rparr>)" using g(3) assms(3) by (simp add: planes_def)
  then show "room_for_pixels w f s = Inr t \<Longrightarrow> planes f True True True t"
    using assms(3) unfolding room_for_pixels_def Let_def st by (auto split: if_splits)
qed

text \<open>A call keeps the buffers in order, and its conversion reads the planes of the frame.\<close>

lemma I420ToARGB_ok:
  assumes "malloc_ok w" "yuv_ok s" "I420ToARGB w f s = (r, t)"
  shows "yuv_ok t"
    and "r = Some out \<Longrightarrow> \<exists>q. yuv_ok q \<and> planes f True True True q \<and> convert w f q = (out, t)"
proof -
  let ?s = "s\<lparr>mem := (mem s)\<lparr>view_ok := True\<rparr>\<rparr>"
  have s: "yuv_ok ?s" using assms(2) by (simp add: yuv_ok_def)
  let ?e = "and_then (and_then (and_then (store_y w f ?s) (store_u w f)) (store_v w f)) (room_for_pixels w f)"
  have e: "yuv_ok (either ?e) \<and> (\<forall>q. ?e = Inr q \<longrightarrow> planes f True True True q)"
  proof (cases "store_y w f ?s")
    case y: (Inr a)
    have a: "yuv_ok a" "planes f True False False a" using store_y_ok [OF assms(1) s, of f] y by auto
    show ?thesis
    proof (cases "store_u w f a")
      case u: (Inr b)
      have b: "yuv_ok b" "planes f True True False b" using store_u_ok [OF assms(1) a] u by auto
      show ?thesis
      proof (cases "store_v w f b")
        case v: (Inr c)
        have c: "yuv_ok c" "planes f True True True c" using store_v_ok [OF assms(1) b] v by auto
        show ?thesis using room_ok [OF assms(1) c] y u v by (cases "room_for_pixels w f c") auto
      qed (use store_v_ok(1) [OF assms(1) b] y u in simp)
    qed (use store_u_ok(1) [OF assms(1) a] y in simp)
  qed (use store_y_ok(1) [OF assms(1) s, of f] in simp)
  show "yuv_ok t"
  proof (cases ?e)
    case (Inl q)
    then show ?thesis using e assms(3) by (simp add: I420ToARGB_def Let_def)
  next
    case (Inr q)
    then show ?thesis using e assms(3) by (auto simp: I420ToARGB_def convert_def Let_def yuv_ok_def)
  qed
  show "\<exists>q. yuv_ok q \<and> planes f True True True q \<and> convert w f q = (out, t)" if "r = Some out"
    using e assms(3) that by (cases ?e) (auto simp: I420ToARGB_def Let_def split: prod.splits)
qed

lemma worker_ok:
  assumes "malloc_ok w" "(worker_step w)\<^sup>*\<^sup>* worker_init k"
  shows "yuv_ok (yuv_state k) \<and> (exports k = None \<or> exports k = Some w)"
  using assms(2)
proof (induction rule: rtranclp_induct)
  case base
  show ?case by (simp add: worker_init_def yuv_init_def yuv_ok_def slot_ok_def no_slot_def held_def blocks_ok_def)
next
  case (step k l)
  from step(2) show ?case
  proof (cases rule: worker_step.cases)
    case timer
    then show ?thesis using step(3) I420ToARGB_ok(1) [OF assms(1)]
      by (auto simp: run_round_def split: option.split prod.split)
  qed (use step(3) in \<open>simp_all add: on_message_def yuv_ready_def\<close>)
qed

text \<open>After an exception the worker takes messages and answers none.\<close>

lemma stopped_for_ever: "(worker_step w)\<^sup>*\<^sup>* k l \<Longrightarrow> \<not> scheduled k \<Longrightarrow> \<not> scheduled l \<and> posted l = posted k"
  by (induction rule: rtranclp_induct) (auto elim: worker_step.cases simp: on_message_def yuv_ready_def)


subsection \<open>Properties\<close>

text \<open>An allocator that never frees for reuse, and a conversion that repeats the first plane.\<close>

definition wasm_ex :: "bool \<Rightarrow> wasm" where
  "wasm_ex g =
     \<lparr>malloc = (\<lambda>bs n. (Suc (sum_list (map (\<lambda>b. fst b + snd b) bs)), g)),
      yuv420_rgb24_std = (\<lambda>w h y u v ys vs out os c a. if out \<le> a \<and> a < out + w * h * 4 then c (y + (a - out) div 4) else c a)\<rparr>"

definition frame_ex :: frame where
  "frame_ex = \<lparr>y_bytes = [7, 9], u_bytes = [1], v_bytes = [2], y_stride = 2, v_stride = 1, displayWidth = 2, displayHeight = 1\<rparr>"

lemma sum_bounds: "b \<in> set bs \<Longrightarrow> fst b + snd b \<le> sum_list (map (\<lambda>b. fst b + snd b) bs)" for bs :: "(nat \<times> nat) list"
  by (induction bs) auto

lemma wasm_ex_ok: "malloc_ok (wasm_ex g)"
proof -
  have "Suc (sum_list (map (\<lambda>b. fst b + snd b) bs)) \<notin> fst ` set bs" for bs
    using sum_bounds [of _ bs] by fastforce
  moreover have "apart b (Suc (sum_list (map (\<lambda>b. fst b + snd b) bs)), n)" if "b \<in> set bs" for bs b n
    using sum_bounds [OF that] by (simp add: apart_def)
  ultimately show ?thesis by (simp add: malloc_ok_def wasm_ex_def)
qed

definition loaded_ex :: "bool \<Rightarrow> worker" where
  "loaded_ex g = on_message frame_ex (yuv_ready (wasm_ex g) worker_init)"

lemma loaded_ex_reachable: "(worker_step (wasm_ex g))\<^sup>*\<^sup>* worker_init (loaded_ex g)"
proof -
  have "worker_step (wasm_ex g) worker_init (yuv_ready (wasm_ex g) worker_init)"
    by (rule worker_step.loaded) (simp add: worker_init_def)
  then show ?thesis unfolding loaded_ex_def by (rule converse_rtranclp_into_rtranclp) (rule r_into_rtranclp, rule worker_step.message)
qed

lemma loaded_ex_run: "posted (run_round (loaded_ex False)) = [Some [7, 7, 7, 7, 9, 9, 9, 9]]"
  by code_simp

text \<open>
  C32: whatever frames arrive, of whatever sizes, and whenever the module is loaded: what the
  worker has allocated is what its four pointers hold, no more (a buffer that is replaced is given back,
  so at most four blocks are in use), each with the length the worker remembers, and no two of them
  overlap. The allocator is assumed to answer with an address other than zero of a block apart from
  those in use.
\<close>

theorem worker_memory:
  assumes "malloc_ok w" and "(worker_step w)\<^sup>*\<^sup>* worker_init k"
  shows "let s = yuv_state k; bs = blocks (mem s)
         in mset bs = held (y_slot s) + held (u_slot s) + held (v_slot s) + held (out_slot s)
            \<and> sorted_wrt apart bs \<and> length bs \<le> 4"
proof -
  have ok: "yuv_ok (yuv_state k)" using worker_ok [OF assms] by simp
  have "size (held sl) \<le> 1" for sl by (simp add: held_def split: option.split)
  note this [of "y_slot (yuv_state k)"] this [of "u_slot (yuv_state k)"] this [of "v_slot (yuv_state k)"] this [of "out_slot (yuv_state k)"]
  moreover have "length (blocks (mem (yuv_state k))) = size (mset (blocks (mem (yuv_state k))))" by simp
  ultimately have "length (blocks (mem (yuv_state k))) \<le> 4"
    using ok unfolding yuv_ok_def by (metis (no_types, lifting) add_mono numeral_Bit0 numeral_One size_union add.assoc)
  then show ?thesis using ok by (simp add: yuv_ok_def blocks_ok_def Let_def)
qed

theorem worker_memory_witness:
  "let s = yuv_state (loaded_ex False); bs = blocks (mem s)
   in mset bs = held (y_slot s) + held (u_slot s) + held (v_slot s) + held (out_slot s) \<and> sorted_wrt apart bs \<and> length bs \<le> 4"
  by (rule worker_memory [OF wasm_ex_ok loaded_ex_reachable])

text \<open>
  C31: the pixels the worker posts for a frame are what the conversion leaves in the output
  buffer when it runs on a memory in which the three buffers hold exactly the three planes of the last
  frame received, unspoilt by each other and by the output buffer, with the sizes and strides of that
  frame; the frame is then consumed and the next round is scheduled.
\<close>

theorem pixels_from_planes:
  assumes "malloc_ok w" and "(worker_step w)\<^sup>*\<^sup>* worker_init k" and "scheduled k"
    and "posted (run_round k) = posted k @ [Some out]"
  shows "\<exists>f q c. currentFrame k = Some f \<and> planes f True True True q
           \<and> c = yuv420_rgb24_std w (displayWidth f) (displayHeight f) (ptr (y_slot q)) (ptr (u_slot q)) (ptr (v_slot q))
                   (y_stride f) (v_stride f) (ptr (out_slot q)) (displayWidth f * 4) (cells (mem q))
           \<and> out = map (\<lambda>i. c (ptr (out_slot q) + i)) [0..<displayWidth f * displayHeight f * 4]
           \<and> currentFrame (run_round k) = None \<and> scheduled (run_round k)"
proof -
  have ok: "yuv_ok (yuv_state k)" "exports k = None \<or> exports k = Some w" using worker_ok [OF assms(1,2)] by simp_all
  obtain f where f: "currentFrame k = Some f" using assms(4) by (cases "currentFrame k") (auto simp: run_round_def)
  have e: "exports k = Some w" using ok(2) assms(4) f by (auto simp: run_round_def)
  obtain r t where r: "I420ToARGB w f (yuv_state k) = (r, t)" by (metis prod.exhaust)
  have "r = Some out" using assms(4) f e r by (cases r) (auto simp: run_round_def)
  with I420ToARGB_ok(2) [OF assms(1) ok(1) r] obtain q where q: "planes f True True True q" "convert w f q = (out, t)" by auto
  have "currentFrame (run_round k) = None \<and> scheduled (run_round k)"
    using assms(3) f e r \<open>r = Some out\<close> by (simp add: run_round_def)
  moreover have "map g [p..<p + n] = map (\<lambda>i. g (p + i)) [0..<n]" for g :: "nat \<Rightarrow> byte" and p n
    by (rule nth_equalityI) simp_all
  ultimately show ?thesis using f q by (auto simp: convert_def Let_def)
qed

theorem pixels_from_planes_witness:
  "\<exists>f q c. currentFrame (loaded_ex False) = Some f \<and> planes f True True True q
     \<and> c = yuv420_rgb24_std (wasm_ex False) (displayWidth f) (displayHeight f) (ptr (y_slot q)) (ptr (u_slot q)) (ptr (v_slot q))
             (y_stride f) (v_stride f) (ptr (out_slot q)) (displayWidth f * 4) (cells (mem q))
     \<and> [7, 7, 7, 7, 9, 9, 9, 9] = map (\<lambda>i. c (ptr (out_slot q) + i)) [0..<displayWidth f * displayHeight f * 4]
     \<and> currentFrame (run_round (loaded_ex False)) = None \<and> scheduled (run_round (loaded_ex False))"
  by (rule pixels_from_planes [OF wasm_ex_ok loaded_ex_reachable])
    (simp_all add: loaded_ex_run, simp_all add: loaded_ex_def on_message_def yuv_ready_def worker_init_def)

text \<open>
  C33: the array over the memory is made before the buffers, and a memory that grows detaches it:
  when making room for the first plane of a frame makes the memory grow, the copy raises, the timer of
  the next round is not set, and the worker, although it goes on taking messages, answers no frame any
  more, whatever is sent to it.
\<close>

theorem growth_silences:
  assumes "exports k = Some w" and "currentFrame k = Some f" and "len (y_slot (yuv_state k)) \<noteq> Some (length (y_bytes f))"
    and "\<And>bs. snd (malloc w bs (length (y_bytes f)))" and "(worker_step w)\<^sup>*\<^sup>* (run_round k) l"
  shows "posted l = posted k \<and> \<not> scheduled l"
proof -
  have "\<not> scheduled (run_round k) \<and> posted (run_round k) = posted k" using assms(1-4)
    by (simp add: run_round_def I420ToARGB_def store_y_def store_def ensure_def alloc_def Let_def split_beta)
  then show ?thesis using stopped_for_ever [OF assms(5)] by simp
qed

theorem growth_silences_witness:
  "posted (on_message frame_ex (run_round (loaded_ex True))) = posted (loaded_ex True)
   \<and> \<not> scheduled (on_message frame_ex (run_round (loaded_ex True)))"
  by (rule growth_silences [where w = "wasm_ex True" and f = frame_ex])
    (auto simp: loaded_ex_def on_message_def yuv_ready_def worker_init_def yuv_init_def no_slot_def frame_ex_def wasm_ex_def
      intro: r_into_rtranclp worker_step.message [unfolded on_message_def])

end
