(* ===== verification/ServiceWorker.thy ===== *)
theory ServiceWorker
  imports JsString
begin

text \<open>
  The service worker of the browser client (\<open>flutter_service_worker.js\<close>): what it keeps of the files of
  the application, how a new version takes over the cache of the old one, and what it answers; and the
  script of \<open>index.html\<close> that starts the application around it. The table \<open>RESOURCES\<close> (names of files
  and checksums) is an argument, because an upgrade involves the tables of two versions. Names that every
  object of JavaScript has (\<open>constructor\<close>) are not taken for files.
\<close>

subsection \<open>Caches\<close>

record response =
  resp_ok :: bool
  resp_body :: string

text \<open>A cache in the order of its requests; requests match without the part after \<open>#\<close>.\<close>

type_synonym cache = "(string \<times> response) list"
type_synonym checksums = "(string \<times> string) list"

record caches =
  content :: cache
  temp :: cache
  manifest :: "checksums option"

definition no_caches :: caches where
  "no_caches = \<lparr>content = [], temp = [], manifest = None\<rparr>"

definition page_url :: "string \<Rightarrow> string" where
  "page_url u = takeWhile (\<lambda>c. c \<noteq> CHR ''#'') u"

definition cache_match :: "string \<Rightarrow> cache \<Rightarrow> response option" where
  "cache_match u c = map_option snd (find (\<lambda>e. page_url (fst e) = page_url u) c)"

definition cache_delete :: "string \<Rightarrow> cache \<Rightarrow> cache" where
  "cache_delete u c = filter (\<lambda>e. page_url (fst e) \<noteq> page_url u) c"

definition cache_put :: "string \<Rightarrow> response \<Rightarrow> cache \<Rightarrow> cache" where
  "cache_put u r c = cache_delete u c @ [(u, r)]"

text \<open>\<open>addAll\<close>: every file has to be answered with success, or nothing is stored.\<close>

fun cache_addAll :: "(string \<Rightarrow> response option) \<Rightarrow> string list \<Rightarrow> cache \<Rightarrow> cache option" where
  "cache_addAll answers [] c = Some c"
| "cache_addAll answers (u # us) c =
     (case answers u of
        None \<Rightarrow> None
      | Some r \<Rightarrow> if resp_ok r then cache_addAll answers us (cache_put u r c) else None)"

subsection \<open>Files and addresses\<close>

text \<open>The worker knows its origin; its directory decides where relative names lead to.\<close>

record site =
  origin :: string
  directory :: string

definition resource :: "checksums \<Rightarrow> string \<Rightarrow> string option" where
  "resource R k = (case map_of R k of Some m \<Rightarrow> if m = [] then None else Some m | None \<Rightarrow> None)"

definition resolve :: "site \<Rightarrow> string \<Rightarrow> string" where
  "resolve st k = (if startsWith k ''/'' then origin st @ k else origin st @ directory st @ k)"

definition CORE :: "string list" where
  "CORE = [''main.dart.js'', ''index.html'', ''assets/AssetManifest.json'', ''assets/FontManifest.json'']"

text \<open>\<open>url.substring(origin.length + 1)\<close>.\<close>

definition after_origin :: "site \<Rightarrow> string \<Rightarrow> string" where
  "after_origin st u = drop (length (origin st) + 1) u"

definition cached_key :: "site \<Rightarrow> string \<Rightarrow> string" where
  "cached_key st u = (let k = after_origin st u in if k = [] then ''/'' else k)"

definition cut_version :: "string \<Rightarrow> string" where
  "cut_version k = (case indexOf k ''?v='' of Some i \<Rightarrow> take i k | None \<Rightarrow> k)"

definition fetch_key :: "site \<Rightarrow> string \<Rightarrow> string" where
  "fetch_key st u =
     (let k = cut_version (after_origin st u)
      in if u = origin st \<or> startsWith u (origin st @ ''/#'') \<or> k = [] then ''/'' else k)"

subsection \<open>Install and activate\<close>

text \<open>Installing stores the shell of the application in the temporary cache; \<open>None\<close> if that fails.\<close>

definition install :: "site \<Rightarrow> (string \<Rightarrow> response option) \<Rightarrow> caches \<Rightarrow> caches option" where
  "install st answers c =
     map_option (\<lambda>t. c\<lparr>temp := t\<rparr>) (cache_addAll answers (map (resolve st) CORE) (temp c))"

definition stale :: "checksums \<Rightarrow> checksums \<Rightarrow> string \<Rightarrow> bool" where
  "stale R old k = (case resource R k of None \<Rightarrow> True | Some m \<Rightarrow> map_of old k \<noteq> Some m)"

fun delete_stale :: "site \<Rightarrow> checksums \<Rightarrow> checksums \<Rightarrow> string list \<Rightarrow> cache \<Rightarrow> cache" where
  "delete_stale st R old [] c = c"
| "delete_stale st R old (u # us) c =
     delete_stale st R old us (if stale R old (cached_key st u) then cache_delete u c else c)"

fun copy_all :: "cache \<Rightarrow> string list \<Rightarrow> cache \<Rightarrow> cache" where
  "copy_all t [] c = c"
| "copy_all t (u # us) c = copy_all t us (case cache_match u t of Some r \<Rightarrow> cache_put u r c | None \<Rightarrow> c)"

definition activate :: "site \<Rightarrow> checksums \<Rightarrow> caches \<Rightarrow> caches" where
  "activate st R c =
     (let urls = map fst (temp c)
      in case manifest c of
           None \<Rightarrow> \<lparr>content = copy_all (temp c) urls [], temp = [], manifest = Some R\<rparr>
         | Some old \<Rightarrow>
             \<lparr>content = copy_all (temp c) urls (delete_stale st R old (map fst (content c)) (content c)),
              temp = [], manifest = Some R\<rparr>)"

text \<open>An exception on the way empties everything.\<close>

definition activation_failed :: "caches \<Rightarrow> caches" where
  "activation_failed c = no_caches"

subsection \<open>Fetch\<close>

text \<open>
  What a request leads to: the browser goes on by itself, the page is asked for online first, the answer
  is in the cache, or the file is fetched and then stored.
\<close>

datatype plan = Browser | Online_first | Cached response | Fetch_store

definition on_fetch :: "site \<Rightarrow> checksums \<Rightarrow> string \<Rightarrow> string \<Rightarrow> caches \<Rightarrow> plan" where
  "on_fetch st R method u c =
     (let k = fetch_key st u
      in if method \<noteq> ''GET'' then Browser
         else if resource R k = None then Browser
         else if k = ''/'' then Online_first
         else case cache_match u (content c) of Some r \<Rightarrow> Cached r | None \<Rightarrow> Fetch_store)"

definition fetch_answered :: "string \<Rightarrow> response option \<Rightarrow> caches \<Rightarrow> response option \<times> caches" where
  "fetch_answered u ans c =
     (case ans of
        Some r \<Rightarrow> (Some r, if resp_ok r then c\<lparr>content := cache_put u r (content c)\<rparr> else c)
      | None \<Rightarrow> (None, c))"

text \<open>\<open>None\<close> is a request that failed: the cached page answers, or the failure is passed on.\<close>

definition online_answered :: "string \<Rightarrow> response option \<Rightarrow> caches \<Rightarrow> response option \<times> caches" where
  "online_answered u ans c =
     (case ans of
        Some r \<Rightarrow> (Some r, c\<lparr>content := cache_put u r (content c)\<rparr>)
      | None \<Rightarrow> (cache_match u (content c), c))"

definition missing :: "site \<Rightarrow> checksums \<Rightarrow> caches \<Rightarrow> string list" where
  "missing st R c = filter (\<lambda>k. k \<notin> set (map (cached_key st \<circ> fst) (content c))) (map fst R)"

definition downloadOffline :: "site \<Rightarrow> checksums \<Rightarrow> (string \<Rightarrow> response option) \<Rightarrow> caches \<Rightarrow> caches option" where
  "downloadOffline st R answers c =
     map_option (\<lambda>t. c\<lparr>content := t\<rparr>) (cache_addAll answers (map (resolve st) (missing st R c)) (content c))"

subsection \<open>The life of the worker\<close>

record sw =
  active :: "checksums option"
  waiting :: "checksums option"
  stored :: caches

definition sw_init :: sw where
  "sw_init = \<lparr>active = None, waiting = None, stored = no_caches\<rparr>"

text \<open>
  \<open>serve R p r\<close>: while the version with the table \<open>R\<close> is the one of the worker, the server may answer the
  address \<open>p\<close> with \<open>r\<close>; the part after \<open>#\<close> is not sent. The names of files contain neither \<open>#\<close> nor
  \<open>?v=\<close>. Requests are those of the pages to their own origin; \<open>c0\<close> is what was cached when the request was
  made, and its answer comes later, while the same version is active.
\<close>

definition clean :: "checksums \<Rightarrow> bool" where
  "clean R \<longleftrightarrow> (\<forall>k \<in> fst ` set R. CHR ''#'' \<notin> set k \<and> indexOf k ''?v='' = None)"

definition own :: "site \<Rightarrow> string \<Rightarrow> bool" where
  "own st u \<longleftrightarrow> startsWith u (origin st @ ''/'')"

inductive sw_step :: "site \<Rightarrow> (checksums \<Rightarrow> string \<Rightarrow> response option \<Rightarrow> bool) \<Rightarrow> sw \<Rightarrow> sw \<Rightarrow> bool" for st serve where
  installed: "\<lbrakk>clean R; \<And>u. serve R (page_url u) (answers u); install st answers (stored s) = Some c\<rbrakk>
    \<Longrightarrow> sw_step st serve s (s\<lparr>waiting := Some R, stored := c\<rparr>)"
| activated: "waiting s = Some R
    \<Longrightarrow> sw_step st serve s \<lparr>active = Some R, waiting = None, stored = activate st R (stored s)\<rparr>"
| not_activated: "waiting s = Some R
    \<Longrightarrow> sw_step st serve s \<lparr>active = Some R, waiting = None, stored = activation_failed (stored s)\<rparr>"
| fetched: "\<lbrakk>active s = Some R; own st u; on_fetch st R ''GET'' u c0 = Fetch_store; serve R (page_url u) ans\<rbrakk>
    \<Longrightarrow> sw_step st serve s (s\<lparr>stored := snd (fetch_answered u ans (stored s))\<rparr>)"
| online: "\<lbrakk>active s = Some R; own st u; on_fetch st R ''GET'' u c0 = Online_first; serve R (page_url u) ans\<rbrakk>
    \<Longrightarrow> sw_step st serve s (s\<lparr>stored := snd (online_answered u ans (stored s))\<rparr>)"
| offline: "\<lbrakk>active s = Some R; \<And>u. serve R (page_url u) (answers u); downloadOffline st R answers (stored s) = Some c\<rbrakk>
    \<Longrightarrow> sw_step st serve s (s\<lparr>stored := c\<rparr>)"


subsection \<open>Addresses and keys\<close>

lemma page_url_idem [simp]: "page_url (page_url u) = page_url u"
  by (simp add: page_url_def)

lemma page_url_id: "CHR ''#'' \<notin> set u \<Longrightarrow> page_url u = u"
  unfolding page_url_def takeWhile_eq_all_conv by auto

text \<open>\<open>cut_version\<close> by recursion.\<close>

fun cut_rec :: "string \<Rightarrow> string" where
  "cut_rec [] = []"
| "cut_rec (c # s) = (if startsWith (c # s) ''?v='' then [] else c # cut_rec s)"

lemma cut_version_eq: "cut_version k = cut_rec k"
  by (induction k) (auto simp: cut_version_def split: option.splits)

lemma cut_page: "CHR ''#'' \<notin> set (cut_rec x) \<Longrightarrow> cut_rec (page_url x) = cut_rec x"
proof (induction x)
  case (Cons c s)
  show ?case
  proof (cases "startsWith (c # s) ''?v=''")
    case True
    then obtain t where "c # s = ''?v='' @ t" by (auto simp: startsWith_iff prefix_def)
    then show ?thesis by (auto simp: page_url_def startsWith_def)
  next
    case False
    then have c: "c \<noteq> CHR ''#''" "CHR ''#'' \<notin> set (cut_rec s)" using Cons.prems by auto
    have "prefix (page_url s) s" unfolding page_url_def by (rule takeWhile_is_prefix)
    then have "\<not> startsWith (c # page_url s) ''?v=''"
      using False by (auto simp: startsWith_iff intro: prefix_order.trans)
    moreover have "page_url (c # s) = c # page_url s" using c by (simp add: page_url_def)
    ultimately show ?thesis using False Cons.IH c(2) by simp
  qed
qed (simp add: page_url_def)

lemma own_form: "own st u \<Longrightarrow> \<exists>x. u = origin st @ CHR ''/'' # x"
  by (auto simp: own_def startsWith_iff prefix_def)

lemma fetch_key_form:
  "fetch_key st (origin st @ CHR ''/'' # x) = (if startsWith x ''#'' \<or> cut_rec x = [] then ''/'' else cut_rec x)"
  by (simp add: fetch_key_def after_origin_def cut_version_eq startsWith_iff Let_def)

text \<open>The key of a file does not depend on the part after \<open>#\<close>.\<close>

lemma fetch_key_page:
  assumes "CHR ''#'' \<notin> set (origin st)" "own st u" "CHR ''#'' \<notin> set (fetch_key st u)"
  shows "fetch_key st (page_url u) = fetch_key st u"
proof -
  obtain x where x: "u = origin st @ CHR ''/'' # x" using own_form assms(2) by blast
  have p: "page_url u = origin st @ CHR ''/'' # page_url x"
    using assms(1) by (simp add: x page_url_def takeWhile_append)
  show ?thesis
  proof (cases "startsWith x ''#''")
    case True
    then have "page_url x = []" by (cases x) (auto simp: page_url_def startsWith_def)
    then show ?thesis using True by (simp add: p fetch_key_form) (simp add: x fetch_key_form startsWith_def)
  next
    case False
    have "CHR ''#'' \<notin> set (cut_rec x)" using assms(3) False by (simp add: x fetch_key_form split: if_splits)
    then have "cut_rec (page_url x) = cut_rec x" by (rule cut_page)
    moreover have "\<not> startsWith (page_url x) ''#''"
      by (cases x) (auto simp: page_url_def startsWith_def)
    ultimately have "fetch_key st (page_url u) = (if cut_rec x = [] then ''/'' else cut_rec x)"
      unfolding p by (simp add: fetch_key_form)
    then show ?thesis using False by (simp add: x fetch_key_form)
  qed
qed


subsection \<open>What the operations keep\<close>

lemma put_entries: "e \<in> set (cache_put u r c) \<Longrightarrow> e \<in> set c \<or> e = (u, r)"
  by (auto simp: cache_put_def cache_delete_def)

lemma match_entry: "cache_match u c = Some r \<Longrightarrow> \<exists>e \<in> set c. page_url (fst e) = page_url u \<and> snd e = r"
  by (auto simp: cache_match_def dest: find_Some_set)

lemma addAll_entries:
  "cache_addAll answers us c = Some t \<Longrightarrow> e \<in> set t \<Longrightarrow>
     (fst e \<in> set us \<and> answers (fst e) = Some (snd e) \<and> resp_ok (snd e))
     \<or> (e \<in> set c \<and> (\<forall>u \<in> set us. page_url (fst e) \<noteq> page_url u))"
proof (induction us arbitrary: c)
  case (Cons u us)
  then obtain r where r: "answers u = Some r" "resp_ok r" "cache_addAll answers us (cache_put u r c) = Some t"
    by (auto split: option.splits if_splits)
  show ?case using Cons.IH [OF r(3) Cons.prems(2)] r(1,2) by (auto simp: cache_put_def cache_delete_def)
qed simp

lemma copy_entries:
  "e \<in> set (copy_all t us c) \<Longrightarrow> e \<in> set c \<or> (fst e \<in> set us \<and> cache_match (fst e) t = Some (snd e))"
proof (induction us arbitrary: c)
  case (Cons u us)
  from Cons.IH [OF Cons.prems [unfolded copy_all.simps]] show ?case
    by (auto split: option.splits dest!: put_entries)
qed simp

lemma delete_stale_entries:
  "e \<in> set (delete_stale st R old us c) \<Longrightarrow> e \<in> set c \<and> (fst e \<in> set us \<longrightarrow> \<not> stale R old (cached_key st (fst e)))"
proof (induction us arbitrary: c)
  case (Cons u us)
  from Cons.IH [OF Cons.prems [unfolded delete_stale.simps]] show ?case
    by (auto simp: cache_delete_def split: if_splits)
qed simp

text \<open>An entry fits a table: if its key is a file other than the page, it is a success with the checksum of the file.\<close>

definition fits :: "(string \<Rightarrow> string) \<Rightarrow> site \<Rightarrow> checksums \<Rightarrow> string \<times> response \<Rightarrow> bool" where
  "fits md5 st R e \<longleftrightarrow>
     (let k = fetch_key st (page_url (fst e))
      in k \<noteq> ''/'' \<longrightarrow> (case resource R k of None \<Rightarrow> True | Some m \<Rightarrow> resp_ok (snd e) \<and> md5 (resp_body (snd e)) = m))"

text \<open>The server answers the files of the version the worker belongs to.\<close>

definition honest :: "(string \<Rightarrow> string) \<Rightarrow> site \<Rightarrow> (checksums \<Rightarrow> string \<Rightarrow> response option \<Rightarrow> bool) \<Rightarrow> bool" where
  "honest md5 st serve \<longleftrightarrow>
     (\<forall>R p r m. serve R p (Some r) \<and> resp_ok r \<and> resource R (fetch_key st p) = Some m \<longrightarrow> md5 (resp_body r) = m)"

definition site_ok :: "site \<Rightarrow> bool" where
  "site_ok st \<longleftrightarrow> CHR ''#'' \<notin> set (origin st) \<and> startsWith (directory st) ''/''"

lemma fits_page: "page_url u = page_url v \<Longrightarrow> fits md5 st R (u, r) = fits md5 st R (v, r)"
  by (auto simp: fits_def Let_def split: option.split)

lemma fits_answer: "honest md5 st serve \<Longrightarrow> serve R (page_url u) (Some r) \<Longrightarrow> resp_ok r \<Longrightarrow> fits md5 st R (u, r)"
  by (auto simp: fits_def honest_def Let_def split: option.splits)

lemma own_resolve: "site_ok st \<Longrightarrow> own st (resolve st k)"
  by (auto simp: site_ok_def own_def resolve_def startsWith_iff)

lemma resource_key: "resource R k = Some m \<Longrightarrow> k \<in> fst ` set R \<and> m \<noteq> []"
  by (auto simp: resource_def split: option.splits if_splits dest: map_of_SomeD) (force dest: map_of_SomeD)

lemma cut_rec_id: "indexOf k ''?v='' = None \<Longrightarrow> cut_rec k = k"
  by (simp add: cut_version_def flip: cut_version_eq)

lemma own_page: "CHR ''#'' \<notin> set (origin st) \<Longrightarrow> u = origin st @ CHR ''/'' # x \<Longrightarrow> CHR ''#'' \<notin> set x \<Longrightarrow> page_url u = u"
  by (rule page_url_id) simp

text \<open>What an upgrade keeps fits the new table as well.\<close>

lemma kept_fits:
  assumes "site_ok st" "clean R" "own st u" "fits md5 st old (u, r)" "\<not> stale R old (cached_key st u)"
  shows "fits md5 st R (u, r)"
proof -
  obtain x where x: "u = origin st @ CHR ''/'' # x" using own_form assms(3) by blast
  let ?k = "cached_key st u"
  obtain m where m: "resource R ?k = Some m" "map_of old ?k = Some m"
    using assms(5) by (auto simp: stale_def split: option.splits)
  then have k: "CHR ''#'' \<notin> set ?k" "indexOf ?k ''?v='' = None" "m \<noteq> []"
    using assms(2) resource_key [OF m(1)] by (auto simp: clean_def)
  have kx: "?k = (if x = [] then ''/'' else x)" by (simp add: cached_key_def after_origin_def x)
  have "page_url u = u" using own_page [OF _ x] k(1) kx assms(1) by (auto simp: site_ok_def split: if_splits)
  moreover have "fetch_key st u = ?k"
    using k kx cut_rec_id [of x] by (auto simp: x fetch_key_form startsWith_iff prefix_def split: if_splits)
  moreover have "resource old ?k = Some m" using m(2) k(3) by (simp add: resource_def)
  ultimately show ?thesis using assms(4) m(1) by (simp add: fits_def Let_def)
qed

subsection \<open>The invariant\<close>

definition sw_inv :: "(string \<Rightarrow> string) \<Rightarrow> site \<Rightarrow> sw \<Rightarrow> bool" where
  "sw_inv md5 st s \<longleftrightarrow>
     (\<forall>e \<in> set (content (stored s)). own st (fst e)) \<and> fst ` set (temp (stored s)) \<subseteq> set (map (resolve st) CORE)
     \<and> (case active s of
          None \<Rightarrow> content (stored s) = [] \<and> manifest (stored s) = None
        | Some R \<Rightarrow> (\<forall>e \<in> set (content (stored s)). fits md5 st R e) \<and> manifest (stored s) \<in> {None, Some R})
     \<and> (\<forall>R. active s = Some R \<or> waiting s = Some R \<longrightarrow> clean R)
     \<and> (\<forall>R. waiting s = Some R \<longrightarrow> (\<forall>e \<in> set (temp (stored s)). fits md5 st R e))"

lemma copy_fits:
  assumes "\<forall>e \<in> set t. fits md5 st R e" "\<forall>e \<in> set c. fits md5 st R e" "e \<in> set (copy_all t us c)"
  shows "fits md5 st R e"
  using copy_entries [OF assms(3)]
proof
  assume "fst e \<in> set us \<and> cache_match (fst e) t = Some (snd e)"
  then obtain f where "f \<in> set t" "page_url (fst f) = page_url (fst e)" "snd f = snd e" using match_entry by blast
  then show ?thesis using assms(1) fits_page [of "fst f" "fst e"] by (metis prod.collapse)
qed (use assms(2) in blast)

lemma activate_inv:
  assumes "site_ok st" "sw_inv md5 st s" "waiting s = Some R"
  shows "sw_inv md5 st \<lparr>active = Some R, waiting = None, stored = activate st R (stored s)\<rparr>"
proof -
  let ?c = "stored s" and ?t = "temp (stored s)"
  let ?d = "case manifest ?c of None \<Rightarrow> [] | Some old \<Rightarrow> delete_stale st R old (map fst (content ?c)) (content ?c)"
  have R: "clean R" "\<forall>e \<in> set ?t. fits md5 st R e" and t: "fst ` set ?t \<subseteq> set (map (resolve st) CORE)"
    using assms(2,3) by (simp_all add: sw_inv_def)
  have d: "own st (fst e) \<and> fits md5 st R e" if e: "e \<in> set ?d" for e
  proof (cases "manifest ?c")
    case (Some old)
    then have a: "active s = Some old" "\<forall>e \<in> set (content ?c). own st (fst e) \<and> fits md5 st old e"
      using assms(2) by (auto simp: sw_inv_def split: option.splits)
    from e Some have f: "e \<in> set (content ?c)" "\<not> stale R old (cached_key st (fst e))"
      using delete_stale_entries [of e st R old "map fst (content ?c)" "content ?c"] by auto
    then show ?thesis using kept_fits [OF assms(1) R(1), of "fst e" md5 old "snd e"] a(2) by simp
  qed (use e in simp)
  have act: "activate st R ?c = \<lparr>content = copy_all ?t (map fst ?t) ?d, temp = [], manifest = Some R\<rparr>"
    by (simp add: activate_def Let_def split: option.split)
  have "own st (fst e) \<and> fits md5 st R e" if e: "e \<in> set (copy_all ?t (map fst ?t) ?d)" for e
  proof
    show "fits md5 st R e" by (rule copy_fits [OF R(2) _ e]) (use d in blast)
    have "e \<in> set ?d \<or> fst e \<in> fst ` set ?t" using copy_entries [OF e] by auto
    then show "own st (fst e)" using d t own_resolve [OF assms(1)] by (metis imageE list.set_map subsetD)
  qed
  then show ?thesis using R(1) by (simp add: sw_inv_def act)
qed


lemma install_inv:
  assumes "site_ok st" "honest md5 st serve" "sw_inv md5 st s" "clean R" "\<And>u. serve R (page_url u) (answers u)"
    and "install st answers (stored s) = Some c"
  shows "sw_inv md5 st (s\<lparr>waiting := Some R, stored := c\<rparr>)"
proof -
  obtain t where t: "cache_addAll answers (map (resolve st) CORE) (temp (stored s)) = Some t" and c: "c = (stored s)\<lparr>temp := t\<rparr>"
    using assms(6) by (auto simp: install_def)
  have n: "fst e \<in> set (map (resolve st) CORE) \<and> answers (fst e) = Some (snd e) \<and> resp_ok (snd e)" if "e \<in> set t" for e
  proof -
    have "\<forall>f \<in> set (temp (stored s)). fst f \<in> set (map (resolve st) CORE)" using assms(3) unfolding sw_inv_def by blast
    then show ?thesis using addAll_entries [OF t that] by blast
  qed
  have "fits md5 st R e" if "e \<in> set t" for e
    using fits_answer [OF assms(2), of R "fst e" "snd e"] n [OF that] assms(5) [of "fst e"] by simp
  moreover have "fst ` set t \<subseteq> set (map (resolve st) CORE)" using n by auto
  ultimately show ?thesis using assms(3,4) by (cases "active s") (simp_all add: sw_inv_def c)
qed

text \<open>A new entry of the cache of the active version.\<close>

lemma content_inv:
  assumes "sw_inv md5 st s" "active s = Some R" "\<And>e. e \<in> set t \<Longrightarrow> e \<in> set (content (stored s)) \<or> (own st (fst e) \<and> fits md5 st R e)"
  shows "sw_inv md5 st (s\<lparr>stored := (stored s)\<lparr>content := t\<rparr>\<rparr>)"
  using assms by (simp add: sw_inv_def) blast

lemma resource_clean: "clean R \<Longrightarrow> resource R k = Some m \<Longrightarrow> CHR ''#'' \<notin> set k"
  using resource_key by (fastforce simp: clean_def)

lemma page_fits:
  assumes "site_ok st" "own st u" "fetch_key st u = ''/''"
  shows "fits md5 st R (u, r)"
  using fetch_key_page [of st u] assms by (simp add: fits_def site_ok_def)

lemma step_inv:
  assumes "site_ok st" "honest md5 st serve" "sw_inv md5 st s" "sw_step st serve s t"
  shows "sw_inv md5 st t"
  using assms(4)
proof (cases rule: sw_step.cases)
  case (installed R answers c)
  then show ?thesis using install_inv [OF assms(1-3) installed(2-4)] by simp
next
  case activated
  then show ?thesis using activate_inv [OF assms(1,3)] by simp
next
  case (not_activated R)
  then show ?thesis using assms(3) by (simp add: sw_inv_def activation_failed_def no_caches_def)
next
  case (fetched R u c0 ans)
  show ?thesis
  proof (cases "\<exists>r. ans = Some r \<and> resp_ok r")
    case True
    then obtain r where r: "ans = Some r" "resp_ok r" by blast
    then have "fits md5 st R (u, r)" using fits_answer [OF assms(2)] fetched(5) by simp
    then show ?thesis using fetched(1,3) r
      by (auto simp: fetch_answered_def dest!: put_entries intro!: content_inv [OF assms(3) fetched(2)])
  next
    case False
    then have "snd (fetch_answered u ans (stored s)) = stored s" by (auto simp: fetch_answered_def split: option.split)
    then show ?thesis using fetched(1) assms(3) by simp
  qed
next
  case (online R u c0 ans)
  have k: "fetch_key st u = ''/''" using online(4) by (auto simp: on_fetch_def Let_def split: if_splits option.splits)
  show ?thesis
  proof (cases ans)
    case (Some r)
    then show ?thesis using online(1,3) page_fits [OF assms(1) online(3) k]
      by (auto simp: online_answered_def dest!: put_entries intro!: content_inv [OF assms(3) online(2)])
  qed (use online(1) assms(3) in \<open>simp add: online_answered_def\<close>)
next
  case (offline R answers c)
  obtain t where t: "cache_addAll answers (map (resolve st) (missing st R (stored s))) (content (stored s)) = Some t"
    and c: "c = (stored s)\<lparr>content := t\<rparr>"
    using offline(4) by (auto simp: downloadOffline_def)
  have "e \<in> set (content (stored s)) \<or> (own st (fst e) \<and> fits md5 st R e)" if "e \<in> set t" for e
    using addAll_entries [OF t that] own_resolve [OF assms(1)] offline(3) [of "fst e"]
      fits_answer [OF assms(2), of R "fst e" "snd e"] by auto
  then show ?thesis using content_inv [OF assms(3) offline(2)] offline(1) c by simp
qed

lemma sw_reachable_inv:
  assumes "site_ok st" "honest md5 st serve" "(sw_step st serve)\<^sup>*\<^sup>* sw_init s"
  shows "sw_inv md5 st s"
  using assms(3)
proof (induction rule: rtranclp_induct)
  case base
  show ?case by (simp add: sw_inv_def sw_init_def no_caches_def)
qed (rule step_inv [OF assms(1,2)])


subsection \<open>Properties\<close>

text \<open>Two versions of a small application: the second changes the program and keeps the rest.\<close>

definition site_ex :: site where
  "site_ex = \<lparr>origin = ''https://a'', directory = ''/''\<rparr>"

definition version_ex :: "string \<Rightarrow> checksums" where
  "version_ex v = [(''main.dart.js'', v), (''index.html'', ''1''), (''assets/AssetManifest.json'', ''1''),
     (''assets/FontManifest.json'', ''1''), (''logo.png'', ''1''), (''/'', ''1'')]"

definition answer_ex :: "checksums \<Rightarrow> string \<Rightarrow> response option" where
  "answer_ex R p = map_option (\<lambda>m. \<lparr>resp_ok = True, resp_body = m\<rparr>) (resource R (fetch_key site_ex p))"

definition serve_ex :: "checksums \<Rightarrow> string \<Rightarrow> response option \<Rightarrow> bool" where
  "serve_ex R p r \<longleftrightarrow> r = answer_ex R p"

definition logo_ex :: string where
  "logo_ex = ''https://a/logo.png?v=7''"

definition main_ex :: string where
  "main_ex = ''https://a/main.dart.js''"

definition sw_ex :: "nat \<Rightarrow> sw" where
  "sw_ex n =
     (let r = version_ex ''1''; r2 = version_ex ''2'';
          c1 = the (install site_ex (answer_ex r \<circ> page_url) no_caches);
          c2 = activate site_ex r c1;
          c3 = snd (fetch_answered ''https://a/logo.png'' (answer_ex r ''https://a/logo.png'') c2);
          c4 = the (install site_ex (answer_ex r2 \<circ> page_url) c3);
          c5 = activate site_ex r2 c4
      in if n = 0 then sw_init
         else if n = 1 then \<lparr>active = None, waiting = Some r, stored = c1\<rparr>
         else if n = 2 then \<lparr>active = Some r, waiting = None, stored = c2\<rparr>
         else if n = 3 then \<lparr>active = Some r, waiting = None, stored = c3\<rparr>
         else if n = 4 then \<lparr>active = Some r, waiting = Some r2, stored = c4\<rparr>
         else \<lparr>active = Some r2, waiting = None, stored = c5\<rparr>)"

lemma site_ex_ok: "site_ok site_ex"
  by code_simp

lemma serve_ex_honest: "honest id site_ex serve_ex"
  by (auto simp: honest_def serve_ex_def answer_ex_def)

lemma version_ex_clean: "clean (version_ex ''1'')" "clean (version_ex ''2'')"
  by code_simp+

lemma sw_ex_facts:
  "install site_ex (answer_ex (version_ex ''1'') \<circ> page_url) (stored (sw_ex 0)) = Some (stored (sw_ex 1))"
  "install site_ex (answer_ex (version_ex ''2'') \<circ> page_url) (stored (sw_ex 3)) = Some (stored (sw_ex 4))"
  "own site_ex ''https://a/logo.png'' \<and> page_url ''https://a/logo.png'' = ''https://a/logo.png''
     \<and> on_fetch site_ex (version_ex ''1'') ''GET'' ''https://a/logo.png'' (stored (sw_ex 2)) = Fetch_store"
  "own site_ex main_ex \<and> on_fetch site_ex (version_ex ''2'') ''GET'' main_ex (stored (sw_ex 5)) = Cached \<lparr>resp_ok = True, resp_body = ''2''\<rparr>"
  by code_simp+


lemma sw_ex_reachable: "(sw_step site_ex serve_ex)\<^sup>*\<^sup>* sw_init (sw_ex 5)"
proof -
  let ?r = "version_ex ''1''" and ?r2 = "version_ex ''2''"
  have a: "serve_ex R (page_url u) ((answer_ex R \<circ> page_url) u)" for R u by (simp add: serve_ex_def)
  have e: "sw_ex 1 = (sw_ex 0)\<lparr>waiting := Some ?r, stored := stored (sw_ex 1)\<rparr>"
    "sw_ex 2 = \<lparr>active = Some ?r, waiting = None, stored = activate site_ex ?r (stored (sw_ex 1))\<rparr>"
    "sw_ex 3 = (sw_ex 2)\<lparr>stored := snd (fetch_answered ''https://a/logo.png'' (answer_ex ?r ''https://a/logo.png'') (stored (sw_ex 2)))\<rparr>"
    "sw_ex 4 = (sw_ex 3)\<lparr>waiting := Some ?r2, stored := stored (sw_ex 4)\<rparr>"
    "sw_ex 5 = \<lparr>active = Some ?r2, waiting = None, stored = activate site_ex ?r2 (stored (sw_ex 4))\<rparr>"
    and w: "waiting (sw_ex 1) = Some ?r" "waiting (sw_ex 4) = Some ?r2" "active (sw_ex 2) = Some ?r" "sw_ex 0 = sw_init"
    by (simp_all add: sw_ex_def Let_def sw_init_def)
  have s: "sw_step site_ex serve_ex (sw_ex 0) (sw_ex 1)"
    by (subst e(1), rule sw_step.installed [OF version_ex_clean(1) _ sw_ex_facts(1)]) (rule a)
  have s: "(sw_step site_ex serve_ex)\<^sup>*\<^sup>* sw_init (sw_ex 1)" using s unfolding w(4) by (rule r_into_rtranclp)
  have "sw_step site_ex serve_ex (sw_ex 1) (sw_ex 2)" unfolding e(2) by (rule sw_step.activated [OF w(1)])
  with s have s: "(sw_step site_ex serve_ex)\<^sup>*\<^sup>* sw_init (sw_ex 2)" by (rule rtranclp.rtrancl_into_rtrancl)
  have "sw_step site_ex serve_ex (sw_ex 2) (sw_ex 3)" unfolding e(3)
    by (rule sw_step.fetched [OF w(3)]) (use sw_ex_facts(3) in \<open>auto simp: serve_ex_def\<close>)
  with s have s: "(sw_step site_ex serve_ex)\<^sup>*\<^sup>* sw_init (sw_ex 3)" by (rule rtranclp.rtrancl_into_rtrancl)
  have "sw_step site_ex serve_ex (sw_ex 3) (sw_ex 4)"
    by (subst e(4), rule sw_step.installed [OF version_ex_clean(2) _ sw_ex_facts(2)]) (rule a)
  with s have s: "(sw_step site_ex serve_ex)\<^sup>*\<^sup>* sw_init (sw_ex 4)" by (rule rtranclp.rtrancl_into_rtrancl)
  have "sw_step site_ex serve_ex (sw_ex 4) (sw_ex 5)" unfolding e(5) by (rule sw_step.activated [OF w(2)])
  with s show ?thesis by (rule rtranclp.rtrancl_into_rtrancl)
qed



subsection \<open>The worker of this application\<close>

text \<open>
  The API server has the browser client under \<open>/webclient/\<close>, while the worker looks for the names of
  files right after the origin.
\<close>

definition webclient_site :: "string \<Rightarrow> site" where
  "webclient_site org = \<lparr>origin = org, directory = ''/webclient/''\<rparr>"

lemma webclient_key:
  "fetch_key (webclient_site org) (org @ ''/webclient/'' @ x) = ''webclient/'' @ cut_rec x"
proof -
  have "cut_rec (''webclient/'' @ x) = ''webclient/'' @ cut_rec x" by (simp add: startsWith_def)
  then show ?thesis using fetch_key_form [of "webclient_site org" "''webclient/'' @ x"] by (simp add: webclient_site_def startsWith_def)
qed

lemma resource_None: "k \<notin> fst ` set R \<Longrightarrow> resource R k = None"
  using resource_key by (cases "resource R k") blast+

text \<open>
  C30: for the browser client as the API server has it, under \<open>/webclient/\<close>, the worker does nothing: when
  no file of its table is itself in a directory \<open>webclient\<close>, no request for a file of the client is
  answered or stored by it, whatever is cached; and an upgrade deletes every file of the client from the
  cache except the four it has just downloaded.
\<close>

theorem webclient_uncached:
  assumes "\<forall>k \<in> fst ` set R. \<not> startsWith k ''webclient/''" and "manifest c = Some old"
    and "\<forall>e \<in> set (content c). startsWith (fst e) (org @ ''/webclient/'')"
  shows "on_fetch (webclient_site org) R method (org @ ''/webclient/'' @ x) c = Browser
    \<and> fst ` set (content (activate (webclient_site org) R c)) \<subseteq> fst ` set (temp c)"
proof -
  let ?st = "webclient_site org"
  have none: "resource R (''webclient/'' @ y) = None" for y
    using assms(1) by (intro resource_None) (metis startsWith_append)
  have "fst e \<in> fst ` set (temp c)" if e: "e \<in> set (content (activate ?st R c))" for e
  proof (rule ccontr)
    assume n: "fst e \<notin> fst ` set (temp c)"
    have "e \<in> set (delete_stale ?st R old (map fst (content c)) (content c))"
      using e n assms(2) copy_entries [of e "temp c" "map fst (temp c)"] by (auto simp: activate_def Let_def)
    then have d: "e \<in> set (content c)" "\<not> stale R old (cached_key ?st (fst e))"
      using delete_stale_entries by fastforce+
    then obtain y where "fst e = org @ ''/webclient/'' @ y" using assms(3) by (auto simp: startsWith_iff prefix_def)
    then have "cached_key ?st (fst e) = ''webclient/'' @ y" by (simp add: cached_key_def after_origin_def webclient_site_def)
    then show False using d(2) none by (simp add: stale_def)
  qed
  moreover have "on_fetch ?st R method (org @ ''/webclient/'' @ x) c = Browser"
    unfolding on_fetch_def Let_def webclient_key none by simp
  ultimately show ?thesis by blast
qed

definition webclient_caches_ex :: caches where
  "webclient_caches_ex =
     \<lparr>content = [(''https://a/webclient/logo.png'', \<lparr>resp_ok = True, resp_body = ''1''\<rparr>)],
      temp = [(''https://a/webclient/main.dart.js'', \<lparr>resp_ok = True, resp_body = ''2''\<rparr>)],
      manifest = Some (version_ex ''1'')\<rparr>"

theorem webclient_uncached_witness:
  "on_fetch (webclient_site ''https://a'') (version_ex ''2'') ''GET'' (''https://a'' @ ''/webclient/'' @ ''logo.png'') webclient_caches_ex = Browser
   \<and> fst ` set (content (activate (webclient_site ''https://a'') (version_ex ''2'') webclient_caches_ex)) \<subseteq> fst ` set (temp webclient_caches_ex)"
proof (rule webclient_uncached)
  show "\<forall>k \<in> fst ` set (version_ex ''2''). \<not> startsWith k ''webclient/''"
    "\<forall>e \<in> set (content webclient_caches_ex). startsWith (fst e) (''https://a'' @ ''/webclient/'')" by code_simp+
qed (simp add: webclient_caches_ex_def)

subsection \<open>The start of the page\<close>

text \<open>
  The script of \<open>index.html\<close>: the application is loaded when the worker is ready, or after four seconds.
  A registration tells the address of the active worker and whether there is one installing or waiting;
  a registration that fails and an exception leave the page as it was.
\<close>

record registration =
  reg_active :: "string option"
  reg_installing :: bool
  reg_waiting :: bool

record boot =
  scriptLoaded :: bool
  script_tags :: nat
  listening :: bool

definition boot_init :: boot where
  "boot_init = \<lparr>scriptLoaded = False, script_tags = 0, listening = False\<rparr>"

definition loadMainDartJs :: "boot \<Rightarrow> boot" where
  "loadMainDartJs b = (if scriptLoaded b then b else b\<lparr>scriptLoaded := True, script_tags := script_tags b + 1\<rparr>)"

definition serviceWorkerVersion :: string where
  "serviceWorkerVersion = ''1200232272''"

definition registered :: "registration \<Rightarrow> boot \<Rightarrow> boot" where
  "registered reg b =
     (case reg_active reg of
        None \<Rightarrow> if reg_installing reg \<or> reg_waiting reg then b\<lparr>listening := True\<rparr> else b
      | Some url \<Rightarrow>
          if \<not> suffix serviceWorkerVersion url then (if reg_installing reg then b\<lparr>listening := True\<rparr> else b)
          else loadMainDartJs b)"

definition state_changed :: "string \<Rightarrow> boot \<Rightarrow> boot" where
  "state_changed st b = (if listening b \<and> st = ''activated'' then loadMainDartJs b else b)"

definition four_seconds :: "boot \<Rightarrow> boot" where
  "four_seconds b = (if \<not> scriptLoaded b then loadMainDartJs b else b)"

datatype boot_event = Registered registration | State_changed string | Four_seconds

fun boot_do :: "boot_event \<Rightarrow> boot \<Rightarrow> boot" where
  "boot_do (Registered reg) b = registered reg b"
| "boot_do (State_changed st) b = state_changed st b"
| "boot_do Four_seconds b = four_seconds b"

definition boot_all :: "boot_event list \<Rightarrow> boot" where
  "boot_all es = fold boot_do es boot_init"

text \<open>Without support for service workers the application is loaded at once.\<close>

definition boot_page :: "bool \<Rightarrow> boot_event list \<Rightarrow> boot" where
  "boot_page supported es = (if supported then boot_all es else loadMainDartJs boot_init)"

lemma boot_snoc: "boot_all (es @ [e]) = boot_do e (boot_all es)"
  by (simp add: boot_all_def)

lemma boot_loaded: "script_tags (boot_all es) = (if scriptLoaded (boot_all es) then 1 else 0)"
proof (induction es rule: rev_induct)
  case Nil
  show ?case by (simp add: boot_all_def boot_init_def)
next
  case (snoc e es)
  then show ?case
    by (cases e) (simp_all add: boot_snoc registered_def state_changed_def four_seconds_def loadMainDartJs_def split: option.split)
qed

lemma boot_keeps: "scriptLoaded b \<Longrightarrow> scriptLoaded (boot_do e b)"
  by (cases e) (simp_all add: registered_def state_changed_def four_seconds_def loadMainDartJs_def split: option.split)

text \<open>In any order of the events the application is loaded once at most, and at the latest by the timer.\<close>

lemma loaded_once:
  "script_tags (boot_page b es) \<le> 1 \<and> (\<not> b \<or> Four_seconds \<in> set es \<longrightarrow> script_tags (boot_page b es) = 1)"
proof -
  have "Four_seconds \<in> set es \<Longrightarrow> scriptLoaded (boot_all es)"
  proof (induction es rule: rev_induct)
    case (snoc e es)
    show ?case
    proof (cases "e = Four_seconds")
      case True
      then show ?thesis by (simp add: boot_snoc four_seconds_def loadMainDartJs_def)
    next
      case False
      then show ?thesis using snoc boot_keeps by (simp add: boot_snoc)
    qed
  qed simp
  then show ?thesis using boot_loaded by (auto simp: boot_page_def loadMainDartJs_def boot_init_def)
qed

text \<open>
  With another version active and no worker installing at that moment, \<open>reg.installing\<close> is null: the
  exception leaves only the timer.
\<close>

lemma update_waits:
  assumes "reg_active reg = Some url" "\<not> suffix serviceWorkerVersion url" "\<not> reg_installing reg"
  shows "script_tags (boot_all (Registered reg # map State_changed sts)) = 0"
proof -
  have "fold boot_do (map State_changed sts) boot_init = boot_init"
    by (induction sts) (simp_all add: state_changed_def boot_init_def)
  then show ?thesis using assms by (simp add: boot_all_def registered_def boot_init_def)
qed

end
