(* ===== verification/Spec2Isabelle.thy ===== *)
theory Spec2Isabelle
  imports Prelude JsValue JsString JsJson JsDouble File Routes Tags Auth Request Api I18n AppStore UserStore
    Permission Crud Views Tag AddressBook WebClient ConnectPage WebLinks Common Websock Connection Handshake
    Session Behaviour BuildForm CustomClient BuilderSafety
    Wire Protobuf Messages RendezvousMessages Codec Peers ServerControl GithubBuild Account Dashboard Management Yuv ServiceWorker
begin

text \<open>
  DeskForge is a remote-desktop management system: an API server, a rendezvous and relay server, an
  administration console and a browser client. This development models the JavaScript of the
  console (\<open>admin-ui/src\<close>), a single-page application: its utilities, its stores, its HTTP client,
  its API functions, its navigation guard and the state and operations of its views and pages; and the browser
  client (\<open>api/resources/web/js/src\<close>): its JavaScript glue and, in TypeScript, its connection to a
  remote desktop.

  \<^bold>\<open>How the parts interact.\<close> Every call of the console goes through the axios instance of
  \<open>utils/request.js\<close>: a request interceptor adds the token, the response interceptor turns an
  envelope \<open>{code, message, data}\<close> into a value or a rejection, shows at most one message, and ends
  the session (removes the token and reloads the page) when access is refused. The functions of
  \<open>api/\<close> only describe requests. The user store logs in and out and keeps the token in local
  storage; on login it hands the granted route names to the route store, which registers the routes
  they allow; the navigation guard asks the user store for the current user before it lets a
  navigation pass. The views repeat one pattern (a list with a query, a form, deletion after a
  confirmation), each with its own API functions in an administrator's and a personal version.

  The browser client talks to its Flutter page through \<open>setByName\<close>, \<open>getByName\<close> and events
  (\<open>globals.js\<close>). A connection asks the rendezvous server for a relay, opens a socket to the relay,
  agrees on keys with the peer over it and then reads the peer's messages in a loop, while the page's
  calls send messages on the same socket.

  \<^bold>\<open>Theories.\<close>
  \<^item> \<open>Prelude\<close>: collections of simplification rules and facts on lists.
  \<^item> \<open>JsValue\<close>, \<open>JsString\<close>, \<open>JsJson\<close>, \<open>JsDouble\<close>: the language. Values and objects (association lists
    in insertion order, as \<open>Object.keys\<close> sees them), strings as lists of code units below 256,
    \<open>JSON.stringify\<close> and \<open>JSON.parse\<close>, and the doubles the colour conversions compute with. Numbers in
    values are integers.
  \<^item> \<open>File\<close> (\<open>utils/file.js\<close>): CSV writing and parsing, generated names, sizes.
  \<^item> \<open>Routes\<close> (\<open>router/index.js\<close>, \<open>store/router.js\<close>): the route table as data, the filter, \<open>addRoutes\<close>.
  \<^item> \<open>Tags\<close> (\<open>store/tags.js\<close>): the tab bar; its contract is the locale \<open>tab_bar\<close>.
  \<^item> \<open>Auth\<close> (\<open>utils/auth.js\<close>): token and OIDC code in local storage, a partial map; the locale
    \<open>credential\<close> is interpreted on both.
  \<^item> \<open>Request\<close> (\<open>utils/request.js\<close>): the interceptors as functions to an outcome and a list of effects
    in order; the locale \<open>interceptor\<close> is interpreted on both response handlers.
  \<^item> \<open>Api\<close> (\<open>api/*.js\<close>, \<open>api/my/*.js\<close>): one definition per function.
  \<^item> \<open>I18n\<close> (\<open>utils/i18n.js\<close>, \<open>utils/time.js\<close>), \<open>AppStore\<close> (\<open>store/app.js\<close>), \<open>UserStore\<close>
    (\<open>store/user.js\<close>), \<open>Permission\<close> (\<open>permission.js\<close>).
  \<^item> \<open>Crud\<close> (\<open>composables/\<close> and the code the views share), with the locale \<open>list_view\<close>; \<open>Views\<close>,
    \<open>Tag\<close> and \<open>AddressBook\<close> (\<open>views/\<close>) instantiate it view by view and interpret the locale on each.
  \<^item> \<open>Peers\<close> (\<open>views/peer\<close>, \<open>views/my/peer\<close>): the device views with their paginated export, the import
    of a CSV file, the columns and the batch dialogs. \<open>Management\<close>: the identity providers, the groups, the
    status switch, the share dialog, the tab bar on the tab store, the filter bar and the table's cells.
    \<open>Account\<close>: the pages that sign in, register, change a password, show the profile and confirm an
    identity, over the session of the user store. \<open>ServerControl\<close> (\<open>views/rustdesk\<close>), \<open>GithubBuild\<close>
    (\<open>views/server/github-build.vue\<close>) and \<open>Dashboard\<close> (\<open>views/index\<close>, \<open>ServerHealth.vue\<close>): pages with
    requests in flight, as step relations of clicks, seconds and answers.
  \<^item> \<open>WebClient\<close> (\<open>globals.js\<close>, \<open>ljw.js\<close>): nonces, the flipped frame, events for Dart, the stored
    peers and their merge with the server's address book, and \<open>setByName\<close> and \<open>getByName\<close> over a
    page state with numbered connections; \<open>ConnectPage\<close> (\<open>ui.js\<close>): the panels; \<open>WebLinks\<close>
    (\<open>utils/webclient.js\<close>): links and the salt lookup.
  \<^item> \<open>Common\<close> (\<open>common.ts\<close>, the tables of \<open>gen_js_from_hbb.ts\<close> and the control keys of \<open>message.ts\<close>):
    key names, errors to retry, decompression, translation. \<open>Websock\<close> (\<open>websock.ts\<close>): a socket with its
    buffer, its status and its secret key with two counters. \<open>Connection\<close> (\<open>connection.ts\<close>): every
    operation of a connection, and \<open>conn_step\<close>, the steps of a started one.
  \<^item> \<open>Handshake\<close>: well-formedness, and the locales \<open>conn_frame\<close> (what every operation that sends or
    notifies keeps) and \<open>wire_invariant\<close> (what every reachable connection satisfies, given what holds
    of new sockets and of keyed ones); \<open>Session\<close> interprets them for the shape of the state, for the
    authenticity of keys and for the sealing of frames, and holds the abstract protocol that the
    connection refines; \<open>Behaviour\<close> has the properties of single operations.
  \<^item> \<open>BuildForm\<close> and \<open>CustomClient\<close> (the script of \<open>views/custom-client/index.vue\<close>): the form of the
    client builder (fields, validation, snapshots, presets, the replacement of a host), and the page
    with the requests in flight, their answers in any order and the polling timer. \<open>BuilderSafety\<close>: its
    properties; the locale \<open>latest_only\<close> is the contract of a request of which only the latest answer counts.
  \<^item> \<open>Wire\<close> (the package \<open>protobufjs\<close> as bundled in \<open>dist/vendor.js\<close>): numbers of variable length, texts,
    skipping. \<open>Protobuf\<close>: \<open>createBase\<close>, \<open>encode\<close>, \<open>decode\<close> and \<open>fromPartial\<close> of a message, over the table
    of its fields; \<open>Messages\<close> (\<open>message.ts\<close>) and \<open>RendezvousMessages\<close> (\<open>rendezvous.ts\<close>): the tables.
    \<open>Codec\<close>: the objects of the connection, and the environment with this codec in place.
  \<^item> \<open>Yuv\<close> (\<open>yuv.js\<close>): the worker that converts frames, with its buffers in the memory of a module.
  \<^item> \<open>ServiceWorker\<close> (\<open>flutter_service_worker.js\<close> and the script of \<open>index.html\<close>): the cache of the files of
    the client over upgrades, what requests are answered, and the loading of the application.
  \<^item> This theory: the property that spans the views and the API, over a step relation of all
    operations of the personal views.

  \<^bold>\<open>Asynchrony.\<close> An \<open>async\<close> function is a function of the answers it awaits: whether a dialog was
  confirmed, whether a call succeeded and what it returned (\<open>None\<close> for a rejected call, as the
  sources write \<open>.catch(_ => false)\<close>). Where the order of suspensions matters the function is split
  at the suspension: \<open>load_begin\<close> and \<open>load_end\<close> for overlapping loads, \<open>bulk_begin\<close> and \<open>bulk_end\<close>,
  \<open>logout\<close> and \<open>logout_answered\<close>. A connection keeps for each of its routines the await it is
  suspended at, and a step delivers one event to a socket, resumes one routine or is one call of the
  page, in any order. The state records the calls made, the messages shown and the files
  offered, in order.

  \<^bold>\<open>What the lemmas show.\<close> For the session: a logout leaves neither token nor user data, the stored
  token is the one of the user store, the guard never lets an unauthenticated navigation reach a
  page outside the white list and settles within three rounds; and the one flaw of the logout, which
  runs to its end before its promise is stored when there is no token, with the endless redirection
  it can cause. For the HTTP client: exactly which answers end a session, one message at most, what
  resolves. For the routes: what is registered is granted, everything granted is registered in
  order, and what that means for the two kinds of users. For the views: which calls are made, with
  which payloads and after which confirmation; which messages are shown; that personal views stay
  within the personal API. For the pages of the console, in any order of clicks and answers: no command
  goes to a server that has not answered, only an offered tag is approved, a button's mark follows its
  request, a login ends at the page asked for, an export holds every device and can be imported again;
  and their flaws (relay servers erased, a stored command overwritten, a reset that leaves stale rows, a
  slow server asked every second, answers of replaced loads and of another device shown). For the data: CSV written is read back, colours survive the trip through
  the \<open>rgba\<close> text and its floating-point alpha, and what is written as JSON is parsed back. For the
  browser client: nonces do not repeat, frames are flipped row by row, a merge keeps local passwords
  and cannot reload the page for ever, and closed connections are not used. For a connection, in any
  order of events: no key without two valid signatures for this peer, everything sent after the key
  agreement is sealed under fresh nonces, received frames cannot be forged, repeated or reordered,
  attempts go through the protocol's stages in order; what is remembered of a password suffices for
  the next login; and three flaws: a loop ended by an unknown permission, a close that misses a relay
  being opened, frames drawn twice. For the client builder, in any order of answers: what the page
  shows as pending is pending, an outdated answer changes nothing, a build is submitted only from a
  valid form, edits made meanwhile are kept, presets are restored without remains of the previous form; and
  its flaw, a spinner that never ends. For the codec: what is sent is read as it was meant, by
  readers of other versions too, and a stream of sealed messages arrives complete and in order. For the
  worker: its blocks never overlap nor leak, the pixels come from the planes of the last frame, and its flaw:
  a memory that grows silences it. For the service worker: what it answers from the cache fits the table
  of its version; and its flaw: under the directory the client is served from it does nothing.

  \<^bold>\<open>Recursion and fuel.\<close> \<open>JSON_parse\<close> descends with fuel from the length of its input, and
  \<open>JSON_parse_fuel\<close> proves it enough. \<open>navigate\<close> iterates the guard with fuel; \<open>navigation_settles\<close>
  proves the number of rounds that suffices and \<open>stuck_logout_diverges\<close> the case where none does.
  \<open>decode_from\<close> calls itself on what an embedded message left over; that this is never longer is
  shown within its termination proof.
  The search for the shortest decimal of a double takes 25 places; \<open>decimals_complete\<close> proves that a
  place before that always succeeds for a byte over 255. Everything else is structural or has its
  termination proved.

  \<^bold>\<open>Not modelled.\<close> The templates of the Vue components, except that a step relation of a page takes
  from them when a button can be clicked; the components that only connect modelled functions; what axios, Vue, pinia, the router
  and Element Plus do inside, DOM effects (downloads, clipboard, the progress bar), the message
  catalogues and the local time zone (parameters), the base64 helpers, generated and vendored
  scripts, and the programs in other languages. Of the browser client, libsodium, zstd, SHA-256 and the text decoder are the fields of the record
  \<open>env\<close>, and what a property needs of them is a hypothesis of it; so are the encodings of messages, for
  which \<open>coded\<close> puts the generated ones. The allocator and the conversion of \<open>yuv.wasm\<close> are the record \<open>wasm\<close>. \<open>fromJSON\<close> and \<open>toJSON\<close> of the messages have no users. The upload helpers, which no page
  uses, and the loader of the video decoder (one call into a vendored script) are not modelled. An answer the service
  worker waits for comes before the next version takes over.
\<close>

subsection \<open>The personal views\<close>

text \<open>
  One step of a view opened with \<open>api_type = 'my'\<close>, as an ordinary user can open it: any of its
  operations, with any confirmation and any answer of the server.
\<close>

inductive my_step :: "view \<Rightarrow> view \<Rightarrow> bool" where
  coll_load: "my_step v (collection_getList My res v)"
| coll_del: "my_step v (collection_del My row c ok res v)"
| coll_submit: "my_step v (collection_submit My ok res v)"
| rule_load: "my_step v (rule_getList My res v)"
| rule_delete: "my_step v (rule_del My row c ok res v)"
| rule_sub: "my_step v (rule_submit My ok res v)"
| rule_groups: "my_step (rview w) (rview (getGroupUsers My a w))"
| log_load: "my_step v (log_getList My peers res v)"
| log_delete: "my_step v (log_del My row c ok peers res v)"
| log_batch: "my_step v (snd (log_batchdel My rs c ok peers res v))"
| log_export: "my_step v (log_toExport My res v)"
| share_load: "my_step v (share_getList My res v)"
| share_delete: "my_step v (share_del My row c ok res v)"
| share_batch: "my_step (sview w) (sview (toBatchDelete My c ok res w))"
| tag_load: "my_step v (tag_getList My res v)"
| tag_delete: "my_step v (tag_del My row c ok res v)"
| tag_sub: "my_step v (tag_submit My ok res v)"
| entry_load: "my_step v (ab_getList My peers res v)"
| entry_delete: "my_step v (ab_del My row c ok peers res v)"
| entry_sub: "my_step v (ab_submit My ok peers res v)"
| entry_tags: "my_step (bt_view b) (bt_view (snd (bt_submit c ok b)))"
| device_load: "my_step v (my_peers_getList res v)"
| device_delete: "my_step v (my_peers_del row c ok res v)"
| device_view: "my_step v (my_toView row v)"
| device_export: "my_step v (my_peers_toExport locale res v)"
| device_batch: "my_step v (snd (my_peers_toBatchDelete c ok res (rs, v)))"
| device_book: "my_step v (my_toAddressBook peer v)"
| device_books: "my_step v (snd (snd (my_submitBatchAddToAB rs ok (form, visible, v))))"

text \<open>The calls an ordinary user may make: the personal ones and the lookup of peers.\<close>

definition my_call :: "config \<Rightarrow> bool" where
  "my_call c = (startsWith (url c) ''/my/'' \<or> url c = ''/peer/simpleData'')"

lemma my_api_calls:
  "list_all (\<lambda>f. my_call (f x)) my_api" "my_call (peer_simpleData x)"
  by (simp_all add: my_call_def my_api_def my_api_defs default_config_def startsWith_def peer_simpleData_def)

lemma my_apis_calls:
  "my_call (list_api (collection_apis My) x)" "my_call (remove_api (collection_apis My) x)"
  "my_call (update_api (collection_apis My) x)" "my_call (create_api (collection_apis My) x)"
  "my_call (list_api (rule_apis My) x)" "my_call (remove_api (rule_apis My) x)"
  "my_call (update_api (rule_apis My) x)" "my_call (create_api (rule_apis My) x)"
  "my_call (list_api (tag_apis My) x)" "my_call (remove_api (tag_apis My) x)"
  "my_call (update_api (tag_apis My) x)" "my_call (create_api (tag_apis My) x)"
  "my_call (list_api (ab_apis My) x)" "my_call (remove_api (ab_apis My) x)"
  "my_call (update_api (ab_apis My) x)" "my_call (create_api (ab_apis My) x)"
  "my_call (blist_api (log_apis My) x)" "my_call (bremove_api (log_apis My) x)" "my_call (batchDelete_api (log_apis My) x)"
  "my_call (blist_api (share_apis My) x)" "my_call (bremove_api (share_apis My) x)" "my_call (batchDelete_api (share_apis My) x)"
  "my_call (fetchPeers My x)" "my_call (rule_groupUsers My)" "my_call (my_address_book_batchUpdateTags x)"
  "my_call (my_peer_list x)" "my_call (my_peer_remove x)" "my_call (my_peer_batchRemove x)"
  "my_call (my_address_book_batchCreateFromPeers x)"
  using my_api_calls(1) [of x] my_api_calls(1) [of JUndef]
  by (simp_all add: collection_apis_def rule_apis_def tag_apis_def ab_apis_def log_apis_def share_apis_def
      fetchPeers_def rule_groupUsers_def my_api_def)

lemma delete_row_calls:
  "my_call c \<Longrightarrow> (\<And>v. list_all my_call (calls v) \<Longrightarrow> list_all my_call (calls (getList v))) \<Longrightarrow>
   list_all my_call (calls v) \<Longrightarrow> list_all my_call (calls (delete_row c getList confirmed ok v))"
  by (simp add: delete_row_def Let_def)

lemma submit_form_calls:
  "my_call c \<Longrightarrow> (\<And>v. list_all my_call (calls v) \<Longrightarrow> list_all my_call (calls (getList v))) \<Longrightarrow>
   list_all my_call (calls v) \<Longrightarrow> list_all my_call (calls (submit_form c getList ok v))"
  by (simp add: submit_form_def Let_def)

lemma my_load_calls:
  assumes "list_all my_call (calls v)"
  shows "list_all my_call (calls (collection_getList My res v))" "list_all my_call (calls (rule_getList My res v))"
    "list_all my_call (calls (share_getList My res v))" "list_all my_call (calls (tag_getList My res v))"
    "list_all my_call (calls (log_getList My peers res v))" "list_all my_call (calls (ab_getList My apeers res v))"
    "list_all my_call (calls (my_peers_getList res v))"
  using assms my_apis_calls my_api_calls(2)
  by (simp_all add: collection_getList_def rule_getList_def share_getList_def tag_getList_def my_peers_getList_def log_getList_calls
      ab_getList_calls log_peer_calls_def ab_peer_calls_def split: option.split)

lemma my_step_calls: "my_step v w \<Longrightarrow> list_all my_call (calls v) \<Longrightarrow> list_all my_call (calls w)"
proof (induction rule: my_step.induct)
  case (share_batch w c ok res)
  then show ?case using my_apis_calls my_load_calls by (simp add: toBatchDelete_def Let_def)
next
  case (tag_sub v ok res)
  then show ?case using my_apis_calls my_load_calls
    by (auto simp: tag_submit_def Let_def intro!: submit_form_calls split: jsval.split option.split)
qed (use my_apis_calls my_load_calls in \<open>auto simp: collection_del_def rule_del_def log_del_def share_del_def
  tag_del_def ab_del_def collection_submit_def rule_submit_def ab_submit_def getGroupUsers_def log_batchdel_def
  batchConfirmAndRemove_def log_toExport_def bt_submit_def my_peers_del_def my_toView_def
  my_peers_toExport_def my_peers_toBatchDelete_def my_toAddressBook_def my_submitBatchAddToAB_def Let_def
  intro!: delete_row_calls submit_form_calls split: option.split sum.split\<close>)

subsection \<open>Properties across components\<close>



end
